(* ===== verification/Prelude.thy ===== *)
theory Prelude imports Main "HOL-Library.Word" begin

text \<open>
  Shared ground of the development: bytes, the result type of a Python call that may raise
  (\<open>'e + 'a\<close>, \<open>Inl\<close> the exception and \<open>Inr\<close> the value), the handful of
  combinators that stand for sequencing and for \<open>except ... raise\<close>, Python slices with
  negative bounds, and the interface of a wire codec that every packet class promises.
\<close>

section \<open>Bytes and slices\<close>

type_synonym byte = "8 word"
type_synonym bytes = "byte list"

text \<open>\<open>s[:-k]\<close> and \<open>s[-k:]\<close> for \<open>k > 0\<close>: a slice never raises, it clips.\<close>

definition drop_last :: "nat \<Rightarrow> 'a list \<Rightarrow> 'a list" where
  "drop_last k s = take (length s - k) s"

definition take_last :: "nat \<Rightarrow> 'a list \<Rightarrow> 'a list" where
  "take_last k s = drop (length s - k) s"

lemma drop_last_append [simp]: "length t = k \<Longrightarrow> drop_last k (s @ t) = s"
  by (simp add: drop_last_def)

lemma take_last_append [simp]: "length t = k \<Longrightarrow> take_last k (s @ t) = t"
  by (simp add: take_last_def)

lemma drop_last_take_last: "drop_last k s @ take_last k s = s"
  by (simp add: drop_last_def take_last_def)

lemma length_drop_last [simp]: "length (drop_last k s) = length s - k"
  by (simp add: drop_last_def)

lemma length_take_last [simp]: "length (take_last k s) = min k (length s)"
  by (auto simp: take_last_def)

text \<open>What a read handed out at most as much as was asked for leaves behind.\<close>

lemma read_prefix_split:
  "m @ rest = c @ q \<Longrightarrow> length c \<le> length m \<Longrightarrow>
     m = c @ drop (length c) m \<and> q = drop (length c) m @ rest"
  by (auto simp: append_eq_append_conv2)

section \<open>Results of calls that may raise\<close>

named_theorems res_simps \<open>how the result combinators compute and when they return\<close>

definition bindE :: "'e + 'a \<Rightarrow> ('a \<Rightarrow> 'e + 'b) \<Rightarrow> 'e + 'b" where
  "bindE m f = (case m of Inl e \<Rightarrow> Inl e | Inr x \<Rightarrow> f x)"

text \<open>\<open>try: m except <a class satisfying caught> as e: raise e'\<close>.\<close>

definition except_raise :: "('e \<Rightarrow> bool) \<Rightarrow> 'e \<Rightarrow> 'e + 'a \<Rightarrow> 'e + 'a" where
  "except_raise caught e' m = (case m of Inl e \<Rightarrow> if caught e then Inl e' else Inl e | Inr x \<Rightarrow> Inr x)"

text \<open>\<open>tuple(f(x) for x in xs)\<close>, left to right, stopping at the first exception.\<close>

fun mapE :: "('a \<Rightarrow> 'e + 'b) \<Rightarrow> 'a list \<Rightarrow> 'e + 'b list" where
  "mapE f [] = Inr []"
| "mapE f (x # xs) = bindE (f x) (\<lambda>y. bindE (mapE f xs) (\<lambda>ys. Inr (y # ys)))"

lemma bindE_Inl [simp]: "bindE (Inl e) f = Inl e"
  by (simp add: bindE_def)

lemma bindE_Inr [simp]: "bindE (Inr x) f = f x"
  by (simp add: bindE_def)

lemma bindE_eq_Inr [res_simps]: "bindE m f = Inr y \<longleftrightarrow> (\<exists>x. m = Inr x \<and> f x = Inr y)"
  by (cases m) auto

lemma bindE_eq_Inl [res_simps]:
  "bindE m f = Inl e \<longleftrightarrow> m = Inl e \<or> (\<exists>x. m = Inr x \<and> f x = Inl e)"
  by (cases m) auto

lemma bindE_Inr_right [simp]: "bindE m Inr = m"
  by (cases m) auto

lemma except_raise_Inr [simp]: "except_raise P e' (Inr x) = Inr x"
  by (simp add: except_raise_def)

lemma except_raise_Inl [simp]:
  "except_raise P e' (Inl e) = (if P e then Inl e' else Inl e)"
  by (simp add: except_raise_def)

lemma except_raise_eq_Inr [res_simps]: "except_raise P e' m = Inr y \<longleftrightarrow> m = Inr y"
  by (cases m) auto

lemma except_raise_eq_Inl [res_simps]:
  "except_raise P e' m = Inl e \<longleftrightarrow> (\<exists>e0. m = Inl e0 \<and> e = (if P e0 then e' else e0))"
  by (cases m) auto

lemma mapE_eq_Inr_length: "mapE f xs = Inr ys \<Longrightarrow> length ys = length xs"
  by (induction xs arbitrary: ys) (auto simp: res_simps)

text \<open>Which exceptions a call can raise; the codec theories use it for the error contract.\<close>

definition raises_only :: "('e \<Rightarrow> bool) \<Rightarrow> 'e + 'a \<Rightarrow> bool" where
  "raises_only P m = (case m of Inl e \<Rightarrow> P e | Inr _ \<Rightarrow> True)"

lemma raises_only_Inr [simp]: "raises_only P (Inr x)"
  by (simp add: raises_only_def)

lemma raises_only_Inl [simp]: "raises_only P (Inl e) = P e"
  by (simp add: raises_only_def)

lemma raises_only_bindE:
  "raises_only P m \<Longrightarrow> (\<And>x. m = Inr x \<Longrightarrow> raises_only P (f x)) \<Longrightarrow> raises_only P (bindE m f)"
  by (cases m) auto

lemma raises_only_except_raise:
  "raises_only Q m \<Longrightarrow> P e' \<Longrightarrow> (\<And>e. Q e \<Longrightarrow> caught e \<or> P e) \<Longrightarrow> raises_only P (except_raise caught e' m)"
  by (cases m) auto

section \<open>The contract of a wire codec\<close>

text \<open>
  What a codec promises its clients about the packets it is meant for (\<open>ok\<close>): whatever
  \<open>serialize\<close> emits, \<open>deserialize\<close> reads back as the same packet.
\<close>

locale codec =
  fixes ser :: "'p \<Rightarrow> 'e + bytes"
    and des :: "bytes \<Rightarrow> 'e + 'p"
    and ok :: "'p \<Rightarrow> bool"
  assumes des_ser: "ok p \<Longrightarrow> ser p = Inr s \<Longrightarrow> des s = Inr p"
begin

lemma ser_inj: "ok p \<Longrightarrow> ok q \<Longrightarrow> ser p = Inr s \<Longrightarrow> ser q = Inr s \<Longrightarrow> p = q"
  using des_ser [of p s] des_ser [of q s] by simp

end

text \<open>A class with a \<open>__len__\<close> also promises that it is the number of bytes emitted.\<close>

locale sized_codec = codec +
  fixes plen :: "'a \<Rightarrow> 'b + int"
  assumes ser_len: "ok p \<Longrightarrow> ser p = Inr s \<Longrightarrow> plen p = Inr (int (length s))"
begin

lemma ser_same_length:
  "ok p \<Longrightarrow> ok q \<Longrightarrow> ser p = Inr s \<Longrightarrow> ser q = Inr t \<Longrightarrow> plen p = plen q \<Longrightarrow> length s = length t"
  using ser_len [of p s] ser_len [of q t] by simp

end

text \<open>
  A transparent codec gives back exactly the bytes it read, which is what a sniffer, a proxy
  or a gateway that forwards without interpreting relies on.
\<close>

locale transparent_codec = codec +
  assumes ser_des: "des s = Inr p \<Longrightarrow> ok p \<and> ser p = Inr s"
begin

lemma des_iff_ser: "des s = Inr p \<longleftrightarrow> ok p \<and> ser p = Inr s"
  using des_ser ser_des by blast

lemma des_inj: "des s = Inr p \<Longrightarrow> des t = Inr p \<Longrightarrow> s = t"
  using ser_des [of s p] ser_des [of t p] by simp

end

end
