(* ===== verification/Errors.thy ===== *)
theory Errors imports Prelude begin

text \<open>
  The exceptions of the program (\<open>src/pyomb/errors.py\<close> and the codes of
  \<open>src/pyomb/defines.py\<close>), with the few exceptions of Python's own that the code catches or
  lets through. An exception is a constructor applied to the arguments its class is built from;
  the prose of a wrapped \<open>struct.error\<close> or \<open>OSError\<close> comes from the interpreter and is not
  modelled, so the packet, network and mode errors carry no message. The \<open>is_\<close> predicates are
  the \<open>except\<close> clauses: class membership along the inheritance tree.
\<close>

section \<open>The header an unparsable PDU leaves behind\<close>

record ModbusHeader =
  trans_id :: int
  prot_id :: int
  hdr_length :: int
  unit_id :: int

section \<open>Exception codes of the specification\<close>

definition OMB_EXCEPTION_ILLEGAL_FUNCTION :: int where
  "OMB_EXCEPTION_ILLEGAL_FUNCTION = 0x01"
definition OMB_EXCEPTION_ILLEGAL_DATA_ADDRESS :: int where
  "OMB_EXCEPTION_ILLEGAL_DATA_ADDRESS = 0x02"
definition OMB_EXCEPTION_ILLEGAL_DATA_VALUE :: int where
  "OMB_EXCEPTION_ILLEGAL_DATA_VALUE = 0x03"
definition OMB_EXCEPTION_SLAVE_DEVICE_FAILURE :: int where
  "OMB_EXCEPTION_SLAVE_DEVICE_FAILURE = 0x04"
definition OMB_EXCEPTION_ACKNOWLEDGE :: int where
  "OMB_EXCEPTION_ACKNOWLEDGE = 0x05"
definition OMB_EXCEPTION_SLAVE_DEVICE_BUSY :: int where
  "OMB_EXCEPTION_SLAVE_DEVICE_BUSY = 0x06"
definition OMB_EXCEPTION_MEMORY_PARITY_ERROR :: int where
  "OMB_EXCEPTION_MEMORY_PARITY_ERROR = 0x08"
definition OMB_EXCEPTION_GATEWAY_PATH_UNAVAILABLE :: int where
  "OMB_EXCEPTION_GATEWAY_PATH_UNAVAILABLE = 0x0A"
definition OMB_EXCEPTION_GATEWAY_TARGET_DEVICE_FAILED_TO_RESPOND :: int where
  "OMB_EXCEPTION_GATEWAY_TARGET_DEVICE_FAILED_TO_RESPOND = 0x0B"

lemmas exception_codes =
  OMB_EXCEPTION_ILLEGAL_FUNCTION_def OMB_EXCEPTION_ILLEGAL_DATA_ADDRESS_def
  OMB_EXCEPTION_ILLEGAL_DATA_VALUE_def OMB_EXCEPTION_SLAVE_DEVICE_FAILURE_def
  OMB_EXCEPTION_ACKNOWLEDGE_def OMB_EXCEPTION_SLAVE_DEVICE_BUSY_def
  OMB_EXCEPTION_MEMORY_PARITY_ERROR_def OMB_EXCEPTION_GATEWAY_PATH_UNAVAILABLE_def
  OMB_EXCEPTION_GATEWAY_TARGET_DEVICE_FAILED_TO_RESPOND_def

section \<open>The exceptions\<close>

datatype py_exc =
    StructError                              \<comment> \<open>\<open>struct.error\<close>\<close>
  | AttributeError
  | KeyError
  | IndexError
  | ImportError
  | RuntimeError
  | NotImplementedError
  | SystemExit
  | ValueError
  | OSError
  | TimeoutError                             \<comment> \<open>a subclass of \<open>OSError\<close>\<close>
  | SSLError                                 \<comment> \<open>\<open>ssl.SSLError\<close>, a subclass of \<open>OSError\<close>\<close>
  | UserException                            \<comment> \<open>whatever a caller's handler raises\<close>
  | ModbusIllegalFunctionError int
  | ModbusIllegalDataAddressError int
  | ModbusIllegalDataValueError
  | ModbusSlaveDeviceFailureError
  | ModbusAcknowledgeError
  | ModbusSlaveDeviceBusyError
  | ModbusMemoryParityError
  | ModbusGatewayPathUnavailableError
  | ModbusGatewayTargetDeviceFailedToRespondError
  | ModbusNetworkError
  | ModbusTimeoutError
  | ModbusPacketError
  | ModbusPduParseError ModbusHeader int     \<comment> \<open>the header and the function code\<close>
  | ModbusModeError

type_synonym 'a pyres = "py_exc + 'a"

fun is_ModbusProtocolError :: "py_exc \<Rightarrow> bool" where
  "is_ModbusProtocolError (ModbusIllegalFunctionError _) = True"
| "is_ModbusProtocolError (ModbusIllegalDataAddressError _) = True"
| "is_ModbusProtocolError ModbusIllegalDataValueError = True"
| "is_ModbusProtocolError ModbusSlaveDeviceFailureError = True"
| "is_ModbusProtocolError ModbusAcknowledgeError = True"
| "is_ModbusProtocolError ModbusSlaveDeviceBusyError = True"
| "is_ModbusProtocolError ModbusMemoryParityError = True"
| "is_ModbusProtocolError ModbusGatewayPathUnavailableError = True"
| "is_ModbusProtocolError ModbusGatewayTargetDeviceFailedToRespondError = True"
| "is_ModbusProtocolError _ = False"

fun is_ModbusNetworkError :: "py_exc \<Rightarrow> bool" where
  "is_ModbusNetworkError ModbusNetworkError = True"
| "is_ModbusNetworkError ModbusTimeoutError = True"
| "is_ModbusNetworkError _ = False"

fun is_ModbusPacketError :: "py_exc \<Rightarrow> bool" where
  "is_ModbusPacketError ModbusPacketError = True"
| "is_ModbusPacketError (ModbusPduParseError _ _) = True"
| "is_ModbusPacketError _ = False"

definition is_ModbusBaseError :: "py_exc \<Rightarrow> bool" where
  "is_ModbusBaseError e =
     (is_ModbusProtocolError e \<or> is_ModbusNetworkError e \<or> is_ModbusPacketError e \<or> e = ModbusModeError)"

definition is_StructError :: "py_exc \<Rightarrow> bool" where
  "is_StructError e = (e = StructError)"

definition is_OSError :: "py_exc \<Rightarrow> bool" where
  "is_OSError e = (e = OSError \<or> e = TimeoutError \<or> e = SSLError)"

lemma is_StructError_simps [simp]:
  "is_StructError StructError" "\<not> is_StructError ModbusPacketError"
  by (simp_all add: is_StructError_def)

section \<open>The exception code a protocol error reports\<close>

text \<open>The \<open>error_code\<close> each subclass of \<open>ModbusProtocolError\<close> hands to its base class.\<close>

fun error_code :: "py_exc \<Rightarrow> int option" where
  "error_code (ModbusIllegalFunctionError _) = Some OMB_EXCEPTION_ILLEGAL_FUNCTION"
| "error_code (ModbusIllegalDataAddressError _) = Some OMB_EXCEPTION_ILLEGAL_DATA_ADDRESS"
| "error_code ModbusIllegalDataValueError = Some OMB_EXCEPTION_ILLEGAL_DATA_VALUE"
| "error_code ModbusSlaveDeviceFailureError = Some OMB_EXCEPTION_SLAVE_DEVICE_FAILURE"
| "error_code ModbusAcknowledgeError = Some OMB_EXCEPTION_ACKNOWLEDGE"
| "error_code ModbusSlaveDeviceBusyError = Some OMB_EXCEPTION_SLAVE_DEVICE_BUSY"
| "error_code ModbusMemoryParityError = Some OMB_EXCEPTION_MEMORY_PARITY_ERROR"
| "error_code ModbusGatewayPathUnavailableError = Some OMB_EXCEPTION_GATEWAY_PATH_UNAVAILABLE"
| "error_code ModbusGatewayTargetDeviceFailedToRespondError =
     Some OMB_EXCEPTION_GATEWAY_TARGET_DEVICE_FAILED_TO_RESPOND"
| "error_code _ = None"

lemma error_code_iff: "(\<exists>c. error_code e = Some c) \<longleftrightarrow> is_ModbusProtocolError e"
  by (cases e) auto

lemma is_ModbusBaseError_intros [intro]:
  "is_ModbusProtocolError e \<Longrightarrow> is_ModbusBaseError e"
  "is_ModbusNetworkError e \<Longrightarrow> is_ModbusBaseError e"
  "is_ModbusPacketError e \<Longrightarrow> is_ModbusBaseError e"
  by (auto simp: is_ModbusBaseError_def)

end
