(* ===== verification/Py_Struct.thy ===== *)
theory Py_Struct imports Errors begin

text \<open>
  The part of Python's \<open>struct\<close> module the program uses: the standard-size codes \<open>B\<close> and
  \<open>H\<close> in either byte order, a format made of a fixed head and at most one trailing repeat
  count (\<open>">BB{0}B".format(n)\<close>), and \<open>calcsize\<close>, \<open>pack\<close> and \<open>unpack\<close>. Every refusal
  is \<open>struct.error\<close>: a negative repeat count (the minus sign is no format character), a size
  beyond \<open>PY_SSIZE_T_MAX\<close>, the wrong number of values, a value outside its code's range, a
  buffer of the wrong length.
\<close>

section \<open>Formats\<close>

datatype endian = Big | Little

datatype code = UByte | UShort

text \<open>
  A format string with an optional \<open>{0}\<close> ahead of its last code, and what \<open>.format\<close> makes
  of it. \<open>BadFmt\<close> is a string \<open>struct\<close> refuses to parse.
\<close>

datatype pdu_format = PduFormat endian "code list" "code option"

datatype struct_fmt = StructFmt endian "code list" "(nat \<times> code) option" | BadFmt

fun fmt_format :: "pdu_format \<Rightarrow> int \<Rightarrow> struct_fmt" where
  "fmt_format (PduFormat e cs None) n = StructFmt e cs None"
| "fmt_format (PduFormat e cs (Some c)) n =
     (if n < 0 then BadFmt else StructFmt e cs (Some (nat n, c)))"

text \<open>The format string passed as it is: a remaining \<open>{0}\<close> does not parse.\<close>

fun fmt_raw :: "pdu_format \<Rightarrow> struct_fmt" where
  "fmt_raw (PduFormat e cs None) = StructFmt e cs None"
| "fmt_raw (PduFormat e cs (Some c)) = BadFmt"

text \<open>\<open>"{0}" in fmt\<close> and \<open>fmt.split("{0}")[0]\<close>.\<close>

fun fmt_has_repeat :: "pdu_format \<Rightarrow> bool" where
  "fmt_has_repeat (PduFormat e cs t) = (t \<noteq> None)"

fun fmt_head :: "pdu_format \<Rightarrow> struct_fmt" where
  "fmt_head (PduFormat e cs t) = StructFmt e cs None"

section \<open>Sizes\<close>

definition PY_SSIZE_T_MAX :: int where
  "PY_SSIZE_T_MAX = 9223372036854775807"

fun code_size :: "code \<Rightarrow> nat" where
  "code_size UByte = 1"
| "code_size UShort = 2"

definition codes_size :: "code list \<Rightarrow> nat" where
  "codes_size cs = sum_list (map code_size cs)"

fun fmt_size :: "code list \<Rightarrow> (nat \<times> code) option \<Rightarrow> nat" where
  "fmt_size cs None = codes_size cs"
| "fmt_size cs (Some (n, c)) = codes_size cs + n * code_size c"

fun struct_calcsize :: "struct_fmt \<Rightarrow> int pyres" where
  "struct_calcsize BadFmt = Inl StructError"
| "struct_calcsize (StructFmt e cs t) =
     (if int (fmt_size cs t) > PY_SSIZE_T_MAX then Inl StructError else Inr (int (fmt_size cs t)))"

fun fmt_codes :: "code list \<Rightarrow> (nat \<times> code) option \<Rightarrow> code list" where
  "fmt_codes cs None = cs"
| "fmt_codes cs (Some (n, c)) = cs @ replicate n c"

section \<open>Packing and unpacking\<close>

definition code_max :: "code \<Rightarrow> int" where
  "code_max c = (case c of UByte \<Rightarrow> 0xFF | UShort \<Rightarrow> 0xFFFF)"

fun code_bytes :: "endian \<Rightarrow> code \<Rightarrow> int \<Rightarrow> bytes" where
  "code_bytes e UByte v = [word_of_int v]"
| "code_bytes Big UShort v = [word_of_int (v div 256), word_of_int (v mod 256)]"
| "code_bytes Little UShort v = [word_of_int (v mod 256), word_of_int (v div 256)]"

definition pack_code :: "endian \<Rightarrow> code \<Rightarrow> int \<Rightarrow> bytes pyres" where
  "pack_code e c v = (if 0 \<le> v \<and> v \<le> code_max c then Inr (code_bytes e c v) else Inl StructError)"

fun pack_codes :: "endian \<Rightarrow> code list \<Rightarrow> int list \<Rightarrow> bytes pyres" where
  "pack_codes e [] [] = Inr []"
| "pack_codes e (c # cs) (v # vs) =
     bindE (pack_code e c v) (\<lambda>b. bindE (pack_codes e cs vs) (\<lambda>bs. Inr (b @ bs)))"
| "pack_codes e [] (v # vs) = Inl StructError"
| "pack_codes e (c # cs) [] = Inl StructError"

fun struct_pack :: "struct_fmt \<Rightarrow> int list \<Rightarrow> bytes pyres" where
  "struct_pack BadFmt vs = Inl StructError"
| "struct_pack (StructFmt e cs t) vs =
     bindE (struct_calcsize (StructFmt e cs t)) (\<lambda>_. pack_codes e (fmt_codes cs t) vs)"

text \<open>One value read off its bytes, most significant first for \<open>>\<close> and last for \<open><\<close>.\<close>

fun bytes_value :: "endian \<Rightarrow> bytes \<Rightarrow> int" where
  "bytes_value Big bs = foldl (\<lambda>n b. 256 * n + uint b) 0 bs"
| "bytes_value Little bs = foldr (\<lambda>b n. 256 * n + uint b) bs 0"

fun unpack_codes :: "endian \<Rightarrow> code list \<Rightarrow> bytes \<Rightarrow> int list" where
  "unpack_codes e [] bs = []"
| "unpack_codes e (c # cs) bs =
     bytes_value e (take (code_size c) bs) # unpack_codes e cs (drop (code_size c) bs)"

fun struct_unpack :: "struct_fmt \<Rightarrow> bytes \<Rightarrow> int list pyres" where
  "struct_unpack BadFmt bs = Inl StructError"
| "struct_unpack (StructFmt e cs t) bs =
     bindE (struct_calcsize (StructFmt e cs t)) (\<lambda>n.
       if int (length bs) \<noteq> n then Inl StructError else Inr (unpack_codes e (fmt_codes cs t) bs))"

section \<open>Facts the packet theories share\<close>

lemma codes_size_simps [simp]:
  "codes_size [] = 0"
  "codes_size (c # cs) = code_size c + codes_size cs"
  "codes_size (cs @ ds) = codes_size cs + codes_size ds"
  "codes_size (replicate n c) = n * code_size c"
  by (simp_all add: codes_size_def sum_list_replicate)

lemma codes_size_fmt_codes [simp]: "codes_size (fmt_codes cs t) = fmt_size cs t"
  by (cases "(cs, t)" rule: fmt_codes.cases) simp_all

lemma length_code_bytes [simp]: "length (code_bytes e c v) = code_size c"
  by (cases "(e, c, v)" rule: code_bytes.cases) simp_all

lemma length_unpack_codes [simp]: "length (unpack_codes e cs bs) = length cs"
  by (induction cs arbitrary: bs) auto

lemma uint_word_of_int_byte: "0 \<le> v \<Longrightarrow> v < 256 \<Longrightarrow> uint (word_of_int v :: byte) = v"
  by (simp add: uint_word_of_int)

lemma bytes_value_code_bytes:
  "0 \<le> v \<Longrightarrow> v \<le> code_max c \<Longrightarrow> bytes_value e (code_bytes e c v) = v"
  by (cases e; cases c) (auto simp: code_max_def uint_word_of_int_byte)

lemma uint_byte_bounds: "0 \<le> uint (b :: byte)" "uint (b :: byte) < 256"
  using uint_bounded [of b] by simp_all

lemma uint_byte_div_mod [simp]: "uint (b :: byte) div 256 = 0" "uint (b :: byte) mod 256 = uint b"
  using uint_byte_bounds [of b] by simp_all

lemma code_size_cases:
  "length bs = code_size c \<Longrightarrow>
     (c = UByte \<and> (\<exists>a. bs = [a])) \<or> (c = UShort \<and> (\<exists>a b. bs = [a, b]))"
  by (cases c) (auto simp: length_Suc_conv numeral_2_eq_2)

lemma code_bytes_bytes_value:
  "length bs = code_size c \<Longrightarrow> code_bytes e c (bytes_value e bs) = bs"
  by (drule code_size_cases, cases e) auto

lemma bytes_value_bounds:
  assumes "length bs = code_size c"
  shows "0 \<le> bytes_value e bs \<and> bytes_value e bs \<le> code_max c"
proof -
  have b: "uint (x :: byte) \<le> 255" for x
    using uint_byte_bounds(2) [of x] by linarith
  show ?thesis
    using code_size_cases [OF assms] b uint_byte_bounds(1)
    by (cases e) (auto simp: code_max_def intro!: add_mono order_trans [OF add_mono [OF mult_left_mono [OF b] b]])
qed

text \<open>\<open>pack\<close> accepts exactly one in-range value per code.\<close>

definition fits :: "code \<Rightarrow> int \<Rightarrow> bool" where
  "fits c v = (0 \<le> v \<and> v \<le> code_max c)"

lemma pack_codes_Inr_iff:
  "(\<exists>s. pack_codes e cs vs = Inr s) \<longleftrightarrow> list_all2 fits cs vs"
  by (induction e cs vs rule: pack_codes.induct)
    (auto simp: pack_code_def fits_def res_simps split: if_splits)

lemma pack_codes_error: "pack_codes e cs vs = Inl x \<Longrightarrow> x = StructError"
  by (induction e cs vs arbitrary: x rule: pack_codes.induct)
    (auto simp: pack_code_def res_simps split: if_splits)

lemma pack_codes_length: "pack_codes e cs vs = Inr s \<Longrightarrow> length s = codes_size cs"
  by (induction e cs vs arbitrary: s rule: pack_codes.induct)
    (auto simp: pack_code_def res_simps split: if_splits)

lemma unpack_pack_codes: "pack_codes e cs vs = Inr s \<Longrightarrow> unpack_codes e cs s = vs"
  by (induction e cs vs arbitrary: s rule: pack_codes.induct)
    (auto simp: pack_code_def res_simps bytes_value_code_bytes split: if_splits)

lemma pack_unpack_codes:
  "length bs = codes_size cs \<Longrightarrow> pack_codes e cs (unpack_codes e cs bs) = Inr bs"
proof (induction cs arbitrary: bs)
  case Nil
  then show ?case by simp
next
  case (Cons c cs)
  have len: "length (take (code_size c) bs) = code_size c"
    using Cons.prems by simp
  have "length (drop (code_size c) bs) = codes_size cs"
    using Cons.prems by simp
  then have "pack_codes e cs (unpack_codes e cs (drop (code_size c) bs)) = Inr (drop (code_size c) bs)"
    by (rule Cons.IH)
  then show ?case
    using bytes_value_bounds [OF len, of e] code_bytes_bytes_value [OF len, of e]
    by (simp add: pack_code_def)
qed

lemma unpack_codes_fits:
  "length bs = codes_size cs \<Longrightarrow> list_all2 fits cs (unpack_codes e cs bs)"
  using pack_unpack_codes [of bs cs e] pack_codes_Inr_iff [of e cs] by blast

lemma unpack_codes_append:
  "unpack_codes e (cs @ ds) bs = unpack_codes e cs bs @ unpack_codes e ds (drop (codes_size cs) bs)"
  by (induction cs arbitrary: bs) (simp_all add: add.commute)

section \<open>The two directions of \<open>struct\<close>\<close>

lemma struct_unpack_pack: "struct_pack f vs = Inr s \<Longrightarrow> struct_unpack f s = Inr vs"
  by (cases f) (auto simp: res_simps unpack_pack_codes pack_codes_length split: if_splits)

lemma struct_pack_unpack: "struct_unpack f s = Inr vs \<Longrightarrow> struct_pack f vs = Inr s"
  by (cases f) (auto simp: res_simps pack_unpack_codes split: if_splits)

lemma struct_pack_length: "struct_pack f vs = Inr s \<Longrightarrow> struct_calcsize f = Inr (int (length s))"
  by (cases f) (auto simp: res_simps pack_codes_length split: if_splits)

lemma struct_unpack_length: "struct_unpack f s = Inr vs \<Longrightarrow> struct_calcsize f = Inr (int (length s))"
  using struct_pack_unpack struct_pack_length by blast

lemma struct_calcsize_error: "struct_calcsize f = Inl e \<Longrightarrow> e = StructError"
  by (cases f) (auto split: if_splits)

lemma struct_pack_error: "struct_pack f vs = Inl e \<Longrightarrow> e = StructError"
  by (cases f) (auto simp: res_simps pack_codes_error split: if_splits)

lemma struct_unpack_error: "struct_unpack f s = Inl e \<Longrightarrow> e = StructError"
  by (cases f) (auto simp: res_simps split: if_splits)

text \<open>
  The shape of what is packed and unpacked, for a format with a fixed head and one with a
  repeated tail. In both the first code is the function code.
\<close>

lemma bytes_value_first: "bs \<noteq> [] \<Longrightarrow> bytes_value e (take (Suc 0) bs) = uint (hd bs)"
  by (cases bs; cases e) simp_all

lemma struct_unpack_fixed:
  assumes "struct_unpack (fmt_raw (PduFormat e (UByte # cs) None)) s = Inr vs"
  shows "struct_pack (fmt_raw (PduFormat e (UByte # cs) None)) vs = Inr s"
    and "length vs = Suc (length cs)" and "hd vs = uint (hd s)" and "length s = Suc (codes_size cs)"
proof -
  show "struct_pack (fmt_raw (PduFormat e (UByte # cs) None)) vs = Inr s"
    by (rule struct_pack_unpack [OF assms])
  show len: "length s = Suc (codes_size cs)"
    using assms by (auto simp: res_simps split: if_splits)
  then have "s \<noteq> []" by auto
  with assms show "length vs = Suc (length cs)" "hd vs = uint (hd s)"
    by (auto simp: res_simps bytes_value_first split: if_splits)
qed

lemma struct_pack_repeat:
  assumes "struct_pack (fmt_format (PduFormat e cs (Some c)) n) vs = Inr s"
  shows "struct_unpack (fmt_format (PduFormat e cs (Some c)) n) s = Inr vs"
    and "0 \<le> n" and "int (length s) = int (codes_size cs) + n * int (code_size c)"
    and "int (length vs) = int (length cs) + n"
proof -
  show "struct_unpack (fmt_format (PduFormat e cs (Some c)) n) s = Inr vs"
    by (rule struct_unpack_pack [OF assms])
  then show "int (length vs) = int (length cs) + n"
    by (auto simp: res_simps split: if_splits)
  show "0 \<le> n" "int (length s) = int (codes_size cs) + n * int (code_size c)"
    using assms by (auto simp: res_simps pack_codes_length split: if_splits)
qed

lemma struct_unpack_repeat:
  assumes "struct_unpack (fmt_format (PduFormat e (UByte # cs) (Some c)) n) s = Inr vs"
  shows "struct_pack (fmt_format (PduFormat e (UByte # cs) (Some c)) n) vs = Inr s"
    and "0 \<le> n" and "int (length vs) = 1 + int (length cs) + n" and "hd vs = uint (hd s)"
    and "int (length s) = 1 + int (codes_size cs) + n * int (code_size c)"
proof -
  show p: "struct_pack (fmt_format (PduFormat e (UByte # cs) (Some c)) n) vs = Inr s"
    by (rule struct_pack_unpack [OF assms])
  show n: "0 \<le> n" and "int (length vs) = 1 + int (length cs) + n"
    and len: "int (length s) = 1 + int (codes_size cs) + n * int (code_size c)"
    using struct_pack_repeat [OF p] by simp_all
  have "0 \<le> n * int (code_size c)" using n by simp
  with len have "0 < length s" by linarith
  then have "s \<noteq> []" by simp
  with assms show "hd vs = uint (hd s)"
    by (auto simp: res_simps bytes_value_first split: if_splits)
qed

lemma struct_pack_hd:
  assumes "struct_pack (StructFmt e (UByte # cs) t) (v # vs) = Inr s"
  shows "s \<noteq> [] \<and> uint (hd s) = v"
  using assms
  by (cases "(UByte # cs, t)" rule: fmt_codes.cases)
    (auto simp: res_simps pack_code_def code_max_def uint_word_of_int_byte split: if_splits)

declare struct_pack.simps [simp del] struct_unpack.simps [simp del]
declare fmt_format.simps [simp del] fmt_raw.simps [simp del]

text \<open>The same facts in the form the packet proofs chain on.\<close>

lemma pack_raw_hd:
  "struct_pack (fmt_raw (PduFormat e (UByte # cs) None)) (v # vs) = Inr s \<Longrightarrow> s \<noteq> [] \<and> uint (hd s) = v"
  by (auto simp: fmt_raw.simps dest: struct_pack_hd)

lemma pack_format_hd:
  "struct_pack (fmt_format (PduFormat e (UByte # cs) (Some c)) n) (v # vs) = Inr s \<Longrightarrow>
     s \<noteq> [] \<and> uint (hd s) = v"
  by (auto simp: fmt_format.simps struct_pack.simps(1) dest: struct_pack_hd split: if_splits)

lemma unpack_repeat_bytes:
  assumes "struct_pack (fmt_format (PduFormat e cs (Some UByte)) n) vs = Inr s"
  shows "struct_unpack (fmt_format (PduFormat e cs (Some UByte)) (int (length s) - int (codes_size cs))) s = Inr vs"
  using struct_pack_repeat [OF assms] by simp

lemma unpack_repeat_shorts:
  assumes "struct_pack (fmt_format (PduFormat e cs (Some UShort)) n) vs = Inr s"
  shows "struct_unpack (fmt_format (PduFormat e cs (Some UShort)) ((int (length s) - int (codes_size cs)) div 2)) s = Inr vs"
  using struct_pack_repeat [OF assms] by simp

lemma unpack_fixed_shape:
  assumes "struct_unpack (fmt_raw (PduFormat e (UByte # cs) None)) s = Inr vs"
  shows "\<exists>xs. vs = uint (hd s) # xs \<and> length xs = length cs \<and>
     struct_pack (fmt_raw (PduFormat e (UByte # cs) None)) (uint (hd s) # xs) = Inr s"
  using struct_unpack_fixed [OF assms] by (cases vs) auto

lemma unpack_repeat_shape:
  assumes "struct_unpack (fmt_format (PduFormat e (UByte # cs) (Some c)) n) s = Inr vs"
  shows "\<exists>xs ts. vs = uint (hd s) # xs @ ts \<and> length xs = length cs \<and> n = int (length ts) \<and>
     struct_pack (fmt_format (PduFormat e (UByte # cs) (Some c)) (int (length ts))) (uint (hd s) # xs @ ts) = Inr s"
proof -
  note facts = struct_unpack_repeat [OF assms]
  obtain v ws where vs: "vs = v # ws" using facts(2,3) by (cases vs) auto
  define xs ts where "xs = take (length cs) ws" and "ts = drop (length cs) ws"
  have "vs = uint (hd s) # xs @ ts" "length xs = length cs" "n = int (length ts)"
    using facts(2-4) vs by (auto simp: xs_def ts_def)
  with facts(1) show ?thesis by blast
qed

text \<open>What \<open>pack\<close> accepts: one value in range for each code, and no more bytes than a size can hold.\<close>

lemma pack_raw_Inr_iff:
  "(\<exists>s. struct_pack (fmt_raw (PduFormat e cs None)) vs = Inr s) \<longleftrightarrow>
     int (codes_size cs) \<le> PY_SSIZE_T_MAX \<and> list_all2 fits cs vs"
  using pack_codes_Inr_iff [of e cs vs] by (auto simp: fmt_raw.simps struct_pack.simps res_simps)

lemma pack_format_Inr_iff:
  "(\<exists>s. struct_pack (fmt_format (PduFormat e cs (Some c)) n) vs = Inr s) \<longleftrightarrow>
     0 \<le> n \<and> int (codes_size cs) + n * int (code_size c) \<le> PY_SSIZE_T_MAX \<and>
     list_all2 fits (cs @ replicate (nat n) c) vs"
  using pack_codes_Inr_iff [of e "cs @ replicate (nat n) c" vs]
  by (auto simp: fmt_format.simps struct_pack.simps res_simps split: if_splits)

lemma list_all2_replicate: "list_all2 P (replicate n x) ys \<longleftrightarrow> length ys = n \<and> (\<forall>y\<in>set ys. P x y)"
  by (auto simp: list_all2_conv_all_nth all_set_conv_all_nth)

end
