(* ===== verification/Pdu_Common.thy ===== *)
theory Pdu_Common imports Py_Struct "HOL-Library.AList" "HOL-Library.Char_ord" "HOL-Library.List_Lexorder" begin

text \<open>
  \<open>src/pyomb/pdu/common.py\<close> but for the parser: a finding and how it is worded, the abstract
  packet base (limits, fixed counts, findings of parts, \<open>validate\<close>), the PDU base class, and
  the two concrete classes the module itself defines, \<open>ModbusPdu\<close> and \<open>ModbusError\<close>.

  A class is a record of its class attributes. An instance is seen by the base class through
  \<open>pdu_self\<close>: its class, its function code and its attribute dictionary, split by the kind of
  value (integers and sequences). Reading an attribute the dictionary lacks is
  \<open>AttributeError\<close>. Each concrete class is a datatype constructor whose arguments are those of
  its \<open>__init__\<close>, and a \<open>_self\<close> function that builds the dictionary \<open>__init__\<close> leaves behind.
\<close>

section \<open>Number formatting\<close>

function nat_digits :: "nat \<Rightarrow> nat \<Rightarrow> nat list" where
  "nat_digits b n = (if b < 2 \<or> n < b then [n] else nat_digits b (n div b) @ [n mod b])"
  by pat_completeness auto
termination
  by (relation "measure snd") auto

declare nat_digits.simps [simp del]

definition digit_char :: "nat \<Rightarrow> char" where
  "digit_char d = (if d < 10 then char_of (48 + d) else char_of (55 + d))"

definition nat_string :: "nat \<Rightarrow> nat \<Rightarrow> string" where
  "nat_string b n = map digit_char (nat_digits b n)"

definition pad_zero :: "nat \<Rightarrow> string \<Rightarrow> string" where
  "pad_zero w s = replicate (w - length s) (CHR ''0'') @ s"

text \<open>\<open>f"{n}"\<close> and \<open>f"{n:04X}"\<close>.\<close>

definition dec_string :: "int \<Rightarrow> string" where
  "dec_string n = (if n < 0 then CHR ''-'' # nat_string 10 (nat (- n)) else nat_string 10 (nat n))"

definition hex04 :: "int \<Rightarrow> string" where
  "hex04 n = (if n < 0 then CHR ''-'' # pad_zero 3 (nat_string 16 (nat (- n)))
              else pad_zero 4 (nat_string 16 (nat n)))"

section \<open>Findings\<close>

record ModbusViolation =
  vio_source :: string
  vio_field :: string
  vio_rule :: string
  vio_value :: int

definition ModbusViolation_str :: "ModbusViolation \<Rightarrow> string" where
  "ModbusViolation_str v =
     vio_source v @ ''.'' @ vio_field v @ '' is '' @ dec_string (vio_value v) @
     ''; the specification requires '' @ vio_rule v"

section \<open>The abstract packet\<close>

record packet_class =
  cls_name :: string
  LIMITS :: "(string \<times> int \<times> int) list"

type_synonym getattr = "string \<Rightarrow> int pyres"

definition packet_finding :: "string \<Rightarrow> getattr \<Rightarrow> string \<Rightarrow> string \<Rightarrow> ModbusViolation pyres" where
  "packet_finding source attr field rule =
     bindE (attr field) (\<lambda>value.
       Inr \<lparr>vio_source = source, vio_field = field, vio_rule = rule, vio_value = value\<rparr>)"

definition packet_fixed_count ::
  "string \<Rightarrow> getattr \<Rightarrow> string \<Rightarrow> int \<Rightarrow> string \<Rightarrow> ModbusViolation list pyres" where
  "packet_fixed_count source attr field expected rule =
     bindE (attr field) (\<lambda>value.
       if value = expected then Inr []
       else bindE (packet_finding source attr field (rule @ '', which is '' @ dec_string expected))
              (\<lambda>f. Inr [f]))"

definition limit_rule :: "int \<Rightarrow> int \<Rightarrow> string" where
  "limit_rule low high =
     ''0x'' @ hex04 low @ (if low \<noteq> high then '' to 0x'' @ hex04 high else [])"

definition limit_finding ::
  "string \<Rightarrow> getattr \<Rightarrow> string \<times> int \<times> int \<Rightarrow> ModbusViolation list pyres" where
  "limit_finding source attr limit = (case limit of (field, low, high) \<Rightarrow>
     bindE (attr field) (\<lambda>value.
       if low \<le> value \<and> value \<le> high then Inr []
       else bindE (packet_finding source attr field (limit_rule low high)) (\<lambda>f. Inr [f])))"

text \<open>
  \<open>violations()\<close>: the limits in the order of the sorted field names, then what each part
  reports. \<open>parts\<close> are the parts' own \<open>violations()\<close>, in the order of \<open>PARTS\<close>.
\<close>

definition packet_violations ::
  "'c packet_class_scheme \<Rightarrow> getattr \<Rightarrow> ModbusViolation list pyres list \<Rightarrow> ModbusViolation list pyres" where
  "packet_violations cls attr parts =
     bindE (mapE (limit_finding (cls_name cls) attr) (sort_key fst (LIMITS cls))) (\<lambda>own.
     bindE (mapE (\<lambda>p. p) parts) (\<lambda>sub. Inr (concat own @ concat sub)))"

definition packet_validate :: "ModbusViolation list pyres \<Rightarrow> unit pyres" where
  "packet_validate found =
     bindE found (\<lambda>vs. if vs \<noteq> [] then Inl ModbusPacketError else Inr ())"

text \<open>No finding is made exactly when every field is within its limits and no part has one.\<close>

lemma mapE_findings:
  "(\<exists>xss. mapE f xs = Inr xss \<and> concat xss = []) \<longleftrightarrow> (\<forall>x\<in>set xs. f x = Inr [])"
proof (induction xs)
  case (Cons x xs)
  have "(\<exists>xss. mapE f (x # xs) = Inr xss \<and> concat xss = []) \<longleftrightarrow>
      f x = Inr [] \<and> (\<exists>xss. mapE f xs = Inr xss \<and> concat xss = [])"
    by (cases "f x"; cases "mapE f xs") auto
  then show ?case using Cons by simp
qed simp

lemma limit_finding_none:
  "limit_finding source attr (field, low, high) = Inr [] \<longleftrightarrow> (\<exists>v. attr field = Inr v \<and> low \<le> v \<and> v \<le> high)"
  by (auto simp: limit_finding_def packet_finding_def res_simps split: if_splits)

lemma packet_violations_none:
  "packet_violations cls attr parts = Inr [] \<longleftrightarrow>
     (\<forall>(field, low, high)\<in>set (LIMITS cls). \<exists>v. attr field = Inr v \<and> low \<le> v \<and> v \<le> high) \<and>
     (\<forall>p\<in>set parts. p = Inr [])"
proof -
  have "packet_violations cls attr parts = Inr [] \<longleftrightarrow>
      (\<exists>own. mapE (limit_finding (cls_name cls) attr) (sort_key fst (LIMITS cls)) = Inr own \<and> concat own = []) \<and>
      (\<exists>sub. mapE (\<lambda>p. p) parts = Inr sub \<and> concat sub = [])"
    by (auto simp: packet_violations_def res_simps)
  also have "\<dots> \<longleftrightarrow> (\<forall>l\<in>set (LIMITS cls). limit_finding (cls_name cls) attr l = Inr []) \<and> (\<forall>p\<in>set parts. p = Inr [])"
    by (simp only: mapE_findings set_sort)
  also have "(\<forall>l\<in>set (LIMITS cls). limit_finding (cls_name cls) attr l = Inr []) \<longleftrightarrow>
      (\<forall>(field, low, high)\<in>set (LIMITS cls). \<exists>v. attr field = Inr v \<and> low \<le> v \<and> v \<le> high)"
    by (intro ball_cong) (simp_all add: limit_finding_none split: prod.split)
  finally show ?thesis .
qed

section \<open>The PDU base class\<close>

record pdu_class = packet_class +
  PDU_FORMAT :: pdu_format
  PDU_ID :: int
  PDU_FIELDS :: "string list option"
  PDU_TAIL :: "string option"
  PDU_COUNT :: "string option"

record pdu_self =
  self_class :: pdu_class
  self_fc :: int
  self_ints :: "(string \<times> int) list"
  self_seqs :: "(string \<times> int list) list"

definition int_attr :: "pdu_self \<Rightarrow> getattr" where
  "int_attr self name = (case map_of (self_ints self) name of
     Some v \<Rightarrow> Inr v | None \<Rightarrow> Inl AttributeError)"

definition seq_attr :: "pdu_self \<Rightarrow> string \<Rightarrow> int list pyres" where
  "seq_attr self name = (case map_of (self_seqs self) name of
     Some v \<Rightarrow> Inr v | None \<Rightarrow> Inl AttributeError)"

definition pdu_field_names :: "pdu_class \<Rightarrow> string list" where
  "pdu_field_names cls =
     (case PDU_FIELDS cls of None \<Rightarrow> [] | Some names \<Rightarrow> names) @
     (case PDU_TAIL cls of None \<Rightarrow> [] | Some t \<Rightarrow> [t])"

text \<open>The payload: derived from the named fields on every read, stored only where none are.\<close>

definition pdu_data :: "pdu_self \<Rightarrow> int list pyres" where
  "pdu_data self = (case PDU_FIELDS (self_class self) of
     None \<Rightarrow> seq_attr self ''_data''
   | Some names \<Rightarrow> bindE (mapE (int_attr self) names) (\<lambda>values.
       case PDU_TAIL (self_class self) of
         None \<Rightarrow> Inr values
       | Some t \<Rightarrow> bindE (seq_attr self t) (\<lambda>tail. Inr (values @ tail))))"

text \<open>The setter: a payload given as bytes is held as the tuple of its byte values.\<close>

datatype payload = Tuple "int list" | Bytes bytes

fun payload_values :: "payload \<Rightarrow> int list" where
  "payload_values (Tuple vs) = vs"
| "payload_values (Bytes bs) = map uint bs"

definition pdu_set_data :: "pdu_self \<Rightarrow> payload \<Rightarrow> pdu_self pyres" where
  "pdu_set_data self value =
     (if PDU_FIELDS (self_class self) \<noteq> None then Inl ModbusPacketError
      else Inr (self\<lparr>self_seqs := AList.update ''_data'' (payload_values value) (self_seqs self)\<rparr>))"

definition pdu_len :: "pdu_self \<Rightarrow> int pyres" where
  "pdu_len self = bindE (pdu_data self) (\<lambda>d.
     struct_calcsize (fmt_format (PDU_FORMAT (self_class self)) (int (length d))))"

definition pdu_expected_size :: "pdu_class \<Rightarrow> bytes \<Rightarrow> int option pyres" where
  "pdu_expected_size cls prefix =
     (if \<not> fmt_has_repeat (PDU_FORMAT cls) then
        bindE (struct_calcsize (fmt_raw (PDU_FORMAT cls))) (\<lambda>n. Inr (Some n))
      else if PDU_COUNT cls = None then Inl ModbusPacketError
      else bindE (struct_calcsize (fmt_head (PDU_FORMAT cls))) (\<lambda>head.
        if int (length prefix) < head then Inr None
        else Inr (Some (head + uint (prefix ! nat (head - 1))))))"

definition pdu_is_request :: "pdu_class \<Rightarrow> bool" where
  "pdu_is_request cls = (PDU_ID cls < 0x8000)"

definition pdu_pack :: "pdu_self \<Rightarrow> struct_fmt \<Rightarrow> bytes pyres" where
  "pdu_pack self fmt = except_raise is_StructError ModbusPacketError
     (bindE (pdu_data self) (\<lambda>d. struct_pack fmt (self_fc self # d)))"

definition pdu_violations :: "pdu_self \<Rightarrow> ModbusViolation list pyres" where
  "pdu_violations self = packet_violations (self_class self) (int_attr self) []"

definition pdu_finding :: "pdu_self \<Rightarrow> string \<Rightarrow> string \<Rightarrow> ModbusViolation pyres" where
  "pdu_finding self = packet_finding (cls_name (self_class self)) (int_attr self)"

definition pdu_fixed_count :: "pdu_self \<Rightarrow> string \<Rightarrow> int \<Rightarrow> string \<Rightarrow> ModbusViolation list pyres" where
  "pdu_fixed_count self = packet_fixed_count (cls_name (self_class self)) (int_attr self)"

text \<open>\<open>__eq__\<close> compares the attribute dictionaries and nothing else, the class included.\<close>

definition pdu_eq :: "pdu_self \<Rightarrow> pdu_self \<Rightarrow> bool" where
  "pdu_eq p q = (self_fc p = self_fc q \<and> set (self_ints p) = set (self_ints q) \<and>
                 set (self_seqs p) = set (self_seqs q))"

section \<open>\<open>ModbusPdu\<close> and \<open>ModbusError\<close>\<close>

datatype common_pdu =
    ModbusPdu int "int list"
  | ModbusError int int

definition ModbusPdu_cls :: pdu_class where
  "ModbusPdu_cls = \<lparr>cls_name = ''ModbusPdu'', LIMITS = [],
     PDU_FORMAT = PduFormat Big [UByte] (Some UByte), PDU_ID = 0x0000,
     PDU_FIELDS = None, PDU_TAIL = None, PDU_COUNT = None\<rparr>"

definition ModbusPdu_self :: "int \<Rightarrow> int list \<Rightarrow> pdu_self" where
  "ModbusPdu_self fc data = \<lparr>self_class = ModbusPdu_cls, self_fc = fc, self_ints = [],
     self_seqs = [(''_data'', data)]\<rparr>"

definition ModbusPdu_unpack :: "bytes \<Rightarrow> struct_fmt \<Rightarrow> common_pdu pyres" where
  "ModbusPdu_unpack stream fmt = except_raise is_StructError ModbusPacketError
     (bindE (struct_unpack fmt stream) (\<lambda>pdu.
        case pdu of [] \<Rightarrow> Inl IndexError | fc # data \<Rightarrow> Inr (ModbusPdu fc data)))"

definition ModbusPdu_serialize :: "int \<Rightarrow> int list \<Rightarrow> bytes pyres" where
  "ModbusPdu_serialize fc data = (let self = ModbusPdu_self fc data in
     bindE (pdu_data self) (\<lambda>d.
       pdu_pack self (fmt_format (PDU_FORMAT ModbusPdu_cls) (int (length d)))))"

definition ModbusPdu_deserialize :: "bytes \<Rightarrow> common_pdu pyres" where
  "ModbusPdu_deserialize stream =
     ModbusPdu_unpack stream (fmt_format (PDU_FORMAT ModbusPdu_cls) (int (length stream) - 1))"

definition ModbusError_cls :: pdu_class where
  "ModbusError_cls = \<lparr>cls_name = ''ModbusError'', LIMITS = [],
     PDU_FORMAT = PduFormat Big [UByte, UByte] None, PDU_ID = 0x8000,
     PDU_FIELDS = Some [''exc_code''], PDU_TAIL = None, PDU_COUNT = None\<rparr>"

definition ERROR_MASK :: int where
  "ERROR_MASK = 0x80"

definition ModbusError_self :: "int \<Rightarrow> int \<Rightarrow> pdu_self" where
  "ModbusError_self fc exc_code = \<lparr>self_class = ModbusError_cls, self_fc = fc,
     self_ints = [(''exc_code'', exc_code)], self_seqs = []\<rparr>"

definition ModbusError_len :: "int pyres" where
  "ModbusError_len = struct_calcsize (fmt_raw (PDU_FORMAT ModbusError_cls))"

definition ModbusError_serialize :: "int \<Rightarrow> int \<Rightarrow> bytes pyres" where
  "ModbusError_serialize fc exc_code = except_raise is_StructError ModbusPacketError
     (bindE (struct_pack (StructFmt Big [UByte] None) [fc + ERROR_MASK]) (\<lambda>func_code_bytes.
      bindE (struct_pack (StructFmt Big [UByte] None) [exc_code]) (\<lambda>exc_code_bytes.
        Inr (func_code_bytes @ exc_code_bytes))))"

definition ModbusError_deserialize :: "bytes \<Rightarrow> common_pdu pyres" where
  "ModbusError_deserialize stream = except_raise is_StructError ModbusPacketError
     (bindE (struct_unpack (fmt_raw (PDU_FORMAT ModbusError_cls)) stream) (\<lambda>pdu.
        Inr (ModbusError (pdu ! 0 - ERROR_MASK) (pdu ! 1))))"

section \<open>Dynamic dispatch over the module's classes\<close>

datatype common_class = ModbusPdu_t | ModbusError_t

fun common_class_of :: "common_pdu \<Rightarrow> common_class" where
  "common_class_of (ModbusPdu _ _) = ModbusPdu_t"
| "common_class_of (ModbusError _ _) = ModbusError_t"

fun common_decl :: "common_class \<Rightarrow> pdu_class" where
  "common_decl ModbusPdu_t = ModbusPdu_cls"
| "common_decl ModbusError_t = ModbusError_cls"

fun common_self :: "common_pdu \<Rightarrow> pdu_self" where
  "common_self (ModbusPdu fc data) = ModbusPdu_self fc data"
| "common_self (ModbusError fc exc_code) = ModbusError_self fc exc_code"

fun common_len :: "common_pdu \<Rightarrow> int pyres" where
  "common_len (ModbusPdu fc data) = pdu_len (ModbusPdu_self fc data)"
| "common_len (ModbusError fc exc_code) = ModbusError_len"

fun common_violations :: "common_pdu \<Rightarrow> ModbusViolation list pyres" where
  "common_violations (ModbusPdu fc data) = pdu_violations (ModbusPdu_self fc data)"
| "common_violations (ModbusError fc exc_code) = pdu_violations (ModbusError_self fc exc_code)"

fun common_serialize :: "common_pdu \<Rightarrow> bytes pyres" where
  "common_serialize (ModbusPdu fc data) = ModbusPdu_serialize fc data"
| "common_serialize (ModbusError fc exc_code) = ModbusError_serialize fc exc_code"

fun common_deserialize :: "common_class \<Rightarrow> bytes \<Rightarrow> common_pdu pyres" where
  "common_deserialize ModbusPdu_t s = ModbusPdu_deserialize s"
| "common_deserialize ModbusError_t s = ModbusError_deserialize s"

section \<open>Facts every PDU module uses\<close>

named_theorems pdu_defs \<open>class attributes and attribute dictionaries of the concrete classes\<close>

lemmas [pdu_defs] = ModbusPdu_cls_def ModbusPdu_self_def ModbusError_cls_def ModbusError_self_def

lemma pdu_pack_eq:
  "pdu_data self = Inr d \<Longrightarrow>
     pdu_pack self fmt = except_raise is_StructError ModbusPacketError (struct_pack fmt (self_fc self # d))"
  by (simp add: pdu_pack_def)

lemma serialize_reraise: "(\<exists>s. except_raise P e m = Inr s) \<longleftrightarrow> (\<exists>s. m = Inr s)"
  by (simp add: res_simps)

lemma reraise_struct_error:
  "raises_only is_StructError m \<Longrightarrow>
     raises_only is_ModbusPacketError (except_raise is_StructError ModbusPacketError m)"
  by (erule raises_only_except_raise) simp_all

lemma reraise_packet_error:
  "raises_only is_ModbusPacketError m \<Longrightarrow>
     raises_only is_ModbusPacketError (except_raise is_ModbusPacketError ModbusPacketError m)"
  by (erule raises_only_except_raise) simp_all

lemma struct_pack_raises: "raises_only is_StructError (struct_pack f vs)"
  by (cases "struct_pack f vs") (auto dest: struct_pack_error)

lemma reraise_twice:
  "except_raise is_ModbusPacketError ModbusPacketError (except_raise is_StructError ModbusPacketError m) =
   except_raise is_StructError ModbusPacketError m" if "raises_only is_StructError m"
  using that by (cases m) simp_all

lemma pdu_serialize_eq:
  "pdu_data self = Inr d \<Longrightarrow>
     except_raise is_ModbusPacketError ModbusPacketError (pdu_pack self fmt) =
     except_raise is_StructError ModbusPacketError (struct_pack fmt (self_fc self # d))"
  by (simp add: pdu_pack_eq reraise_twice struct_pack_raises)

lemma struct_unpack_raises: "raises_only is_StructError (struct_unpack f s)"
  by (cases "struct_unpack f s") (auto dest: struct_unpack_error)

lemma pdu_pack_raises:
  "pdu_data self = Inr d \<Longrightarrow> raises_only is_ModbusPacketError (pdu_pack self fmt)"
  by (simp add: pdu_pack_eq reraise_struct_error struct_pack_raises)

lemma unpack_then_raises:
  "(\<And>vs. raises_only is_StructError (f vs)) \<Longrightarrow>
     raises_only is_ModbusPacketError
       (except_raise is_StructError ModbusPacketError (bindE (struct_unpack fmt s) f))"
  by (intro reraise_struct_error raises_only_bindE struct_unpack_raises)

lemmas raises_intros =
  reraise_struct_error reraise_packet_error struct_pack_raises struct_unpack_raises
  pdu_pack_raises unpack_then_raises

subsection \<open>\<open>ModbusPdu\<close>, the transparent class\<close>

lemma ModbusPdu_data [simp]: "pdu_data (ModbusPdu_self fc data) = Inr data"
  by (simp add: pdu_data_def seq_attr_def pdu_defs)

lemma ModbusPdu_self_class [simp]: "self_class (ModbusPdu_self fc data) = ModbusPdu_cls"
  by (simp add: ModbusPdu_self_def)

lemma ModbusPdu_serialize_eq:
  "ModbusPdu_serialize fc data = except_raise is_StructError ModbusPacketError
     (struct_pack (fmt_format (PduFormat Big [UByte] (Some UByte)) (int (length data))) (fc # data))"
  by (simp add: ModbusPdu_serialize_def pdu_pack_eq) (simp add: pdu_defs)

lemma ModbusPdu_des_ser:
  assumes "ModbusPdu_serialize fc data = Inr s"
  shows "ModbusPdu_deserialize s = Inr (ModbusPdu fc data)"
proof -
  have p: "struct_pack (fmt_format (PduFormat Big [UByte] (Some UByte)) (int (length data))) (fc # data) = Inr s"
    using assms by (simp add: ModbusPdu_serialize_eq res_simps)
  have "int (length s) - 1 = int (length data)"
    using struct_pack_repeat(3) [OF p] by simp
  then show ?thesis
    using struct_pack_repeat(1) [OF p]
    by (simp add: ModbusPdu_deserialize_def ModbusPdu_unpack_def ModbusPdu_cls_def)
qed

lemma ModbusPdu_ser_des:
  assumes "ModbusPdu_deserialize s = Inr (ModbusPdu fc data)"
  shows "ModbusPdu_serialize fc data = Inr s"
proof -
  obtain vs where "struct_unpack (fmt_format (PduFormat Big [UByte] (Some UByte)) (int (length s) - 1)) s = Inr vs"
    and "(case vs of [] \<Rightarrow> Inl IndexError | fc # data \<Rightarrow> Inr (ModbusPdu fc data)) = Inr (ModbusPdu fc data)"
    using assms by (auto simp: ModbusPdu_deserialize_def ModbusPdu_unpack_def ModbusPdu_cls_def res_simps)
  then have u: "struct_unpack (fmt_format (PduFormat Big [UByte] (Some UByte)) (int (length s) - 1)) s = Inr (fc # data)"
    by (cases vs) auto
  have "int (length s) - 1 = int (length data)"
    using struct_unpack_repeat(3) [OF u] by simp
  then show ?thesis
    using struct_unpack_repeat(1) [OF u] by (simp add: ModbusPdu_serialize_eq)
qed

lemma ModbusPdu_deserialize_not_error [simp]: "ModbusPdu_deserialize s \<noteq> Inr (ModbusError fc c)"
  by (auto simp: ModbusPdu_deserialize_def ModbusPdu_unpack_def res_simps split: list.splits)

lemma ModbusPdu_deserialize_total:
  assumes "s \<noteq> []" and "int (length s) \<le> PY_SSIZE_T_MAX"
  shows "ModbusPdu_deserialize s = Inr (ModbusPdu (uint (hd s)) (map uint (tl s)))"
proof -
  have "unpack_codes Big (replicate (length t) UByte) t = map uint t" for t
    by (induction t) auto
  with assms show ?thesis
    by (cases s) (simp_all add: ModbusPdu_deserialize_def ModbusPdu_unpack_def ModbusPdu_cls_def
        fmt_format.simps struct_unpack.simps)
qed

subsection \<open>\<open>ModbusError\<close>\<close>

lemma ModbusError_data [simp]: "pdu_data (ModbusError_self fc c) = Inr [c]"
  by (simp add: pdu_data_def int_attr_def pdu_defs)

lemma ModbusError_serialize_iff:
  "ModbusError_serialize fc c = Inr s \<longleftrightarrow>
     fits UByte (fc + 128) \<and> fits UByte c \<and> s = [word_of_int (fc + 128), word_of_int c]"
  by (auto simp: ModbusError_serialize_def res_simps ERROR_MASK_def struct_pack.simps pack_code_def
      fits_def PY_SSIZE_T_MAX_def split: if_splits)

lemma ModbusError_deserialize_iff:
  "ModbusError_deserialize s = Inr p \<longleftrightarrow>
     (\<exists>a b. s = [a, b] \<and> p = ModbusError (uint a - 128) (uint b))"
  by (auto simp: ModbusError_deserialize_def ModbusError_cls_def res_simps ERROR_MASK_def
      struct_unpack.simps fmt_raw.simps PY_SSIZE_T_MAX_def length_Suc_conv numeral_2_eq_2
      split: if_splits)

lemma ModbusError_des_ser:
  "ModbusError_serialize fc c = Inr s \<Longrightarrow> ModbusError_deserialize s = Inr (ModbusError fc c)"
  by (auto simp: ModbusError_serialize_iff ModbusError_deserialize_iff fits_def code_max_def
      uint_word_of_int_byte simp del: of_int_add)

lemma ModbusError_ser_des:
  "ModbusError_deserialize s = Inr (ModbusError fc c) \<Longrightarrow> ModbusError_serialize fc c = Inr s"
  using uint_byte_bounds
  by (auto simp: ModbusError_serialize_iff ModbusError_deserialize_iff fits_def code_max_def
      simp flip: zle_diff1_eq intro: less_imp_le)

subsection \<open>The module's classes together\<close>

lemma common_des_ser:
  "common_serialize p = Inr s \<Longrightarrow> common_deserialize (common_class_of p) s = Inr p"
  by (cases p) (simp_all add: ModbusPdu_des_ser ModbusError_des_ser)

lemma common_ser_des: "common_deserialize c s = Inr p \<Longrightarrow> common_serialize p = Inr s"
  by (cases c; cases p)
    (auto simp: ModbusPdu_ser_des ModbusError_ser_des ModbusError_deserialize_iff)

lemma common_deserialize_class: "common_deserialize c s = Inr p \<Longrightarrow> common_class_of p = c"
  by (cases c; cases p) (auto simp: ModbusError_deserialize_iff)

lemma common_ser_len: "common_serialize p = Inr s \<Longrightarrow> common_len p = Inr (int (length s))"
proof (cases p)
  case (ModbusPdu fc data)
  moreover assume "common_serialize p = Inr s"
  ultimately show ?thesis
    by (auto simp: ModbusPdu_serialize_eq res_simps pdu_len_def ModbusPdu_cls_def dest: struct_pack_length)
next
  case (ModbusError fc c)
  moreover assume "common_serialize p = Inr s"
  ultimately show ?thesis
    by (simp add: ModbusError_serialize_iff ModbusError_len_def fmt_raw.simps pdu_defs PY_SSIZE_T_MAX_def)
qed

lemma common_serialize_raises: "raises_only is_ModbusPacketError (common_serialize p)"
  by (cases p)
    (auto simp: ModbusPdu_serialize_eq ModbusError_serialize_def
      intro!: raises_intros raises_only_bindE)

lemma common_deserialize_raises: "raises_only is_ModbusPacketError (common_deserialize c s)"
proof (cases c)
  case ModbusPdu_t
  have "raises_only is_StructError (case vs of [] \<Rightarrow> Inl IndexError | fc # data \<Rightarrow> Inr (ModbusPdu fc data))"
    if "struct_unpack (fmt_format (PduFormat Big [UByte] (Some UByte)) n) s = Inr vs" for vs n
    using struct_unpack_repeat(2,3) [OF that] by (cases vs) auto
  with ModbusPdu_t show ?thesis
    by (auto simp: ModbusPdu_deserialize_def ModbusPdu_unpack_def ModbusPdu_cls_def
        intro!: reraise_struct_error raises_only_bindE struct_unpack_raises)
next
  case ModbusError_t
  then show ?thesis
    by (auto simp: ModbusError_deserialize_def intro!: raises_intros)
qed

text \<open>
  Both classes keep the codec's promises, and both are transparent: the bytes read come back.
\<close>

interpretation common_codec: sized_codec common_serialize "common_deserialize c" "\<lambda>p. common_class_of p = c" common_len for c
  by unfold_locales (auto dest: common_des_ser common_ser_len)

interpretation common_codec: transparent_codec common_serialize "common_deserialize c" "\<lambda>p. common_class_of p = c" for c
  by unfold_locales (auto dest: common_ser_des common_deserialize_class)

end
