(* ===== verification/Pdu_Bits.thy ===== *)
theory Pdu_Bits imports Pdu_Common begin

text \<open>
  \<open>src/pyomb/pdu/bits.py\<close>: the bit-access function codes. Each class has its class attributes
  (\<open>_cls\<close>), the attribute dictionary its \<open>__init__\<close> builds (\<open>_self\<close>), and its own methods
  with the constructor's arguments as parameters; the functions at the end are Python's dynamic
  dispatch. The lemmas give the codec promises (round trip, length, error contract) for every
  class at once.
\<close>

section \<open>The classes\<close>

datatype bits_pdu =
    ModbusRequestFC1 int int
  | ModbusResponseFC1 int "int list"
  | ModbusRequestFC2 int int
  | ModbusResponseFC2 int "int list"
  | ModbusRequestFC5 int int
  | ModbusResponseFC5 int int
  | ModbusRequestFC15 int int int "int list"
  | ModbusResponseFC15 int int

subsection \<open>\<open>ModbusRequestFC1\<close>\<close>

definition ModbusRequestFC1_cls :: pdu_class where
  "ModbusRequestFC1_cls = \<lparr>cls_name = ''ModbusRequestFC1'', LIMITS = [(''quantity'', 0x0001, 0x07D0)],
     PDU_FORMAT = PduFormat Big [UByte, UShort, UShort] None, PDU_ID = 0x0001,
     PDU_FIELDS = Some [''start_addr'', ''quantity''], PDU_TAIL = None, PDU_COUNT = None\<rparr>"

definition ModbusRequestFC1_self :: "int \<Rightarrow> int \<Rightarrow> pdu_self" where
  "ModbusRequestFC1_self start_addr quantity = \<lparr>self_class = ModbusRequestFC1_cls, self_fc = 0x01,
     self_ints = [(''start_addr'', start_addr), (''quantity'', quantity)],
     self_seqs = []\<rparr>"

definition ModbusRequestFC1_len :: "int \<Rightarrow> int \<Rightarrow> int pyres" where
  "ModbusRequestFC1_len start_addr quantity = struct_calcsize (fmt_raw (PDU_FORMAT ModbusRequestFC1_cls))"

definition ModbusRequestFC1_serialize :: "int \<Rightarrow> int \<Rightarrow> bytes pyres" where
  "ModbusRequestFC1_serialize start_addr quantity = except_raise is_ModbusPacketError ModbusPacketError
     (pdu_pack (ModbusRequestFC1_self start_addr quantity) (fmt_raw (PDU_FORMAT ModbusRequestFC1_cls)))"

definition ModbusRequestFC1_deserialize :: "bytes \<Rightarrow> bits_pdu pyres" where
  "ModbusRequestFC1_deserialize stream = except_raise is_StructError ModbusPacketError
     (bindE (struct_unpack (fmt_raw (PDU_FORMAT ModbusRequestFC1_cls)) stream) (\<lambda>pdu.
        Inr (ModbusRequestFC1 (pdu ! 1) (pdu ! 2))))"

subsection \<open>\<open>ModbusResponseFC1\<close>\<close>

definition ModbusResponseFC1_cls :: pdu_class where
  "ModbusResponseFC1_cls = \<lparr>cls_name = ''ModbusResponseFC1'', LIMITS = [],
     PDU_FORMAT = PduFormat Big [UByte, UByte] (Some UByte), PDU_ID = 0x8001,
     PDU_FIELDS = Some [''byte_count''], PDU_TAIL = Some ''output_status'', PDU_COUNT = Some ''byte_count''\<rparr>"

definition ModbusResponseFC1_self :: "int \<Rightarrow> int list \<Rightarrow> pdu_self" where
  "ModbusResponseFC1_self byte_count output_status = \<lparr>self_class = ModbusResponseFC1_cls, self_fc = 0x01,
     self_ints = [(''byte_count'', byte_count)],
     self_seqs = [(''output_status'', output_status)]\<rparr>"

definition ModbusResponseFC1_len :: "int \<Rightarrow> int list \<Rightarrow> int pyres" where
  "ModbusResponseFC1_len byte_count output_status = struct_calcsize (fmt_format (PDU_FORMAT ModbusResponseFC1_cls) byte_count)"

definition ModbusResponseFC1_violations :: "int \<Rightarrow> int list \<Rightarrow> ModbusViolation list pyres" where
  "ModbusResponseFC1_violations byte_count output_status = (let self = ModbusResponseFC1_self byte_count output_status in
     bindE (pdu_violations self) (\<lambda>found.
     bindE (pdu_fixed_count self ''byte_count'' (int (length output_status)) ''the number of status bytes'') (\<lambda>fixed.
       Inr (found @ fixed))))"

definition ModbusResponseFC1_serialize :: "int \<Rightarrow> int list \<Rightarrow> bytes pyres" where
  "ModbusResponseFC1_serialize byte_count output_status = except_raise is_ModbusPacketError ModbusPacketError
     (pdu_pack (ModbusResponseFC1_self byte_count output_status) (fmt_format (PDU_FORMAT ModbusResponseFC1_cls) byte_count))"

definition ModbusResponseFC1_deserialize :: "bytes \<Rightarrow> bits_pdu pyres" where
  "ModbusResponseFC1_deserialize stream = except_raise is_StructError ModbusPacketError
     (let pdu_data_length = int (length stream) - 2;
          fmt = fmt_format (PDU_FORMAT ModbusResponseFC1_cls) pdu_data_length
      in bindE (struct_unpack fmt stream) (\<lambda>pdu.
           Inr (ModbusResponseFC1 (pdu ! 1) (drop 2 pdu))))"

subsection \<open>\<open>ModbusRequestFC2\<close>\<close>

definition ModbusRequestFC2_cls :: pdu_class where
  "ModbusRequestFC2_cls = \<lparr>cls_name = ''ModbusRequestFC2'', LIMITS = [(''quantity'', 0x0001, 0x07D0)],
     PDU_FORMAT = PduFormat Big [UByte, UShort, UShort] None, PDU_ID = 0x0002,
     PDU_FIELDS = Some [''start_addr'', ''quantity''], PDU_TAIL = None, PDU_COUNT = None\<rparr>"

definition ModbusRequestFC2_self :: "int \<Rightarrow> int \<Rightarrow> pdu_self" where
  "ModbusRequestFC2_self start_addr quantity = \<lparr>self_class = ModbusRequestFC2_cls, self_fc = 0x02,
     self_ints = [(''start_addr'', start_addr), (''quantity'', quantity)],
     self_seqs = []\<rparr>"

definition ModbusRequestFC2_len :: "int \<Rightarrow> int \<Rightarrow> int pyres" where
  "ModbusRequestFC2_len start_addr quantity = struct_calcsize (fmt_raw (PDU_FORMAT ModbusRequestFC2_cls))"

definition ModbusRequestFC2_serialize :: "int \<Rightarrow> int \<Rightarrow> bytes pyres" where
  "ModbusRequestFC2_serialize start_addr quantity = except_raise is_ModbusPacketError ModbusPacketError
     (pdu_pack (ModbusRequestFC2_self start_addr quantity) (fmt_raw (PDU_FORMAT ModbusRequestFC2_cls)))"

definition ModbusRequestFC2_deserialize :: "bytes \<Rightarrow> bits_pdu pyres" where
  "ModbusRequestFC2_deserialize stream = except_raise is_StructError ModbusPacketError
     (bindE (struct_unpack (fmt_raw (PDU_FORMAT ModbusRequestFC2_cls)) stream) (\<lambda>pdu.
        Inr (ModbusRequestFC2 (pdu ! 1) (pdu ! 2))))"

subsection \<open>\<open>ModbusResponseFC2\<close>\<close>

definition ModbusResponseFC2_cls :: pdu_class where
  "ModbusResponseFC2_cls = \<lparr>cls_name = ''ModbusResponseFC2'', LIMITS = [],
     PDU_FORMAT = PduFormat Big [UByte, UByte] (Some UByte), PDU_ID = 0x8002,
     PDU_FIELDS = Some [''byte_count''], PDU_TAIL = Some ''input_status'', PDU_COUNT = Some ''byte_count''\<rparr>"

definition ModbusResponseFC2_self :: "int \<Rightarrow> int list \<Rightarrow> pdu_self" where
  "ModbusResponseFC2_self byte_count input_status = \<lparr>self_class = ModbusResponseFC2_cls, self_fc = 0x02,
     self_ints = [(''byte_count'', byte_count)],
     self_seqs = [(''input_status'', input_status)]\<rparr>"

definition ModbusResponseFC2_len :: "int \<Rightarrow> int list \<Rightarrow> int pyres" where
  "ModbusResponseFC2_len byte_count input_status = struct_calcsize (fmt_format (PDU_FORMAT ModbusResponseFC2_cls) byte_count)"

definition ModbusResponseFC2_violations :: "int \<Rightarrow> int list \<Rightarrow> ModbusViolation list pyres" where
  "ModbusResponseFC2_violations byte_count input_status = (let self = ModbusResponseFC2_self byte_count input_status in
     bindE (pdu_violations self) (\<lambda>found.
     bindE (pdu_fixed_count self ''byte_count'' (int (length input_status)) ''the number of status bytes'') (\<lambda>fixed.
       Inr (found @ fixed))))"

definition ModbusResponseFC2_serialize :: "int \<Rightarrow> int list \<Rightarrow> bytes pyres" where
  "ModbusResponseFC2_serialize byte_count input_status = except_raise is_ModbusPacketError ModbusPacketError
     (pdu_pack (ModbusResponseFC2_self byte_count input_status) (fmt_format (PDU_FORMAT ModbusResponseFC2_cls) byte_count))"

definition ModbusResponseFC2_deserialize :: "bytes \<Rightarrow> bits_pdu pyres" where
  "ModbusResponseFC2_deserialize stream = except_raise is_StructError ModbusPacketError
     (let pdu_data_length = int (length stream) - 2;
          fmt = fmt_format (PDU_FORMAT ModbusResponseFC2_cls) pdu_data_length
      in bindE (struct_unpack fmt stream) (\<lambda>pdu.
           Inr (ModbusResponseFC2 (pdu ! 1) (drop 2 pdu))))"

subsection \<open>\<open>ModbusRequestFC5\<close>\<close>

definition ModbusRequestFC5_cls :: pdu_class where
  "ModbusRequestFC5_cls = \<lparr>cls_name = ''ModbusRequestFC5'', LIMITS = [],
     PDU_FORMAT = PduFormat Big [UByte, UShort, UShort] None, PDU_ID = 0x0005,
     PDU_FIELDS = Some [''output_address'', ''output_value''], PDU_TAIL = None, PDU_COUNT = None\<rparr>"

definition ModbusRequestFC5_self :: "int \<Rightarrow> int \<Rightarrow> pdu_self" where
  "ModbusRequestFC5_self output_address output_value = \<lparr>self_class = ModbusRequestFC5_cls, self_fc = 0x05,
     self_ints = [(''output_address'', output_address), (''output_value'', output_value)],
     self_seqs = []\<rparr>"

definition ModbusRequestFC5_len :: "int \<Rightarrow> int \<Rightarrow> int pyres" where
  "ModbusRequestFC5_len output_address output_value = struct_calcsize (fmt_raw (PDU_FORMAT ModbusRequestFC5_cls))"

definition ModbusRequestFC5_violations :: "int \<Rightarrow> int \<Rightarrow> ModbusViolation list pyres" where
  "ModbusRequestFC5_violations output_address output_value = (let self = ModbusRequestFC5_self output_address output_value in
     bindE (pdu_violations self) (\<lambda>found.
       if output_value \<noteq> 0x0000 \<and> output_value \<noteq> 0xFF00
       then bindE (pdu_finding self ''output_value'' ''0x0000 or 0xFF00'') (\<lambda>v. Inr (found @ [v]))
       else Inr found))"

definition ModbusRequestFC5_serialize :: "int \<Rightarrow> int \<Rightarrow> bytes pyres" where
  "ModbusRequestFC5_serialize output_address output_value = except_raise is_ModbusPacketError ModbusPacketError
     (pdu_pack (ModbusRequestFC5_self output_address output_value) (fmt_raw (PDU_FORMAT ModbusRequestFC5_cls)))"

definition ModbusRequestFC5_deserialize :: "bytes \<Rightarrow> bits_pdu pyres" where
  "ModbusRequestFC5_deserialize stream = except_raise is_StructError ModbusPacketError
     (bindE (struct_unpack (fmt_raw (PDU_FORMAT ModbusRequestFC5_cls)) stream) (\<lambda>pdu.
        Inr (ModbusRequestFC5 (pdu ! 1) (pdu ! 2))))"

subsection \<open>\<open>ModbusResponseFC5\<close>\<close>

definition ModbusResponseFC5_cls :: pdu_class where
  "ModbusResponseFC5_cls = \<lparr>cls_name = ''ModbusResponseFC5'', LIMITS = [],
     PDU_FORMAT = PduFormat Big [UByte, UShort, UShort] None, PDU_ID = 0x8005,
     PDU_FIELDS = Some [''output_address'', ''output_value''], PDU_TAIL = None, PDU_COUNT = None\<rparr>"

definition ModbusResponseFC5_self :: "int \<Rightarrow> int \<Rightarrow> pdu_self" where
  "ModbusResponseFC5_self output_address output_value = \<lparr>self_class = ModbusResponseFC5_cls, self_fc = 0x05,
     self_ints = [(''output_address'', output_address), (''output_value'', output_value)],
     self_seqs = []\<rparr>"

definition ModbusResponseFC5_len :: "int \<Rightarrow> int \<Rightarrow> int pyres" where
  "ModbusResponseFC5_len output_address output_value = struct_calcsize (fmt_raw (PDU_FORMAT ModbusResponseFC5_cls))"

definition ModbusResponseFC5_violations :: "int \<Rightarrow> int \<Rightarrow> ModbusViolation list pyres" where
  "ModbusResponseFC5_violations output_address output_value = (let self = ModbusResponseFC5_self output_address output_value in
     bindE (pdu_violations self) (\<lambda>found.
       if output_value \<noteq> 0x0000 \<and> output_value \<noteq> 0xFF00
       then bindE (pdu_finding self ''output_value'' ''0x0000 or 0xFF00'') (\<lambda>v. Inr (found @ [v]))
       else Inr found))"

definition ModbusResponseFC5_serialize :: "int \<Rightarrow> int \<Rightarrow> bytes pyres" where
  "ModbusResponseFC5_serialize output_address output_value = except_raise is_ModbusPacketError ModbusPacketError
     (pdu_pack (ModbusResponseFC5_self output_address output_value) (fmt_raw (PDU_FORMAT ModbusResponseFC5_cls)))"

definition ModbusResponseFC5_deserialize :: "bytes \<Rightarrow> bits_pdu pyres" where
  "ModbusResponseFC5_deserialize stream = except_raise is_StructError ModbusPacketError
     (bindE (struct_unpack (fmt_raw (PDU_FORMAT ModbusResponseFC5_cls)) stream) (\<lambda>pdu.
        Inr (ModbusResponseFC5 (pdu ! 1) (pdu ! 2))))"

subsection \<open>\<open>ModbusRequestFC15\<close>\<close>

definition ModbusRequestFC15_cls :: pdu_class where
  "ModbusRequestFC15_cls = \<lparr>cls_name = ''ModbusRequestFC15'', LIMITS = [(''quantity'', 0x0001, 0x07B0)],
     PDU_FORMAT = PduFormat Big [UByte, UShort, UShort, UByte] (Some UByte), PDU_ID = 0x000F,
     PDU_FIELDS = Some [''start_addr'', ''quantity'', ''byte_count''], PDU_TAIL = Some ''values'', PDU_COUNT = Some ''byte_count''\<rparr>"

definition ModbusRequestFC15_self :: "int \<Rightarrow> int \<Rightarrow> int \<Rightarrow> int list \<Rightarrow> pdu_self" where
  "ModbusRequestFC15_self start_addr quantity byte_count values = \<lparr>self_class = ModbusRequestFC15_cls, self_fc = 0x0F,
     self_ints = [(''start_addr'', start_addr), (''quantity'', quantity), (''byte_count'', byte_count)],
     self_seqs = [(''values'', values)]\<rparr>"

definition ModbusRequestFC15_len :: "int \<Rightarrow> int \<Rightarrow> int \<Rightarrow> int list \<Rightarrow> int pyres" where
  "ModbusRequestFC15_len start_addr quantity byte_count values = struct_calcsize (fmt_format (PDU_FORMAT ModbusRequestFC15_cls) (int (length values)))"

definition ModbusRequestFC15_violations :: "int \<Rightarrow> int \<Rightarrow> int \<Rightarrow> int list \<Rightarrow> ModbusViolation list pyres" where
  "ModbusRequestFC15_violations start_addr quantity byte_count values = (let self = ModbusRequestFC15_self start_addr quantity byte_count values in
     bindE (pdu_violations self) (\<lambda>found.
     bindE (pdu_fixed_count self ''byte_count'' (- ((- quantity) div 8)) ''the quantity rounded up to whole bytes'') (\<lambda>fixed.
       Inr (found @ fixed))))"

definition ModbusRequestFC15_serialize :: "int \<Rightarrow> int \<Rightarrow> int \<Rightarrow> int list \<Rightarrow> bytes pyres" where
  "ModbusRequestFC15_serialize start_addr quantity byte_count values = except_raise is_ModbusPacketError ModbusPacketError
     (pdu_pack (ModbusRequestFC15_self start_addr quantity byte_count values) (fmt_format (PDU_FORMAT ModbusRequestFC15_cls) (int (length values))))"

definition ModbusRequestFC15_deserialize :: "bytes \<Rightarrow> bits_pdu pyres" where
  "ModbusRequestFC15_deserialize stream = except_raise is_StructError ModbusPacketError
     (let pdu_data_length = int (length stream) - 6;
          fmt = fmt_format (PDU_FORMAT ModbusRequestFC15_cls) pdu_data_length
      in bindE (struct_unpack fmt stream) (\<lambda>pdu.
           Inr (ModbusRequestFC15 (pdu ! 1) (pdu ! 2) (pdu ! 3) (drop 4 pdu))))"

subsection \<open>\<open>ModbusResponseFC15\<close>\<close>

definition ModbusResponseFC15_cls :: pdu_class where
  "ModbusResponseFC15_cls = \<lparr>cls_name = ''ModbusResponseFC15'', LIMITS = [(''quantity'', 0x0001, 0x07B0)],
     PDU_FORMAT = PduFormat Big [UByte, UShort, UShort] None, PDU_ID = 0x800F,
     PDU_FIELDS = Some [''start_addr'', ''quantity''], PDU_TAIL = None, PDU_COUNT = None\<rparr>"

definition ModbusResponseFC15_self :: "int \<Rightarrow> int \<Rightarrow> pdu_self" where
  "ModbusResponseFC15_self start_addr quantity = \<lparr>self_class = ModbusResponseFC15_cls, self_fc = 0x0F,
     self_ints = [(''start_addr'', start_addr), (''quantity'', quantity)],
     self_seqs = []\<rparr>"

definition ModbusResponseFC15_len :: "int \<Rightarrow> int \<Rightarrow> int pyres" where
  "ModbusResponseFC15_len start_addr quantity = struct_calcsize (fmt_raw (PDU_FORMAT ModbusResponseFC15_cls))"

definition ModbusResponseFC15_serialize :: "int \<Rightarrow> int \<Rightarrow> bytes pyres" where
  "ModbusResponseFC15_serialize start_addr quantity = except_raise is_ModbusPacketError ModbusPacketError
     (pdu_pack (ModbusResponseFC15_self start_addr quantity) (fmt_raw (PDU_FORMAT ModbusResponseFC15_cls)))"

definition ModbusResponseFC15_deserialize :: "bytes \<Rightarrow> bits_pdu pyres" where
  "ModbusResponseFC15_deserialize stream = except_raise is_StructError ModbusPacketError
     (bindE (struct_unpack (fmt_raw (PDU_FORMAT ModbusResponseFC15_cls)) stream) (\<lambda>pdu.
        Inr (ModbusResponseFC15 (pdu ! 1) (pdu ! 2))))"

section \<open>Dynamic dispatch over the module's classes\<close>

datatype bits_class = RequestFC1_t | ResponseFC1_t | RequestFC2_t | ResponseFC2_t | RequestFC5_t | ResponseFC5_t | RequestFC15_t | ResponseFC15_t

fun bits_class_of :: "bits_pdu \<Rightarrow> bits_class" where
  "bits_class_of (ModbusRequestFC1 _ _) = RequestFC1_t"
| "bits_class_of (ModbusResponseFC1 _ _) = ResponseFC1_t"
| "bits_class_of (ModbusRequestFC2 _ _) = RequestFC2_t"
| "bits_class_of (ModbusResponseFC2 _ _) = ResponseFC2_t"
| "bits_class_of (ModbusRequestFC5 _ _) = RequestFC5_t"
| "bits_class_of (ModbusResponseFC5 _ _) = ResponseFC5_t"
| "bits_class_of (ModbusRequestFC15 _ _ _ _) = RequestFC15_t"
| "bits_class_of (ModbusResponseFC15 _ _) = ResponseFC15_t"

fun bits_decl :: "bits_class \<Rightarrow> pdu_class" where
  "bits_decl RequestFC1_t = ModbusRequestFC1_cls"
| "bits_decl ResponseFC1_t = ModbusResponseFC1_cls"
| "bits_decl RequestFC2_t = ModbusRequestFC2_cls"
| "bits_decl ResponseFC2_t = ModbusResponseFC2_cls"
| "bits_decl RequestFC5_t = ModbusRequestFC5_cls"
| "bits_decl ResponseFC5_t = ModbusResponseFC5_cls"
| "bits_decl RequestFC15_t = ModbusRequestFC15_cls"
| "bits_decl ResponseFC15_t = ModbusResponseFC15_cls"

fun bits_self :: "bits_pdu \<Rightarrow> pdu_self" where
  "bits_self (ModbusRequestFC1 start_addr quantity) = ModbusRequestFC1_self start_addr quantity"
| "bits_self (ModbusResponseFC1 byte_count output_status) = ModbusResponseFC1_self byte_count output_status"
| "bits_self (ModbusRequestFC2 start_addr quantity) = ModbusRequestFC2_self start_addr quantity"
| "bits_self (ModbusResponseFC2 byte_count input_status) = ModbusResponseFC2_self byte_count input_status"
| "bits_self (ModbusRequestFC5 output_address output_value) = ModbusRequestFC5_self output_address output_value"
| "bits_self (ModbusResponseFC5 output_address output_value) = ModbusResponseFC5_self output_address output_value"
| "bits_self (ModbusRequestFC15 start_addr quantity byte_count values) = ModbusRequestFC15_self start_addr quantity byte_count values"
| "bits_self (ModbusResponseFC15 start_addr quantity) = ModbusResponseFC15_self start_addr quantity"

fun bits_len :: "bits_pdu \<Rightarrow> int pyres" where
  "bits_len (ModbusRequestFC1 start_addr quantity) = ModbusRequestFC1_len start_addr quantity"
| "bits_len (ModbusResponseFC1 byte_count output_status) = ModbusResponseFC1_len byte_count output_status"
| "bits_len (ModbusRequestFC2 start_addr quantity) = ModbusRequestFC2_len start_addr quantity"
| "bits_len (ModbusResponseFC2 byte_count input_status) = ModbusResponseFC2_len byte_count input_status"
| "bits_len (ModbusRequestFC5 output_address output_value) = ModbusRequestFC5_len output_address output_value"
| "bits_len (ModbusResponseFC5 output_address output_value) = ModbusResponseFC5_len output_address output_value"
| "bits_len (ModbusRequestFC15 start_addr quantity byte_count values) = ModbusRequestFC15_len start_addr quantity byte_count values"
| "bits_len (ModbusResponseFC15 start_addr quantity) = ModbusResponseFC15_len start_addr quantity"

fun bits_violations :: "bits_pdu \<Rightarrow> ModbusViolation list pyres" where
  "bits_violations (ModbusRequestFC1 start_addr quantity) = pdu_violations (ModbusRequestFC1_self start_addr quantity)"
| "bits_violations (ModbusResponseFC1 byte_count output_status) = ModbusResponseFC1_violations byte_count output_status"
| "bits_violations (ModbusRequestFC2 start_addr quantity) = pdu_violations (ModbusRequestFC2_self start_addr quantity)"
| "bits_violations (ModbusResponseFC2 byte_count input_status) = ModbusResponseFC2_violations byte_count input_status"
| "bits_violations (ModbusRequestFC5 output_address output_value) = ModbusRequestFC5_violations output_address output_value"
| "bits_violations (ModbusResponseFC5 output_address output_value) = ModbusResponseFC5_violations output_address output_value"
| "bits_violations (ModbusRequestFC15 start_addr quantity byte_count values) = ModbusRequestFC15_violations start_addr quantity byte_count values"
| "bits_violations (ModbusResponseFC15 start_addr quantity) = pdu_violations (ModbusResponseFC15_self start_addr quantity)"

fun bits_serialize :: "bits_pdu \<Rightarrow> bytes pyres" where
  "bits_serialize (ModbusRequestFC1 start_addr quantity) = ModbusRequestFC1_serialize start_addr quantity"
| "bits_serialize (ModbusResponseFC1 byte_count output_status) = ModbusResponseFC1_serialize byte_count output_status"
| "bits_serialize (ModbusRequestFC2 start_addr quantity) = ModbusRequestFC2_serialize start_addr quantity"
| "bits_serialize (ModbusResponseFC2 byte_count input_status) = ModbusResponseFC2_serialize byte_count input_status"
| "bits_serialize (ModbusRequestFC5 output_address output_value) = ModbusRequestFC5_serialize output_address output_value"
| "bits_serialize (ModbusResponseFC5 output_address output_value) = ModbusResponseFC5_serialize output_address output_value"
| "bits_serialize (ModbusRequestFC15 start_addr quantity byte_count values) = ModbusRequestFC15_serialize start_addr quantity byte_count values"
| "bits_serialize (ModbusResponseFC15 start_addr quantity) = ModbusResponseFC15_serialize start_addr quantity"

fun bits_deserialize :: "bits_class \<Rightarrow> bytes \<Rightarrow> bits_pdu pyres" where
  "bits_deserialize RequestFC1_t s = ModbusRequestFC1_deserialize s"
| "bits_deserialize ResponseFC1_t s = ModbusResponseFC1_deserialize s"
| "bits_deserialize RequestFC2_t s = ModbusRequestFC2_deserialize s"
| "bits_deserialize ResponseFC2_t s = ModbusResponseFC2_deserialize s"
| "bits_deserialize RequestFC5_t s = ModbusRequestFC5_deserialize s"
| "bits_deserialize ResponseFC5_t s = ModbusResponseFC5_deserialize s"
| "bits_deserialize RequestFC15_t s = ModbusRequestFC15_deserialize s"
| "bits_deserialize ResponseFC15_t s = ModbusResponseFC15_deserialize s"

lemmas [pdu_defs] =
  ModbusRequestFC1_cls_def ModbusRequestFC1_self_def
  ModbusResponseFC1_cls_def ModbusResponseFC1_self_def
  ModbusRequestFC2_cls_def ModbusRequestFC2_self_def
  ModbusResponseFC2_cls_def ModbusResponseFC2_self_def
  ModbusRequestFC5_cls_def ModbusRequestFC5_self_def
  ModbusResponseFC5_cls_def ModbusResponseFC5_self_def
  ModbusRequestFC15_cls_def ModbusRequestFC15_self_def
  ModbusResponseFC15_cls_def ModbusResponseFC15_self_def

section \<open>What each class packs\<close>

lemma ModbusRequestFC1_data [simp]: "pdu_data (ModbusRequestFC1_self start_addr quantity) = Inr ([start_addr, quantity])"
  by (simp add: pdu_data_def int_attr_def seq_attr_def pdu_defs)

lemma ModbusResponseFC1_data [simp]: "pdu_data (ModbusResponseFC1_self byte_count output_status) = Inr ([byte_count] @ output_status)"
  by (simp add: pdu_data_def int_attr_def seq_attr_def pdu_defs)

lemma ModbusRequestFC2_data [simp]: "pdu_data (ModbusRequestFC2_self start_addr quantity) = Inr ([start_addr, quantity])"
  by (simp add: pdu_data_def int_attr_def seq_attr_def pdu_defs)

lemma ModbusResponseFC2_data [simp]: "pdu_data (ModbusResponseFC2_self byte_count input_status) = Inr ([byte_count] @ input_status)"
  by (simp add: pdu_data_def int_attr_def seq_attr_def pdu_defs)

lemma ModbusRequestFC5_data [simp]: "pdu_data (ModbusRequestFC5_self output_address output_value) = Inr ([output_address, output_value])"
  by (simp add: pdu_data_def int_attr_def seq_attr_def pdu_defs)

lemma ModbusResponseFC5_data [simp]: "pdu_data (ModbusResponseFC5_self output_address output_value) = Inr ([output_address, output_value])"
  by (simp add: pdu_data_def int_attr_def seq_attr_def pdu_defs)

lemma ModbusRequestFC15_data [simp]: "pdu_data (ModbusRequestFC15_self start_addr quantity byte_count values) = Inr ([start_addr, quantity, byte_count] @ values)"
  by (simp add: pdu_data_def int_attr_def seq_attr_def pdu_defs)

lemma ModbusResponseFC15_data [simp]: "pdu_data (ModbusResponseFC15_self start_addr quantity) = Inr ([start_addr, quantity])"
  by (simp add: pdu_data_def int_attr_def seq_attr_def pdu_defs)

lemma ModbusRequestFC1_serialize_eq:
  "ModbusRequestFC1_serialize start_addr quantity = except_raise is_StructError ModbusPacketError
     (struct_pack (fmt_raw (PduFormat Big [UByte, UShort, UShort] None)) ([0x01, start_addr, quantity]))"
  by (simp add: ModbusRequestFC1_serialize_def pdu_serialize_eq) (simp add: pdu_defs)

lemma ModbusResponseFC1_serialize_eq:
  "ModbusResponseFC1_serialize byte_count output_status = except_raise is_StructError ModbusPacketError
     (struct_pack (fmt_format (PduFormat Big [UByte, UByte] (Some UByte)) byte_count) (0x01 # byte_count # output_status))"
  by (simp add: ModbusResponseFC1_serialize_def pdu_serialize_eq) (simp add: pdu_defs)

lemma ModbusRequestFC2_serialize_eq:
  "ModbusRequestFC2_serialize start_addr quantity = except_raise is_StructError ModbusPacketError
     (struct_pack (fmt_raw (PduFormat Big [UByte, UShort, UShort] None)) ([0x02, start_addr, quantity]))"
  by (simp add: ModbusRequestFC2_serialize_def pdu_serialize_eq) (simp add: pdu_defs)

lemma ModbusResponseFC2_serialize_eq:
  "ModbusResponseFC2_serialize byte_count input_status = except_raise is_StructError ModbusPacketError
     (struct_pack (fmt_format (PduFormat Big [UByte, UByte] (Some UByte)) byte_count) (0x02 # byte_count # input_status))"
  by (simp add: ModbusResponseFC2_serialize_def pdu_serialize_eq) (simp add: pdu_defs)

lemma ModbusRequestFC5_serialize_eq:
  "ModbusRequestFC5_serialize output_address output_value = except_raise is_StructError ModbusPacketError
     (struct_pack (fmt_raw (PduFormat Big [UByte, UShort, UShort] None)) ([0x05, output_address, output_value]))"
  by (simp add: ModbusRequestFC5_serialize_def pdu_serialize_eq) (simp add: pdu_defs)

lemma ModbusResponseFC5_serialize_eq:
  "ModbusResponseFC5_serialize output_address output_value = except_raise is_StructError ModbusPacketError
     (struct_pack (fmt_raw (PduFormat Big [UByte, UShort, UShort] None)) ([0x05, output_address, output_value]))"
  by (simp add: ModbusResponseFC5_serialize_def pdu_serialize_eq) (simp add: pdu_defs)

lemma ModbusRequestFC15_serialize_eq:
  "ModbusRequestFC15_serialize start_addr quantity byte_count values = except_raise is_StructError ModbusPacketError
     (struct_pack (fmt_format (PduFormat Big [UByte, UShort, UShort, UByte] (Some UByte)) (int (length values))) (0x0F # start_addr # quantity # byte_count # values))"
  by (simp add: ModbusRequestFC15_serialize_def pdu_serialize_eq) (simp add: pdu_defs)

lemma ModbusResponseFC15_serialize_eq:
  "ModbusResponseFC15_serialize start_addr quantity = except_raise is_StructError ModbusPacketError
     (struct_pack (fmt_raw (PduFormat Big [UByte, UShort, UShort] None)) ([0x0F, start_addr, quantity]))"
  by (simp add: ModbusResponseFC15_serialize_def pdu_serialize_eq) (simp add: pdu_defs)

lemmas bits_serialize_eqs =
  ModbusRequestFC1_serialize_eq
  ModbusResponseFC1_serialize_eq
  ModbusRequestFC2_serialize_eq
  ModbusResponseFC2_serialize_eq
  ModbusRequestFC5_serialize_eq
  ModbusResponseFC5_serialize_eq
  ModbusRequestFC15_serialize_eq
  ModbusResponseFC15_serialize_eq

lemmas bits_deserialize_defs =
  ModbusRequestFC1_deserialize_def
  ModbusResponseFC1_deserialize_def
  ModbusRequestFC2_deserialize_def
  ModbusResponseFC2_deserialize_def
  ModbusRequestFC5_deserialize_def
  ModbusResponseFC5_deserialize_def
  ModbusRequestFC15_deserialize_def
  ModbusResponseFC15_deserialize_def

lemmas bits_len_defs =
  ModbusRequestFC1_len_def
  ModbusResponseFC1_len_def
  ModbusRequestFC2_len_def
  ModbusResponseFC2_len_def
  ModbusRequestFC5_len_def
  ModbusResponseFC5_len_def
  ModbusRequestFC15_len_def
  ModbusResponseFC15_len_def

lemmas bits_cls_defs =
  ModbusRequestFC1_cls_def
  ModbusResponseFC1_cls_def
  ModbusRequestFC2_cls_def
  ModbusResponseFC2_cls_def
  ModbusRequestFC5_cls_def
  ModbusResponseFC5_cls_def
  ModbusRequestFC15_cls_def
  ModbusResponseFC15_cls_def

section \<open>The codec promises\<close>

lemma bits_des_ser: "bits_serialize p = Inr s \<Longrightarrow> bits_deserialize (bits_class_of p) s = Inr p"
  by (cases p)
    (auto simp: bits_serialize_eqs bits_deserialize_defs bits_cls_defs res_simps
      dest!: struct_unpack_pack [of "fmt_raw _"] unpack_repeat_bytes)

lemma bits_ser_len: "bits_serialize p = Inr s \<Longrightarrow> bits_len p = Inr (int (length s))"
  by (cases p)
    (auto simp: bits_serialize_eqs bits_len_defs bits_cls_defs res_simps dest!: struct_pack_length)

lemma bits_deserialize_class: "bits_deserialize c s = Inr p \<Longrightarrow> bits_class_of p = c"
  by (cases c) (auto simp: bits_deserialize_defs res_simps)

lemma bits_serialize_hd: "bits_serialize p = Inr s \<Longrightarrow> s \<noteq> [] \<and> uint (hd s) = self_fc (bits_self p)"
  by (cases p) (auto simp: bits_serialize_eqs res_simps pdu_defs dest!: pack_raw_hd pack_format_hd)

lemma bits_serialize_raises: "raises_only is_ModbusPacketError (bits_serialize p)"
  by (cases p) (auto simp: bits_serialize_eqs intro!: raises_intros)

lemma bits_deserialize_raises: "raises_only is_ModbusPacketError (bits_deserialize c s)"
  by (cases c) (auto simp: bits_deserialize_defs Let_def intro!: raises_intros)

text \<open>
  The two read responses serialize under their own \<open>byte_count\<close>, not under the number of
  status bytes they hold, so what they read from the wire goes back onto it only where the two
  agree. Every other class of the module gives its bytes back.
\<close>

fun bits_count_agrees :: "bits_pdu \<Rightarrow> bool" where
  "bits_count_agrees (ModbusResponseFC1 byte_count output_status) = (byte_count = int (length output_status))"
| "bits_count_agrees (ModbusResponseFC2 byte_count input_status) = (byte_count = int (length input_status))"
| "bits_count_agrees _ = True"

lemma bits_ser_des:
  assumes "bits_deserialize c s = Inr p" and "uint (hd s) = self_fc (bits_self p)" and "bits_count_agrees p"
  shows "bits_serialize p = Inr s"
  using assms
  by (cases c)
    (auto simp: bits_deserialize_defs bits_serialize_eqs bits_cls_defs pdu_defs res_simps
      length_Suc_conv numeral_2_eq_2 numeral_3_eq_3
      dest!: unpack_fixed_shape unpack_repeat_shape)

lemma bits_serialize_count_agrees: "bits_serialize p = Inr s \<Longrightarrow> bits_count_agrees p"
  by (cases p) (auto simp: bits_serialize_eqs res_simps dest!: struct_pack_repeat(4))

interpretation bits_codec: sized_codec bits_serialize "bits_deserialize c" "\<lambda>p. bits_class_of p = c" bits_len for c
  by unfold_locales (auto dest: bits_des_ser bits_ser_len)

end
