(* ===== verification/Pdu_Registers.thy ===== *)
theory Pdu_Registers imports Pdu_Common begin

text \<open>
  \<open>src/pyomb/pdu/registers.py\<close>: the register-access function codes, laid out as in \<open>Pdu_Bits\<close>:
  class attributes, attribute dictionary and methods per class, then dynamic dispatch and the
  codec promises. Every class here serializes under the number of registers it really holds, so
  every class is transparent: what it read from the wire it puts back unchanged.
\<close>

section \<open>The classes\<close>

datatype registers_pdu =
    ModbusRequestFC3 int int
  | ModbusResponseFC3 int "int list"
  | ModbusRequestFC4 int int
  | ModbusResponseFC4 int "int list"
  | ModbusRequestFC6 int int
  | ModbusResponseFC6 int int
  | ModbusRequestFC16 int int int "int list"
  | ModbusResponseFC16 int int
  | ModbusRequestFC22 int int int
  | ModbusResponseFC22 int int int
  | ModbusRequestFC23 int int int int int "int list"
  | ModbusResponseFC23 int "int list"

subsection \<open>\<open>ModbusRequestFC3\<close>\<close>

definition ModbusRequestFC3_cls :: pdu_class where
  "ModbusRequestFC3_cls = \<lparr>cls_name = ''ModbusRequestFC3'', LIMITS = [(''quantity'', 0x0001, 0x007D)],
     PDU_FORMAT = PduFormat Big [UByte, UShort, UShort] None, PDU_ID = 0x0003,
     PDU_FIELDS = Some [''start_addr'', ''quantity''], PDU_TAIL = None, PDU_COUNT = None\<rparr>"

definition ModbusRequestFC3_self :: "int \<Rightarrow> int \<Rightarrow> pdu_self" where
  "ModbusRequestFC3_self start_addr quantity = \<lparr>self_class = ModbusRequestFC3_cls, self_fc = 0x03,
     self_ints = [(''start_addr'', start_addr), (''quantity'', quantity)],
     self_seqs = []\<rparr>"

definition ModbusRequestFC3_len :: "int \<Rightarrow> int \<Rightarrow> int pyres" where
  "ModbusRequestFC3_len start_addr quantity = struct_calcsize (fmt_raw (PDU_FORMAT ModbusRequestFC3_cls))"

definition ModbusRequestFC3_serialize :: "int \<Rightarrow> int \<Rightarrow> bytes pyres" where
  "ModbusRequestFC3_serialize start_addr quantity = except_raise is_ModbusPacketError ModbusPacketError
     (pdu_pack (ModbusRequestFC3_self start_addr quantity) (fmt_raw (PDU_FORMAT ModbusRequestFC3_cls)))"

definition ModbusRequestFC3_deserialize :: "bytes \<Rightarrow> registers_pdu pyres" where
  "ModbusRequestFC3_deserialize stream = except_raise is_StructError ModbusPacketError
     (bindE (struct_unpack (fmt_raw (PDU_FORMAT ModbusRequestFC3_cls)) stream) (\<lambda>pdu.
        Inr (ModbusRequestFC3 (pdu ! 1) (pdu ! 2))))"

subsection \<open>\<open>ModbusResponseFC3\<close>\<close>

definition ModbusResponseFC3_cls :: pdu_class where
  "ModbusResponseFC3_cls = \<lparr>cls_name = ''ModbusResponseFC3'', LIMITS = [],
     PDU_FORMAT = PduFormat Big [UByte, UByte] (Some UShort), PDU_ID = 0x8003,
     PDU_FIELDS = Some [''byte_count''], PDU_TAIL = Some ''values'', PDU_COUNT = Some ''byte_count''\<rparr>"

definition ModbusResponseFC3_self :: "int \<Rightarrow> int list \<Rightarrow> pdu_self" where
  "ModbusResponseFC3_self byte_count values = \<lparr>self_class = ModbusResponseFC3_cls, self_fc = 0x03,
     self_ints = [(''byte_count'', byte_count)],
     self_seqs = [(''values'', values)]\<rparr>"

definition ModbusResponseFC3_len :: "int \<Rightarrow> int list \<Rightarrow> int pyres" where
  "ModbusResponseFC3_len byte_count values = struct_calcsize (fmt_format (PDU_FORMAT ModbusResponseFC3_cls) (int (length values)))"

definition ModbusResponseFC3_violations :: "int \<Rightarrow> int list \<Rightarrow> ModbusViolation list pyres" where
  "ModbusResponseFC3_violations byte_count values = (let self = ModbusResponseFC3_self byte_count values in
     bindE (pdu_violations self) (\<lambda>found.
     bindE (pdu_fixed_count self ''byte_count'' (2 * int (length values)) ''twice the registers returned'') (\<lambda>fixed.
       Inr (found @ fixed))))"

definition ModbusResponseFC3_serialize :: "int \<Rightarrow> int list \<Rightarrow> bytes pyres" where
  "ModbusResponseFC3_serialize byte_count values = except_raise is_ModbusPacketError ModbusPacketError
     (pdu_pack (ModbusResponseFC3_self byte_count values) (fmt_format (PDU_FORMAT ModbusResponseFC3_cls) (int (length values))))"

definition ModbusResponseFC3_deserialize :: "bytes \<Rightarrow> registers_pdu pyres" where
  "ModbusResponseFC3_deserialize stream = except_raise is_StructError ModbusPacketError
     (let reg_count = (int (length stream) - 2) div 2;
          fmt = fmt_format (PDU_FORMAT ModbusResponseFC3_cls) reg_count
      in bindE (struct_unpack fmt stream) (\<lambda>pdu.
           Inr (ModbusResponseFC3 (pdu ! 1) (drop 2 pdu))))"

subsection \<open>\<open>ModbusRequestFC4\<close>\<close>

definition ModbusRequestFC4_cls :: pdu_class where
  "ModbusRequestFC4_cls = \<lparr>cls_name = ''ModbusRequestFC4'', LIMITS = [(''quantity'', 0x0001, 0x007D)],
     PDU_FORMAT = PduFormat Big [UByte, UShort, UShort] None, PDU_ID = 0x0004,
     PDU_FIELDS = Some [''start_addr'', ''quantity''], PDU_TAIL = None, PDU_COUNT = None\<rparr>"

definition ModbusRequestFC4_self :: "int \<Rightarrow> int \<Rightarrow> pdu_self" where
  "ModbusRequestFC4_self start_addr quantity = \<lparr>self_class = ModbusRequestFC4_cls, self_fc = 0x04,
     self_ints = [(''start_addr'', start_addr), (''quantity'', quantity)],
     self_seqs = []\<rparr>"

definition ModbusRequestFC4_len :: "int \<Rightarrow> int \<Rightarrow> int pyres" where
  "ModbusRequestFC4_len start_addr quantity = struct_calcsize (fmt_raw (PDU_FORMAT ModbusRequestFC4_cls))"

definition ModbusRequestFC4_serialize :: "int \<Rightarrow> int \<Rightarrow> bytes pyres" where
  "ModbusRequestFC4_serialize start_addr quantity = except_raise is_ModbusPacketError ModbusPacketError
     (pdu_pack (ModbusRequestFC4_self start_addr quantity) (fmt_raw (PDU_FORMAT ModbusRequestFC4_cls)))"

definition ModbusRequestFC4_deserialize :: "bytes \<Rightarrow> registers_pdu pyres" where
  "ModbusRequestFC4_deserialize stream = except_raise is_StructError ModbusPacketError
     (bindE (struct_unpack (fmt_raw (PDU_FORMAT ModbusRequestFC4_cls)) stream) (\<lambda>pdu.
        Inr (ModbusRequestFC4 (pdu ! 1) (pdu ! 2))))"

subsection \<open>\<open>ModbusResponseFC4\<close>\<close>

definition ModbusResponseFC4_cls :: pdu_class where
  "ModbusResponseFC4_cls = \<lparr>cls_name = ''ModbusResponseFC4'', LIMITS = [],
     PDU_FORMAT = PduFormat Big [UByte, UByte] (Some UShort), PDU_ID = 0x8004,
     PDU_FIELDS = Some [''byte_count''], PDU_TAIL = Some ''values'', PDU_COUNT = Some ''byte_count''\<rparr>"

definition ModbusResponseFC4_self :: "int \<Rightarrow> int list \<Rightarrow> pdu_self" where
  "ModbusResponseFC4_self byte_count values = \<lparr>self_class = ModbusResponseFC4_cls, self_fc = 0x04,
     self_ints = [(''byte_count'', byte_count)],
     self_seqs = [(''values'', values)]\<rparr>"

definition ModbusResponseFC4_len :: "int \<Rightarrow> int list \<Rightarrow> int pyres" where
  "ModbusResponseFC4_len byte_count values = struct_calcsize (fmt_format (PDU_FORMAT ModbusResponseFC4_cls) (int (length values)))"

definition ModbusResponseFC4_violations :: "int \<Rightarrow> int list \<Rightarrow> ModbusViolation list pyres" where
  "ModbusResponseFC4_violations byte_count values = (let self = ModbusResponseFC4_self byte_count values in
     bindE (pdu_violations self) (\<lambda>found.
     bindE (pdu_fixed_count self ''byte_count'' (2 * int (length values)) ''twice the registers returned'') (\<lambda>fixed.
       Inr (found @ fixed))))"

definition ModbusResponseFC4_serialize :: "int \<Rightarrow> int list \<Rightarrow> bytes pyres" where
  "ModbusResponseFC4_serialize byte_count values = except_raise is_ModbusPacketError ModbusPacketError
     (pdu_pack (ModbusResponseFC4_self byte_count values) (fmt_format (PDU_FORMAT ModbusResponseFC4_cls) (int (length values))))"

definition ModbusResponseFC4_deserialize :: "bytes \<Rightarrow> registers_pdu pyres" where
  "ModbusResponseFC4_deserialize stream = except_raise is_StructError ModbusPacketError
     (let reg_count = (int (length stream) - 2) div 2;
          fmt = fmt_format (PDU_FORMAT ModbusResponseFC4_cls) reg_count
      in bindE (struct_unpack fmt stream) (\<lambda>pdu.
           Inr (ModbusResponseFC4 (pdu ! 1) (drop 2 pdu))))"

subsection \<open>\<open>ModbusRequestFC6\<close>\<close>

definition ModbusRequestFC6_cls :: pdu_class where
  "ModbusRequestFC6_cls = \<lparr>cls_name = ''ModbusRequestFC6'', LIMITS = [],
     PDU_FORMAT = PduFormat Big [UByte, UShort, UShort] None, PDU_ID = 0x0006,
     PDU_FIELDS = Some [''output_address'', ''output_value''], PDU_TAIL = None, PDU_COUNT = None\<rparr>"

definition ModbusRequestFC6_self :: "int \<Rightarrow> int \<Rightarrow> pdu_self" where
  "ModbusRequestFC6_self output_address output_value = \<lparr>self_class = ModbusRequestFC6_cls, self_fc = 0x06,
     self_ints = [(''output_address'', output_address), (''output_value'', output_value)],
     self_seqs = []\<rparr>"

definition ModbusRequestFC6_len :: "int \<Rightarrow> int \<Rightarrow> int pyres" where
  "ModbusRequestFC6_len output_address output_value = struct_calcsize (fmt_raw (PDU_FORMAT ModbusRequestFC6_cls))"

definition ModbusRequestFC6_serialize :: "int \<Rightarrow> int \<Rightarrow> bytes pyres" where
  "ModbusRequestFC6_serialize output_address output_value = except_raise is_ModbusPacketError ModbusPacketError
     (pdu_pack (ModbusRequestFC6_self output_address output_value) (fmt_raw (PDU_FORMAT ModbusRequestFC6_cls)))"

definition ModbusRequestFC6_deserialize :: "bytes \<Rightarrow> registers_pdu pyres" where
  "ModbusRequestFC6_deserialize stream = except_raise is_StructError ModbusPacketError
     (bindE (struct_unpack (fmt_raw (PDU_FORMAT ModbusRequestFC6_cls)) stream) (\<lambda>pdu.
        Inr (ModbusRequestFC6 (pdu ! 1) (pdu ! 2))))"

subsection \<open>\<open>ModbusResponseFC6\<close>\<close>

definition ModbusResponseFC6_cls :: pdu_class where
  "ModbusResponseFC6_cls = \<lparr>cls_name = ''ModbusResponseFC6'', LIMITS = [],
     PDU_FORMAT = PduFormat Big [UByte, UShort, UShort] None, PDU_ID = 0x8006,
     PDU_FIELDS = Some [''output_address'', ''output_value''], PDU_TAIL = None, PDU_COUNT = None\<rparr>"

definition ModbusResponseFC6_self :: "int \<Rightarrow> int \<Rightarrow> pdu_self" where
  "ModbusResponseFC6_self output_address output_value = \<lparr>self_class = ModbusResponseFC6_cls, self_fc = 0x06,
     self_ints = [(''output_address'', output_address), (''output_value'', output_value)],
     self_seqs = []\<rparr>"

definition ModbusResponseFC6_len :: "int \<Rightarrow> int \<Rightarrow> int pyres" where
  "ModbusResponseFC6_len output_address output_value = struct_calcsize (fmt_raw (PDU_FORMAT ModbusResponseFC6_cls))"

definition ModbusResponseFC6_serialize :: "int \<Rightarrow> int \<Rightarrow> bytes pyres" where
  "ModbusResponseFC6_serialize output_address output_value = except_raise is_ModbusPacketError ModbusPacketError
     (pdu_pack (ModbusResponseFC6_self output_address output_value) (fmt_raw (PDU_FORMAT ModbusResponseFC6_cls)))"

definition ModbusResponseFC6_deserialize :: "bytes \<Rightarrow> registers_pdu pyres" where
  "ModbusResponseFC6_deserialize stream = except_raise is_StructError ModbusPacketError
     (bindE (struct_unpack (fmt_raw (PDU_FORMAT ModbusResponseFC6_cls)) stream) (\<lambda>pdu.
        Inr (ModbusResponseFC6 (pdu ! 1) (pdu ! 2))))"

subsection \<open>\<open>ModbusRequestFC16\<close>\<close>

definition ModbusRequestFC16_cls :: pdu_class where
  "ModbusRequestFC16_cls = \<lparr>cls_name = ''ModbusRequestFC16'', LIMITS = [(''quantity'', 0x0001, 0x007B)],
     PDU_FORMAT = PduFormat Big [UByte, UShort, UShort, UByte] (Some UShort), PDU_ID = 0x0010,
     PDU_FIELDS = Some [''start_addr'', ''quantity'', ''byte_count''], PDU_TAIL = Some ''values'', PDU_COUNT = Some ''byte_count''\<rparr>"

definition ModbusRequestFC16_self :: "int \<Rightarrow> int \<Rightarrow> int \<Rightarrow> int list \<Rightarrow> pdu_self" where
  "ModbusRequestFC16_self start_addr quantity byte_count values = \<lparr>self_class = ModbusRequestFC16_cls, self_fc = 0x10,
     self_ints = [(''start_addr'', start_addr), (''quantity'', quantity), (''byte_count'', byte_count)],
     self_seqs = [(''values'', values)]\<rparr>"

definition ModbusRequestFC16_len :: "int \<Rightarrow> int \<Rightarrow> int \<Rightarrow> int list \<Rightarrow> int pyres" where
  "ModbusRequestFC16_len start_addr quantity byte_count values = struct_calcsize (fmt_format (PDU_FORMAT ModbusRequestFC16_cls) (int (length values)))"

definition ModbusRequestFC16_violations :: "int \<Rightarrow> int \<Rightarrow> int \<Rightarrow> int list \<Rightarrow> ModbusViolation list pyres" where
  "ModbusRequestFC16_violations start_addr quantity byte_count values = (let self = ModbusRequestFC16_self start_addr quantity byte_count values in
     bindE (pdu_violations self) (\<lambda>found.
     bindE (pdu_fixed_count self ''byte_count'' (2 * quantity) ''twice the quantity of registers'') (\<lambda>fixed.
       Inr (found @ fixed))))"

definition ModbusRequestFC16_serialize :: "int \<Rightarrow> int \<Rightarrow> int \<Rightarrow> int list \<Rightarrow> bytes pyres" where
  "ModbusRequestFC16_serialize start_addr quantity byte_count values = except_raise is_ModbusPacketError ModbusPacketError
     (pdu_pack (ModbusRequestFC16_self start_addr quantity byte_count values) (fmt_format (PDU_FORMAT ModbusRequestFC16_cls) (int (length values))))"

definition ModbusRequestFC16_deserialize :: "bytes \<Rightarrow> registers_pdu pyres" where
  "ModbusRequestFC16_deserialize stream = except_raise is_StructError ModbusPacketError
     (let reg_count = (int (length stream) - 6) div 2;
          fmt = fmt_format (PDU_FORMAT ModbusRequestFC16_cls) reg_count
      in bindE (struct_unpack fmt stream) (\<lambda>pdu.
           Inr (ModbusRequestFC16 (pdu ! 1) (pdu ! 2) (pdu ! 3) (drop 4 pdu))))"

subsection \<open>\<open>ModbusResponseFC16\<close>\<close>

definition ModbusResponseFC16_cls :: pdu_class where
  "ModbusResponseFC16_cls = \<lparr>cls_name = ''ModbusResponseFC16'', LIMITS = [(''quantity'', 0x0001, 0x007B)],
     PDU_FORMAT = PduFormat Big [UByte, UShort, UShort] None, PDU_ID = 0x8010,
     PDU_FIELDS = Some [''start_addr'', ''quantity''], PDU_TAIL = None, PDU_COUNT = None\<rparr>"

definition ModbusResponseFC16_self :: "int \<Rightarrow> int \<Rightarrow> pdu_self" where
  "ModbusResponseFC16_self start_addr quantity = \<lparr>self_class = ModbusResponseFC16_cls, self_fc = 0x10,
     self_ints = [(''start_addr'', start_addr), (''quantity'', quantity)],
     self_seqs = []\<rparr>"

definition ModbusResponseFC16_len :: "int \<Rightarrow> int \<Rightarrow> int pyres" where
  "ModbusResponseFC16_len start_addr quantity = struct_calcsize (fmt_raw (PDU_FORMAT ModbusResponseFC16_cls))"

definition ModbusResponseFC16_serialize :: "int \<Rightarrow> int \<Rightarrow> bytes pyres" where
  "ModbusResponseFC16_serialize start_addr quantity = except_raise is_ModbusPacketError ModbusPacketError
     (pdu_pack (ModbusResponseFC16_self start_addr quantity) (fmt_raw (PDU_FORMAT ModbusResponseFC16_cls)))"

definition ModbusResponseFC16_deserialize :: "bytes \<Rightarrow> registers_pdu pyres" where
  "ModbusResponseFC16_deserialize stream = except_raise is_StructError ModbusPacketError
     (bindE (struct_unpack (fmt_raw (PDU_FORMAT ModbusResponseFC16_cls)) stream) (\<lambda>pdu.
        Inr (ModbusResponseFC16 (pdu ! 1) (pdu ! 2))))"

subsection \<open>\<open>ModbusRequestFC22\<close>\<close>

definition ModbusRequestFC22_cls :: pdu_class where
  "ModbusRequestFC22_cls = \<lparr>cls_name = ''ModbusRequestFC22'', LIMITS = [],
     PDU_FORMAT = PduFormat Big [UByte, UShort, UShort, UShort] None, PDU_ID = 0x0016,
     PDU_FIELDS = Some [''ref_addr'', ''and_mask'', ''or_mask''], PDU_TAIL = None, PDU_COUNT = None\<rparr>"

definition ModbusRequestFC22_self :: "int \<Rightarrow> int \<Rightarrow> int \<Rightarrow> pdu_self" where
  "ModbusRequestFC22_self ref_addr and_mask or_mask = \<lparr>self_class = ModbusRequestFC22_cls, self_fc = 0x16,
     self_ints = [(''ref_addr'', ref_addr), (''and_mask'', and_mask), (''or_mask'', or_mask)],
     self_seqs = []\<rparr>"

definition ModbusRequestFC22_len :: "int \<Rightarrow> int \<Rightarrow> int \<Rightarrow> int pyres" where
  "ModbusRequestFC22_len ref_addr and_mask or_mask = struct_calcsize (fmt_raw (PDU_FORMAT ModbusRequestFC22_cls))"

definition ModbusRequestFC22_serialize :: "int \<Rightarrow> int \<Rightarrow> int \<Rightarrow> bytes pyres" where
  "ModbusRequestFC22_serialize ref_addr and_mask or_mask = except_raise is_ModbusPacketError ModbusPacketError
     (pdu_pack (ModbusRequestFC22_self ref_addr and_mask or_mask) (fmt_raw (PDU_FORMAT ModbusRequestFC22_cls)))"

definition ModbusRequestFC22_deserialize :: "bytes \<Rightarrow> registers_pdu pyres" where
  "ModbusRequestFC22_deserialize stream = except_raise is_StructError ModbusPacketError
     (bindE (struct_unpack (fmt_raw (PDU_FORMAT ModbusRequestFC22_cls)) stream) (\<lambda>pdu.
        Inr (ModbusRequestFC22 (pdu ! 1) (pdu ! 2) (pdu ! 3))))"

subsection \<open>\<open>ModbusResponseFC22\<close>\<close>

definition ModbusResponseFC22_cls :: pdu_class where
  "ModbusResponseFC22_cls = \<lparr>cls_name = ''ModbusResponseFC22'', LIMITS = [],
     PDU_FORMAT = PduFormat Big [UByte, UShort, UShort, UShort] None, PDU_ID = 0x8016,
     PDU_FIELDS = Some [''ref_addr'', ''and_mask'', ''or_mask''], PDU_TAIL = None, PDU_COUNT = None\<rparr>"

definition ModbusResponseFC22_self :: "int \<Rightarrow> int \<Rightarrow> int \<Rightarrow> pdu_self" where
  "ModbusResponseFC22_self ref_addr and_mask or_mask = \<lparr>self_class = ModbusResponseFC22_cls, self_fc = 0x16,
     self_ints = [(''ref_addr'', ref_addr), (''and_mask'', and_mask), (''or_mask'', or_mask)],
     self_seqs = []\<rparr>"

definition ModbusResponseFC22_len :: "int \<Rightarrow> int \<Rightarrow> int \<Rightarrow> int pyres" where
  "ModbusResponseFC22_len ref_addr and_mask or_mask = struct_calcsize (fmt_raw (PDU_FORMAT ModbusResponseFC22_cls))"

definition ModbusResponseFC22_serialize :: "int \<Rightarrow> int \<Rightarrow> int \<Rightarrow> bytes pyres" where
  "ModbusResponseFC22_serialize ref_addr and_mask or_mask = except_raise is_ModbusPacketError ModbusPacketError
     (pdu_pack (ModbusResponseFC22_self ref_addr and_mask or_mask) (fmt_raw (PDU_FORMAT ModbusResponseFC22_cls)))"

definition ModbusResponseFC22_deserialize :: "bytes \<Rightarrow> registers_pdu pyres" where
  "ModbusResponseFC22_deserialize stream = except_raise is_StructError ModbusPacketError
     (bindE (struct_unpack (fmt_raw (PDU_FORMAT ModbusResponseFC22_cls)) stream) (\<lambda>pdu.
        Inr (ModbusResponseFC22 (pdu ! 1) (pdu ! 2) (pdu ! 3))))"

subsection \<open>\<open>ModbusRequestFC23\<close>\<close>

definition ModbusRequestFC23_cls :: pdu_class where
  "ModbusRequestFC23_cls = \<lparr>cls_name = ''ModbusRequestFC23'', LIMITS = [(''read_quantity'', 0x0001, 0x007D), (''write_quantity'', 0x0001, 0x0079)],
     PDU_FORMAT = PduFormat Big [UByte, UShort, UShort, UShort, UShort, UByte] (Some UShort), PDU_ID = 0x0017,
     PDU_FIELDS = Some [''read_start_addr'', ''read_quantity'', ''write_start_addr'', ''write_quantity'', ''write_byte_count''], PDU_TAIL = Some ''write_values'', PDU_COUNT = Some ''write_byte_count''\<rparr>"

definition ModbusRequestFC23_self :: "int \<Rightarrow> int \<Rightarrow> int \<Rightarrow> int \<Rightarrow> int \<Rightarrow> int list \<Rightarrow> pdu_self" where
  "ModbusRequestFC23_self read_start_addr read_quantity write_start_addr write_quantity write_byte_count write_values = \<lparr>self_class = ModbusRequestFC23_cls, self_fc = 0x17,
     self_ints = [(''read_start_addr'', read_start_addr), (''read_quantity'', read_quantity), (''write_start_addr'', write_start_addr), (''write_quantity'', write_quantity), (''write_byte_count'', write_byte_count)],
     self_seqs = [(''write_values'', write_values)]\<rparr>"

definition ModbusRequestFC23_len :: "int \<Rightarrow> int \<Rightarrow> int \<Rightarrow> int \<Rightarrow> int \<Rightarrow> int list \<Rightarrow> int pyres" where
  "ModbusRequestFC23_len read_start_addr read_quantity write_start_addr write_quantity write_byte_count write_values = struct_calcsize (fmt_format (PDU_FORMAT ModbusRequestFC23_cls) (int (length write_values)))"

definition ModbusRequestFC23_violations :: "int \<Rightarrow> int \<Rightarrow> int \<Rightarrow> int \<Rightarrow> int \<Rightarrow> int list \<Rightarrow> ModbusViolation list pyres" where
  "ModbusRequestFC23_violations read_start_addr read_quantity write_start_addr write_quantity write_byte_count write_values = (let self = ModbusRequestFC23_self read_start_addr read_quantity write_start_addr write_quantity write_byte_count write_values in
     bindE (pdu_violations self) (\<lambda>found.
     bindE (pdu_fixed_count self ''write_byte_count'' (2 * write_quantity) ''twice the quantity of registers written'') (\<lambda>fixed.
       Inr (found @ fixed))))"

definition ModbusRequestFC23_serialize :: "int \<Rightarrow> int \<Rightarrow> int \<Rightarrow> int \<Rightarrow> int \<Rightarrow> int list \<Rightarrow> bytes pyres" where
  "ModbusRequestFC23_serialize read_start_addr read_quantity write_start_addr write_quantity write_byte_count write_values = except_raise is_ModbusPacketError ModbusPacketError
     (pdu_pack (ModbusRequestFC23_self read_start_addr read_quantity write_start_addr write_quantity write_byte_count write_values) (fmt_format (PDU_FORMAT ModbusRequestFC23_cls) (int (length write_values))))"

definition ModbusRequestFC23_deserialize :: "bytes \<Rightarrow> registers_pdu pyres" where
  "ModbusRequestFC23_deserialize stream = except_raise is_StructError ModbusPacketError
     (let reg_count = (int (length stream) - 10) div 2;
          fmt = fmt_format (PDU_FORMAT ModbusRequestFC23_cls) reg_count
      in bindE (struct_unpack fmt stream) (\<lambda>pdu.
           Inr (ModbusRequestFC23 (pdu ! 1) (pdu ! 2) (pdu ! 3) (pdu ! 4) (pdu ! 5) (drop 6 pdu))))"

subsection \<open>\<open>ModbusResponseFC23\<close>\<close>

definition ModbusResponseFC23_cls :: pdu_class where
  "ModbusResponseFC23_cls = \<lparr>cls_name = ''ModbusResponseFC23'', LIMITS = [],
     PDU_FORMAT = PduFormat Big [UByte, UByte] (Some UShort), PDU_ID = 0x8017,
     PDU_FIELDS = Some [''byte_count''], PDU_TAIL = Some ''values'', PDU_COUNT = Some ''byte_count''\<rparr>"

definition ModbusResponseFC23_self :: "int \<Rightarrow> int list \<Rightarrow> pdu_self" where
  "ModbusResponseFC23_self byte_count values = \<lparr>self_class = ModbusResponseFC23_cls, self_fc = 0x17,
     self_ints = [(''byte_count'', byte_count)],
     self_seqs = [(''values'', values)]\<rparr>"

definition ModbusResponseFC23_len :: "int \<Rightarrow> int list \<Rightarrow> int pyres" where
  "ModbusResponseFC23_len byte_count values = struct_calcsize (fmt_format (PDU_FORMAT ModbusResponseFC23_cls) (int (length values)))"

definition ModbusResponseFC23_violations :: "int \<Rightarrow> int list \<Rightarrow> ModbusViolation list pyres" where
  "ModbusResponseFC23_violations byte_count values = (let self = ModbusResponseFC23_self byte_count values in
     bindE (pdu_violations self) (\<lambda>found.
     bindE (pdu_fixed_count self ''byte_count'' (2 * int (length values)) ''twice the registers read'') (\<lambda>fixed.
       Inr (found @ fixed))))"

definition ModbusResponseFC23_serialize :: "int \<Rightarrow> int list \<Rightarrow> bytes pyres" where
  "ModbusResponseFC23_serialize byte_count values = except_raise is_ModbusPacketError ModbusPacketError
     (pdu_pack (ModbusResponseFC23_self byte_count values) (fmt_format (PDU_FORMAT ModbusResponseFC23_cls) (int (length values))))"

definition ModbusResponseFC23_deserialize :: "bytes \<Rightarrow> registers_pdu pyres" where
  "ModbusResponseFC23_deserialize stream = except_raise is_StructError ModbusPacketError
     (let reg_count = (int (length stream) - 2) div 2;
          fmt = fmt_format (PDU_FORMAT ModbusResponseFC23_cls) reg_count
      in bindE (struct_unpack fmt stream) (\<lambda>pdu.
           Inr (ModbusResponseFC23 (pdu ! 1) (drop 2 pdu))))"

section \<open>Dynamic dispatch over the module's classes\<close>

datatype registers_class = RequestFC3_t | ResponseFC3_t | RequestFC4_t | ResponseFC4_t | RequestFC6_t | ResponseFC6_t | RequestFC16_t | ResponseFC16_t | RequestFC22_t | ResponseFC22_t | RequestFC23_t | ResponseFC23_t

fun registers_class_of :: "registers_pdu \<Rightarrow> registers_class" where
  "registers_class_of (ModbusRequestFC3 _ _) = RequestFC3_t"
| "registers_class_of (ModbusResponseFC3 _ _) = ResponseFC3_t"
| "registers_class_of (ModbusRequestFC4 _ _) = RequestFC4_t"
| "registers_class_of (ModbusResponseFC4 _ _) = ResponseFC4_t"
| "registers_class_of (ModbusRequestFC6 _ _) = RequestFC6_t"
| "registers_class_of (ModbusResponseFC6 _ _) = ResponseFC6_t"
| "registers_class_of (ModbusRequestFC16 _ _ _ _) = RequestFC16_t"
| "registers_class_of (ModbusResponseFC16 _ _) = ResponseFC16_t"
| "registers_class_of (ModbusRequestFC22 _ _ _) = RequestFC22_t"
| "registers_class_of (ModbusResponseFC22 _ _ _) = ResponseFC22_t"
| "registers_class_of (ModbusRequestFC23 _ _ _ _ _ _) = RequestFC23_t"
| "registers_class_of (ModbusResponseFC23 _ _) = ResponseFC23_t"

fun registers_decl :: "registers_class \<Rightarrow> pdu_class" where
  "registers_decl RequestFC3_t = ModbusRequestFC3_cls"
| "registers_decl ResponseFC3_t = ModbusResponseFC3_cls"
| "registers_decl RequestFC4_t = ModbusRequestFC4_cls"
| "registers_decl ResponseFC4_t = ModbusResponseFC4_cls"
| "registers_decl RequestFC6_t = ModbusRequestFC6_cls"
| "registers_decl ResponseFC6_t = ModbusResponseFC6_cls"
| "registers_decl RequestFC16_t = ModbusRequestFC16_cls"
| "registers_decl ResponseFC16_t = ModbusResponseFC16_cls"
| "registers_decl RequestFC22_t = ModbusRequestFC22_cls"
| "registers_decl ResponseFC22_t = ModbusResponseFC22_cls"
| "registers_decl RequestFC23_t = ModbusRequestFC23_cls"
| "registers_decl ResponseFC23_t = ModbusResponseFC23_cls"

fun registers_self :: "registers_pdu \<Rightarrow> pdu_self" where
  "registers_self (ModbusRequestFC3 start_addr quantity) = ModbusRequestFC3_self start_addr quantity"
| "registers_self (ModbusResponseFC3 byte_count values) = ModbusResponseFC3_self byte_count values"
| "registers_self (ModbusRequestFC4 start_addr quantity) = ModbusRequestFC4_self start_addr quantity"
| "registers_self (ModbusResponseFC4 byte_count values) = ModbusResponseFC4_self byte_count values"
| "registers_self (ModbusRequestFC6 output_address output_value) = ModbusRequestFC6_self output_address output_value"
| "registers_self (ModbusResponseFC6 output_address output_value) = ModbusResponseFC6_self output_address output_value"
| "registers_self (ModbusRequestFC16 start_addr quantity byte_count values) = ModbusRequestFC16_self start_addr quantity byte_count values"
| "registers_self (ModbusResponseFC16 start_addr quantity) = ModbusResponseFC16_self start_addr quantity"
| "registers_self (ModbusRequestFC22 ref_addr and_mask or_mask) = ModbusRequestFC22_self ref_addr and_mask or_mask"
| "registers_self (ModbusResponseFC22 ref_addr and_mask or_mask) = ModbusResponseFC22_self ref_addr and_mask or_mask"
| "registers_self (ModbusRequestFC23 read_start_addr read_quantity write_start_addr write_quantity write_byte_count write_values) = ModbusRequestFC23_self read_start_addr read_quantity write_start_addr write_quantity write_byte_count write_values"
| "registers_self (ModbusResponseFC23 byte_count values) = ModbusResponseFC23_self byte_count values"

fun registers_len :: "registers_pdu \<Rightarrow> int pyres" where
  "registers_len (ModbusRequestFC3 start_addr quantity) = ModbusRequestFC3_len start_addr quantity"
| "registers_len (ModbusResponseFC3 byte_count values) = ModbusResponseFC3_len byte_count values"
| "registers_len (ModbusRequestFC4 start_addr quantity) = ModbusRequestFC4_len start_addr quantity"
| "registers_len (ModbusResponseFC4 byte_count values) = ModbusResponseFC4_len byte_count values"
| "registers_len (ModbusRequestFC6 output_address output_value) = ModbusRequestFC6_len output_address output_value"
| "registers_len (ModbusResponseFC6 output_address output_value) = ModbusResponseFC6_len output_address output_value"
| "registers_len (ModbusRequestFC16 start_addr quantity byte_count values) = ModbusRequestFC16_len start_addr quantity byte_count values"
| "registers_len (ModbusResponseFC16 start_addr quantity) = ModbusResponseFC16_len start_addr quantity"
| "registers_len (ModbusRequestFC22 ref_addr and_mask or_mask) = ModbusRequestFC22_len ref_addr and_mask or_mask"
| "registers_len (ModbusResponseFC22 ref_addr and_mask or_mask) = ModbusResponseFC22_len ref_addr and_mask or_mask"
| "registers_len (ModbusRequestFC23 read_start_addr read_quantity write_start_addr write_quantity write_byte_count write_values) = ModbusRequestFC23_len read_start_addr read_quantity write_start_addr write_quantity write_byte_count write_values"
| "registers_len (ModbusResponseFC23 byte_count values) = ModbusResponseFC23_len byte_count values"

fun registers_violations :: "registers_pdu \<Rightarrow> ModbusViolation list pyres" where
  "registers_violations (ModbusRequestFC3 start_addr quantity) = pdu_violations (ModbusRequestFC3_self start_addr quantity)"
| "registers_violations (ModbusResponseFC3 byte_count values) = ModbusResponseFC3_violations byte_count values"
| "registers_violations (ModbusRequestFC4 start_addr quantity) = pdu_violations (ModbusRequestFC4_self start_addr quantity)"
| "registers_violations (ModbusResponseFC4 byte_count values) = ModbusResponseFC4_violations byte_count values"
| "registers_violations (ModbusRequestFC6 output_address output_value) = pdu_violations (ModbusRequestFC6_self output_address output_value)"
| "registers_violations (ModbusResponseFC6 output_address output_value) = pdu_violations (ModbusResponseFC6_self output_address output_value)"
| "registers_violations (ModbusRequestFC16 start_addr quantity byte_count values) = ModbusRequestFC16_violations start_addr quantity byte_count values"
| "registers_violations (ModbusResponseFC16 start_addr quantity) = pdu_violations (ModbusResponseFC16_self start_addr quantity)"
| "registers_violations (ModbusRequestFC22 ref_addr and_mask or_mask) = pdu_violations (ModbusRequestFC22_self ref_addr and_mask or_mask)"
| "registers_violations (ModbusResponseFC22 ref_addr and_mask or_mask) = pdu_violations (ModbusResponseFC22_self ref_addr and_mask or_mask)"
| "registers_violations (ModbusRequestFC23 read_start_addr read_quantity write_start_addr write_quantity write_byte_count write_values) = ModbusRequestFC23_violations read_start_addr read_quantity write_start_addr write_quantity write_byte_count write_values"
| "registers_violations (ModbusResponseFC23 byte_count values) = ModbusResponseFC23_violations byte_count values"

fun registers_serialize :: "registers_pdu \<Rightarrow> bytes pyres" where
  "registers_serialize (ModbusRequestFC3 start_addr quantity) = ModbusRequestFC3_serialize start_addr quantity"
| "registers_serialize (ModbusResponseFC3 byte_count values) = ModbusResponseFC3_serialize byte_count values"
| "registers_serialize (ModbusRequestFC4 start_addr quantity) = ModbusRequestFC4_serialize start_addr quantity"
| "registers_serialize (ModbusResponseFC4 byte_count values) = ModbusResponseFC4_serialize byte_count values"
| "registers_serialize (ModbusRequestFC6 output_address output_value) = ModbusRequestFC6_serialize output_address output_value"
| "registers_serialize (ModbusResponseFC6 output_address output_value) = ModbusResponseFC6_serialize output_address output_value"
| "registers_serialize (ModbusRequestFC16 start_addr quantity byte_count values) = ModbusRequestFC16_serialize start_addr quantity byte_count values"
| "registers_serialize (ModbusResponseFC16 start_addr quantity) = ModbusResponseFC16_serialize start_addr quantity"
| "registers_serialize (ModbusRequestFC22 ref_addr and_mask or_mask) = ModbusRequestFC22_serialize ref_addr and_mask or_mask"
| "registers_serialize (ModbusResponseFC22 ref_addr and_mask or_mask) = ModbusResponseFC22_serialize ref_addr and_mask or_mask"
| "registers_serialize (ModbusRequestFC23 read_start_addr read_quantity write_start_addr write_quantity write_byte_count write_values) = ModbusRequestFC23_serialize read_start_addr read_quantity write_start_addr write_quantity write_byte_count write_values"
| "registers_serialize (ModbusResponseFC23 byte_count values) = ModbusResponseFC23_serialize byte_count values"

fun registers_deserialize :: "registers_class \<Rightarrow> bytes \<Rightarrow> registers_pdu pyres" where
  "registers_deserialize RequestFC3_t s = ModbusRequestFC3_deserialize s"
| "registers_deserialize ResponseFC3_t s = ModbusResponseFC3_deserialize s"
| "registers_deserialize RequestFC4_t s = ModbusRequestFC4_deserialize s"
| "registers_deserialize ResponseFC4_t s = ModbusResponseFC4_deserialize s"
| "registers_deserialize RequestFC6_t s = ModbusRequestFC6_deserialize s"
| "registers_deserialize ResponseFC6_t s = ModbusResponseFC6_deserialize s"
| "registers_deserialize RequestFC16_t s = ModbusRequestFC16_deserialize s"
| "registers_deserialize ResponseFC16_t s = ModbusResponseFC16_deserialize s"
| "registers_deserialize RequestFC22_t s = ModbusRequestFC22_deserialize s"
| "registers_deserialize ResponseFC22_t s = ModbusResponseFC22_deserialize s"
| "registers_deserialize RequestFC23_t s = ModbusRequestFC23_deserialize s"
| "registers_deserialize ResponseFC23_t s = ModbusResponseFC23_deserialize s"

lemmas [pdu_defs] =
  ModbusRequestFC3_cls_def ModbusRequestFC3_self_def
  ModbusResponseFC3_cls_def ModbusResponseFC3_self_def
  ModbusRequestFC4_cls_def ModbusRequestFC4_self_def
  ModbusResponseFC4_cls_def ModbusResponseFC4_self_def
  ModbusRequestFC6_cls_def ModbusRequestFC6_self_def
  ModbusResponseFC6_cls_def ModbusResponseFC6_self_def
  ModbusRequestFC16_cls_def ModbusRequestFC16_self_def
  ModbusResponseFC16_cls_def ModbusResponseFC16_self_def
  ModbusRequestFC22_cls_def ModbusRequestFC22_self_def
  ModbusResponseFC22_cls_def ModbusResponseFC22_self_def
  ModbusRequestFC23_cls_def ModbusRequestFC23_self_def
  ModbusResponseFC23_cls_def ModbusResponseFC23_self_def

section \<open>What each class packs\<close>

lemma ModbusRequestFC3_data [simp]: "pdu_data (ModbusRequestFC3_self start_addr quantity) = Inr ([start_addr, quantity])"
  by (simp add: pdu_data_def int_attr_def seq_attr_def pdu_defs)

lemma ModbusResponseFC3_data [simp]: "pdu_data (ModbusResponseFC3_self byte_count values) = Inr ([byte_count] @ values)"
  by (simp add: pdu_data_def int_attr_def seq_attr_def pdu_defs)

lemma ModbusRequestFC4_data [simp]: "pdu_data (ModbusRequestFC4_self start_addr quantity) = Inr ([start_addr, quantity])"
  by (simp add: pdu_data_def int_attr_def seq_attr_def pdu_defs)

lemma ModbusResponseFC4_data [simp]: "pdu_data (ModbusResponseFC4_self byte_count values) = Inr ([byte_count] @ values)"
  by (simp add: pdu_data_def int_attr_def seq_attr_def pdu_defs)

lemma ModbusRequestFC6_data [simp]: "pdu_data (ModbusRequestFC6_self output_address output_value) = Inr ([output_address, output_value])"
  by (simp add: pdu_data_def int_attr_def seq_attr_def pdu_defs)

lemma ModbusResponseFC6_data [simp]: "pdu_data (ModbusResponseFC6_self output_address output_value) = Inr ([output_address, output_value])"
  by (simp add: pdu_data_def int_attr_def seq_attr_def pdu_defs)

lemma ModbusRequestFC16_data [simp]: "pdu_data (ModbusRequestFC16_self start_addr quantity byte_count values) = Inr ([start_addr, quantity, byte_count] @ values)"
  by (simp add: pdu_data_def int_attr_def seq_attr_def pdu_defs)

lemma ModbusResponseFC16_data [simp]: "pdu_data (ModbusResponseFC16_self start_addr quantity) = Inr ([start_addr, quantity])"
  by (simp add: pdu_data_def int_attr_def seq_attr_def pdu_defs)

lemma ModbusRequestFC22_data [simp]: "pdu_data (ModbusRequestFC22_self ref_addr and_mask or_mask) = Inr ([ref_addr, and_mask, or_mask])"
  by (simp add: pdu_data_def int_attr_def seq_attr_def pdu_defs)

lemma ModbusResponseFC22_data [simp]: "pdu_data (ModbusResponseFC22_self ref_addr and_mask or_mask) = Inr ([ref_addr, and_mask, or_mask])"
  by (simp add: pdu_data_def int_attr_def seq_attr_def pdu_defs)

lemma ModbusRequestFC23_data [simp]: "pdu_data (ModbusRequestFC23_self read_start_addr read_quantity write_start_addr write_quantity write_byte_count write_values) = Inr ([read_start_addr, read_quantity, write_start_addr, write_quantity, write_byte_count] @ write_values)"
  by (simp add: pdu_data_def int_attr_def seq_attr_def pdu_defs)

lemma ModbusResponseFC23_data [simp]: "pdu_data (ModbusResponseFC23_self byte_count values) = Inr ([byte_count] @ values)"
  by (simp add: pdu_data_def int_attr_def seq_attr_def pdu_defs)

lemma ModbusRequestFC3_serialize_eq:
  "ModbusRequestFC3_serialize start_addr quantity = except_raise is_StructError ModbusPacketError
     (struct_pack (fmt_raw (PduFormat Big [UByte, UShort, UShort] None)) ([0x03, start_addr, quantity]))"
  by (simp add: ModbusRequestFC3_serialize_def pdu_serialize_eq) (simp add: pdu_defs)

lemma ModbusResponseFC3_serialize_eq:
  "ModbusResponseFC3_serialize byte_count values = except_raise is_StructError ModbusPacketError
     (struct_pack (fmt_format (PduFormat Big [UByte, UByte] (Some UShort)) (int (length values))) (0x03 # byte_count # values))"
  by (simp add: ModbusResponseFC3_serialize_def pdu_serialize_eq) (simp add: pdu_defs)

lemma ModbusRequestFC4_serialize_eq:
  "ModbusRequestFC4_serialize start_addr quantity = except_raise is_StructError ModbusPacketError
     (struct_pack (fmt_raw (PduFormat Big [UByte, UShort, UShort] None)) ([0x04, start_addr, quantity]))"
  by (simp add: ModbusRequestFC4_serialize_def pdu_serialize_eq) (simp add: pdu_defs)

lemma ModbusResponseFC4_serialize_eq:
  "ModbusResponseFC4_serialize byte_count values = except_raise is_StructError ModbusPacketError
     (struct_pack (fmt_format (PduFormat Big [UByte, UByte] (Some UShort)) (int (length values))) (0x04 # byte_count # values))"
  by (simp add: ModbusResponseFC4_serialize_def pdu_serialize_eq) (simp add: pdu_defs)

lemma ModbusRequestFC6_serialize_eq:
  "ModbusRequestFC6_serialize output_address output_value = except_raise is_StructError ModbusPacketError
     (struct_pack (fmt_raw (PduFormat Big [UByte, UShort, UShort] None)) ([0x06, output_address, output_value]))"
  by (simp add: ModbusRequestFC6_serialize_def pdu_serialize_eq) (simp add: pdu_defs)

lemma ModbusResponseFC6_serialize_eq:
  "ModbusResponseFC6_serialize output_address output_value = except_raise is_StructError ModbusPacketError
     (struct_pack (fmt_raw (PduFormat Big [UByte, UShort, UShort] None)) ([0x06, output_address, output_value]))"
  by (simp add: ModbusResponseFC6_serialize_def pdu_serialize_eq) (simp add: pdu_defs)

lemma ModbusRequestFC16_serialize_eq:
  "ModbusRequestFC16_serialize start_addr quantity byte_count values = except_raise is_StructError ModbusPacketError
     (struct_pack (fmt_format (PduFormat Big [UByte, UShort, UShort, UByte] (Some UShort)) (int (length values))) (0x10 # start_addr # quantity # byte_count # values))"
  by (simp add: ModbusRequestFC16_serialize_def pdu_serialize_eq) (simp add: pdu_defs)

lemma ModbusResponseFC16_serialize_eq:
  "ModbusResponseFC16_serialize start_addr quantity = except_raise is_StructError ModbusPacketError
     (struct_pack (fmt_raw (PduFormat Big [UByte, UShort, UShort] None)) ([0x10, start_addr, quantity]))"
  by (simp add: ModbusResponseFC16_serialize_def pdu_serialize_eq) (simp add: pdu_defs)

lemma ModbusRequestFC22_serialize_eq:
  "ModbusRequestFC22_serialize ref_addr and_mask or_mask = except_raise is_StructError ModbusPacketError
     (struct_pack (fmt_raw (PduFormat Big [UByte, UShort, UShort, UShort] None)) ([0x16, ref_addr, and_mask, or_mask]))"
  by (simp add: ModbusRequestFC22_serialize_def pdu_serialize_eq) (simp add: pdu_defs)

lemma ModbusResponseFC22_serialize_eq:
  "ModbusResponseFC22_serialize ref_addr and_mask or_mask = except_raise is_StructError ModbusPacketError
     (struct_pack (fmt_raw (PduFormat Big [UByte, UShort, UShort, UShort] None)) ([0x16, ref_addr, and_mask, or_mask]))"
  by (simp add: ModbusResponseFC22_serialize_def pdu_serialize_eq) (simp add: pdu_defs)

lemma ModbusRequestFC23_serialize_eq:
  "ModbusRequestFC23_serialize read_start_addr read_quantity write_start_addr write_quantity write_byte_count write_values = except_raise is_StructError ModbusPacketError
     (struct_pack (fmt_format (PduFormat Big [UByte, UShort, UShort, UShort, UShort, UByte] (Some UShort)) (int (length write_values))) (0x17 # read_start_addr # read_quantity # write_start_addr # write_quantity # write_byte_count # write_values))"
  by (simp add: ModbusRequestFC23_serialize_def pdu_serialize_eq) (simp add: pdu_defs)

lemma ModbusResponseFC23_serialize_eq:
  "ModbusResponseFC23_serialize byte_count values = except_raise is_StructError ModbusPacketError
     (struct_pack (fmt_format (PduFormat Big [UByte, UByte] (Some UShort)) (int (length values))) (0x17 # byte_count # values))"
  by (simp add: ModbusResponseFC23_serialize_def pdu_serialize_eq) (simp add: pdu_defs)

lemmas registers_serialize_eqs =
  ModbusRequestFC3_serialize_eq
  ModbusResponseFC3_serialize_eq
  ModbusRequestFC4_serialize_eq
  ModbusResponseFC4_serialize_eq
  ModbusRequestFC6_serialize_eq
  ModbusResponseFC6_serialize_eq
  ModbusRequestFC16_serialize_eq
  ModbusResponseFC16_serialize_eq
  ModbusRequestFC22_serialize_eq
  ModbusResponseFC22_serialize_eq
  ModbusRequestFC23_serialize_eq
  ModbusResponseFC23_serialize_eq

lemmas registers_deserialize_defs =
  ModbusRequestFC3_deserialize_def
  ModbusResponseFC3_deserialize_def
  ModbusRequestFC4_deserialize_def
  ModbusResponseFC4_deserialize_def
  ModbusRequestFC6_deserialize_def
  ModbusResponseFC6_deserialize_def
  ModbusRequestFC16_deserialize_def
  ModbusResponseFC16_deserialize_def
  ModbusRequestFC22_deserialize_def
  ModbusResponseFC22_deserialize_def
  ModbusRequestFC23_deserialize_def
  ModbusResponseFC23_deserialize_def

lemmas registers_len_defs =
  ModbusRequestFC3_len_def
  ModbusResponseFC3_len_def
  ModbusRequestFC4_len_def
  ModbusResponseFC4_len_def
  ModbusRequestFC6_len_def
  ModbusResponseFC6_len_def
  ModbusRequestFC16_len_def
  ModbusResponseFC16_len_def
  ModbusRequestFC22_len_def
  ModbusResponseFC22_len_def
  ModbusRequestFC23_len_def
  ModbusResponseFC23_len_def

lemmas registers_cls_defs =
  ModbusRequestFC3_cls_def
  ModbusResponseFC3_cls_def
  ModbusRequestFC4_cls_def
  ModbusResponseFC4_cls_def
  ModbusRequestFC6_cls_def
  ModbusResponseFC6_cls_def
  ModbusRequestFC16_cls_def
  ModbusResponseFC16_cls_def
  ModbusRequestFC22_cls_def
  ModbusResponseFC22_cls_def
  ModbusRequestFC23_cls_def
  ModbusResponseFC23_cls_def

section \<open>The codec promises\<close>

lemma registers_des_ser: "registers_serialize p = Inr s \<Longrightarrow> registers_deserialize (registers_class_of p) s = Inr p"
  by (cases p)
    (auto simp: registers_serialize_eqs registers_deserialize_defs registers_cls_defs res_simps
      dest!: struct_unpack_pack [of "fmt_raw _"] unpack_repeat_bytes unpack_repeat_shorts)

lemma registers_ser_len: "registers_serialize p = Inr s \<Longrightarrow> registers_len p = Inr (int (length s))"
  by (cases p)
    (auto simp: registers_serialize_eqs registers_len_defs registers_cls_defs res_simps dest!: struct_pack_length)

lemma registers_deserialize_class: "registers_deserialize c s = Inr p \<Longrightarrow> registers_class_of p = c"
  by (cases c) (auto simp: registers_deserialize_defs res_simps)

lemma registers_serialize_hd: "registers_serialize p = Inr s \<Longrightarrow> s \<noteq> [] \<and> uint (hd s) = self_fc (registers_self p)"
  by (cases p) (auto simp: registers_serialize_eqs res_simps pdu_defs dest!: pack_raw_hd pack_format_hd)

lemma registers_serialize_raises: "raises_only is_ModbusPacketError (registers_serialize p)"
  by (cases p) (auto simp: registers_serialize_eqs intro!: raises_intros)

lemma registers_deserialize_raises: "raises_only is_ModbusPacketError (registers_deserialize c s)"
  by (cases c) (auto simp: registers_deserialize_defs Let_def intro!: raises_intros)

lemma registers_ser_des:
  assumes "registers_deserialize c s = Inr p" and "uint (hd s) = self_fc (registers_self p)"
  shows "registers_serialize p = Inr s"
  using assms
  by (cases c)
    (auto simp: registers_deserialize_defs registers_serialize_eqs registers_cls_defs pdu_defs res_simps
      length_Suc_conv numeral_eq_Suc
      dest!: unpack_fixed_shape unpack_repeat_shape)

interpretation registers_codec: sized_codec registers_serialize "registers_deserialize c" "\<lambda>p. registers_class_of p = c" registers_len for c
  by unfold_locales (auto dest: registers_des_ser registers_ser_len)

end
