(* ===== verification/Pdu_Diagnostics.thy ===== *)
theory Pdu_Diagnostics imports Pdu_Common begin

text \<open>
  \<open>src/pyomb/pdu/diagnostics.py\<close>: the exception status poll and the Diagnostics loopback, whose
  layout carries a sub-function instead of a count and is sized by a table of its own.
\<close>

section \<open>The sub-function table\<close>

definition DIAGNOSTIC_SUB_FUNCTIONS :: "int list" where
  "DIAGNOSTIC_SUB_FUNCTIONS =
     [0x00, 0x01, 0x02, 0x03, 0x04, 0x0A, 0x0B, 0x0C, 0x0D, 0x0E, 0x0F, 0x10, 0x11, 0x12, 0x14]"

definition DIAGNOSTIC_SUB_FUNCTION_RULE :: string where
  "DIAGNOSTIC_SUB_FUNCTION_RULE = ''0x0000 to 0x0004, 0x000A to 0x0012, or 0x0014''"

definition DIAGNOSTIC_ECHO_SUB_FUNCTION :: int where
  "DIAGNOSTIC_ECHO_SUB_FUNCTION = 0x0000"

definition DIAGNOSTIC_SIZE :: "int pyres" where
  "DIAGNOSTIC_SIZE = struct_calcsize (StructFmt Big [UByte, UShort, UShort] None)"

definition diagnostic_size_from_prefix :: "bytes \<Rightarrow> int option pyres" where
  "diagnostic_size_from_prefix prefix =
     bindE (struct_calcsize (StructFmt Big [UByte, UShort] None)) (\<lambda>head.
       if int (length prefix) < head then Inr None
       else bindE (struct_unpack (StructFmt Big [UShort] None) (drop 1 (take (nat head) prefix))) (\<lambda>vs.
         let sub_func = vs ! 0
         in if sub_func = DIAGNOSTIC_ECHO_SUB_FUNCTION then Inl ModbusPacketError
            else if sub_func \<notin> set DIAGNOSTIC_SUB_FUNCTIONS then Inl ModbusPacketError
            else bindE DIAGNOSTIC_SIZE (\<lambda>n. Inr (Some n))))"

section \<open>The classes\<close>

datatype diagnostics_pdu =
    ModbusRequestFC7
  | ModbusResponseFC7 int
  | ModbusRequestFC8 int "int list"
  | ModbusResponseFC8 int "int list"

subsection \<open>\<open>ModbusRequestFC7\<close>\<close>

definition ModbusRequestFC7_cls :: pdu_class where
  "ModbusRequestFC7_cls = \<lparr>cls_name = ''ModbusRequestFC7'', LIMITS = [],
     PDU_FORMAT = PduFormat Big [UByte] None, PDU_ID = 0x0007,
     PDU_FIELDS = Some [], PDU_TAIL = None, PDU_COUNT = None\<rparr>"

definition ModbusRequestFC7_self :: "pdu_self" where
  "ModbusRequestFC7_self = \<lparr>self_class = ModbusRequestFC7_cls, self_fc = 0x07,
     self_ints = [],
     self_seqs = []\<rparr>"

definition ModbusRequestFC7_len :: "int pyres" where
  "ModbusRequestFC7_len = struct_calcsize (fmt_raw (PDU_FORMAT ModbusRequestFC7_cls))"

definition ModbusRequestFC7_serialize :: "bytes pyres" where
  "ModbusRequestFC7_serialize = except_raise is_ModbusPacketError ModbusPacketError
     (pdu_pack (ModbusRequestFC7_self) (fmt_raw (PDU_FORMAT ModbusRequestFC7_cls)))"

definition ModbusRequestFC7_deserialize :: "bytes \<Rightarrow> diagnostics_pdu pyres" where
  "ModbusRequestFC7_deserialize stream = except_raise is_StructError ModbusPacketError
     (bindE (struct_unpack (fmt_raw (PDU_FORMAT ModbusRequestFC7_cls)) stream) (\<lambda>_.
        Inr ModbusRequestFC7))"

subsection \<open>\<open>ModbusResponseFC7\<close>\<close>

definition ModbusResponseFC7_cls :: pdu_class where
  "ModbusResponseFC7_cls = \<lparr>cls_name = ''ModbusResponseFC7'', LIMITS = [],
     PDU_FORMAT = PduFormat Big [UByte, UByte] None, PDU_ID = 0x8007,
     PDU_FIELDS = Some [''status''], PDU_TAIL = None, PDU_COUNT = None\<rparr>"

definition ModbusResponseFC7_self :: "int \<Rightarrow> pdu_self" where
  "ModbusResponseFC7_self status = \<lparr>self_class = ModbusResponseFC7_cls, self_fc = 0x07,
     self_ints = [(''status'', status)],
     self_seqs = []\<rparr>"

definition ModbusResponseFC7_len :: "int \<Rightarrow> int pyres" where
  "ModbusResponseFC7_len status = struct_calcsize (fmt_raw (PDU_FORMAT ModbusResponseFC7_cls))"

definition ModbusResponseFC7_serialize :: "int \<Rightarrow> bytes pyres" where
  "ModbusResponseFC7_serialize status = except_raise is_ModbusPacketError ModbusPacketError
     (pdu_pack (ModbusResponseFC7_self status) (fmt_raw (PDU_FORMAT ModbusResponseFC7_cls)))"

definition ModbusResponseFC7_deserialize :: "bytes \<Rightarrow> diagnostics_pdu pyres" where
  "ModbusResponseFC7_deserialize stream = except_raise is_StructError ModbusPacketError
     (bindE (struct_unpack (fmt_raw (PDU_FORMAT ModbusResponseFC7_cls)) stream) (\<lambda>pdu.
        Inr (ModbusResponseFC7 (pdu ! 1))))"

subsection \<open>\<open>ModbusRequestFC8\<close>\<close>

definition ModbusRequestFC8_cls :: pdu_class where
  "ModbusRequestFC8_cls = \<lparr>cls_name = ''ModbusRequestFC8'', LIMITS = [],
     PDU_FORMAT = PduFormat Big [UByte, UShort] (Some UShort), PDU_ID = 0x0008,
     PDU_FIELDS = Some [''sub_func''], PDU_TAIL = Some ''subfunc_data'', PDU_COUNT = None\<rparr>"

definition ModbusRequestFC8_self :: "int \<Rightarrow> int list \<Rightarrow> pdu_self" where
  "ModbusRequestFC8_self sub_func subfunc_data = \<lparr>self_class = ModbusRequestFC8_cls, self_fc = 0x08,
     self_ints = [(''sub_func'', sub_func)],
     self_seqs = [(''subfunc_data'', subfunc_data)]\<rparr>"

definition ModbusRequestFC8_len :: "int \<Rightarrow> int list \<Rightarrow> int pyres" where
  "ModbusRequestFC8_len sub_func subfunc_data = struct_calcsize (fmt_format (PDU_FORMAT ModbusRequestFC8_cls) (int (length subfunc_data)))"

definition ModbusRequestFC8_violations :: "int \<Rightarrow> int list \<Rightarrow> ModbusViolation list pyres" where
  "ModbusRequestFC8_violations sub_func subfunc_data = (let self = ModbusRequestFC8_self sub_func subfunc_data in
     bindE (pdu_violations self) (\<lambda>found.
       if sub_func \<notin> set DIAGNOSTIC_SUB_FUNCTIONS
       then bindE (pdu_finding self ''sub_func'' DIAGNOSTIC_SUB_FUNCTION_RULE) (\<lambda>v. Inr (found @ [v]))
       else Inr found))"

definition ModbusRequestFC8_serialize :: "int \<Rightarrow> int list \<Rightarrow> bytes pyres" where
  "ModbusRequestFC8_serialize sub_func subfunc_data = except_raise is_ModbusPacketError ModbusPacketError
     (pdu_pack (ModbusRequestFC8_self sub_func subfunc_data) (fmt_format (PDU_FORMAT ModbusRequestFC8_cls) (int (length subfunc_data))))"

definition ModbusRequestFC8_deserialize :: "bytes \<Rightarrow> diagnostics_pdu pyres" where
  "ModbusRequestFC8_deserialize stream = except_raise is_StructError ModbusPacketError
     (let data_count = (int (length stream) - 3) div 2;
          fmt = fmt_format (PDU_FORMAT ModbusRequestFC8_cls) data_count
      in bindE (struct_unpack fmt stream) (\<lambda>pdu.
           Inr (ModbusRequestFC8 (pdu ! 1) (drop 2 pdu))))"

subsection \<open>\<open>ModbusResponseFC8\<close>\<close>

definition ModbusResponseFC8_cls :: pdu_class where
  "ModbusResponseFC8_cls = \<lparr>cls_name = ''ModbusResponseFC8'', LIMITS = [],
     PDU_FORMAT = PduFormat Big [UByte, UShort] (Some UShort), PDU_ID = 0x8008,
     PDU_FIELDS = Some [''sub_func''], PDU_TAIL = Some ''subfunc_data'', PDU_COUNT = None\<rparr>"

definition ModbusResponseFC8_self :: "int \<Rightarrow> int list \<Rightarrow> pdu_self" where
  "ModbusResponseFC8_self sub_func subfunc_data = \<lparr>self_class = ModbusResponseFC8_cls, self_fc = 0x08,
     self_ints = [(''sub_func'', sub_func)],
     self_seqs = [(''subfunc_data'', subfunc_data)]\<rparr>"

definition ModbusResponseFC8_len :: "int \<Rightarrow> int list \<Rightarrow> int pyres" where
  "ModbusResponseFC8_len sub_func subfunc_data = struct_calcsize (fmt_format (PDU_FORMAT ModbusResponseFC8_cls) (int (length subfunc_data)))"

definition ModbusResponseFC8_violations :: "int \<Rightarrow> int list \<Rightarrow> ModbusViolation list pyres" where
  "ModbusResponseFC8_violations sub_func subfunc_data = (let self = ModbusResponseFC8_self sub_func subfunc_data in
     bindE (pdu_violations self) (\<lambda>found.
       if sub_func \<notin> set DIAGNOSTIC_SUB_FUNCTIONS
       then bindE (pdu_finding self ''sub_func'' DIAGNOSTIC_SUB_FUNCTION_RULE) (\<lambda>v. Inr (found @ [v]))
       else Inr found))"

definition ModbusResponseFC8_serialize :: "int \<Rightarrow> int list \<Rightarrow> bytes pyres" where
  "ModbusResponseFC8_serialize sub_func subfunc_data = except_raise is_ModbusPacketError ModbusPacketError
     (pdu_pack (ModbusResponseFC8_self sub_func subfunc_data) (fmt_format (PDU_FORMAT ModbusResponseFC8_cls) (int (length subfunc_data))))"

definition ModbusResponseFC8_deserialize :: "bytes \<Rightarrow> diagnostics_pdu pyres" where
  "ModbusResponseFC8_deserialize stream = except_raise is_StructError ModbusPacketError
     (let data_count = (int (length stream) - 3) div 2;
          fmt = fmt_format (PDU_FORMAT ModbusResponseFC8_cls) data_count
      in bindE (struct_unpack fmt stream) (\<lambda>pdu.
           Inr (ModbusResponseFC8 (pdu ! 1) (drop 2 pdu))))"

section \<open>Dynamic dispatch over the module's classes\<close>

datatype diagnostics_class = RequestFC7_t | ResponseFC7_t | RequestFC8_t | ResponseFC8_t

fun diagnostics_class_of :: "diagnostics_pdu \<Rightarrow> diagnostics_class" where
  "diagnostics_class_of ModbusRequestFC7 = RequestFC7_t"
| "diagnostics_class_of (ModbusResponseFC7 _) = ResponseFC7_t"
| "diagnostics_class_of (ModbusRequestFC8 _ _) = RequestFC8_t"
| "diagnostics_class_of (ModbusResponseFC8 _ _) = ResponseFC8_t"

fun diagnostics_decl :: "diagnostics_class \<Rightarrow> pdu_class" where
  "diagnostics_decl RequestFC7_t = ModbusRequestFC7_cls"
| "diagnostics_decl ResponseFC7_t = ModbusResponseFC7_cls"
| "diagnostics_decl RequestFC8_t = ModbusRequestFC8_cls"
| "diagnostics_decl ResponseFC8_t = ModbusResponseFC8_cls"

fun diagnostics_self :: "diagnostics_pdu \<Rightarrow> pdu_self" where
  "diagnostics_self ModbusRequestFC7 = ModbusRequestFC7_self"
| "diagnostics_self (ModbusResponseFC7 status) = ModbusResponseFC7_self status"
| "diagnostics_self (ModbusRequestFC8 sub_func subfunc_data) = ModbusRequestFC8_self sub_func subfunc_data"
| "diagnostics_self (ModbusResponseFC8 sub_func subfunc_data) = ModbusResponseFC8_self sub_func subfunc_data"

fun diagnostics_len :: "diagnostics_pdu \<Rightarrow> int pyres" where
  "diagnostics_len ModbusRequestFC7 = ModbusRequestFC7_len"
| "diagnostics_len (ModbusResponseFC7 status) = ModbusResponseFC7_len status"
| "diagnostics_len (ModbusRequestFC8 sub_func subfunc_data) = ModbusRequestFC8_len sub_func subfunc_data"
| "diagnostics_len (ModbusResponseFC8 sub_func subfunc_data) = ModbusResponseFC8_len sub_func subfunc_data"

fun diagnostics_violations :: "diagnostics_pdu \<Rightarrow> ModbusViolation list pyres" where
  "diagnostics_violations ModbusRequestFC7 = pdu_violations (ModbusRequestFC7_self)"
| "diagnostics_violations (ModbusResponseFC7 status) = pdu_violations (ModbusResponseFC7_self status)"
| "diagnostics_violations (ModbusRequestFC8 sub_func subfunc_data) = ModbusRequestFC8_violations sub_func subfunc_data"
| "diagnostics_violations (ModbusResponseFC8 sub_func subfunc_data) = ModbusResponseFC8_violations sub_func subfunc_data"

fun diagnostics_serialize :: "diagnostics_pdu \<Rightarrow> bytes pyres" where
  "diagnostics_serialize ModbusRequestFC7 = ModbusRequestFC7_serialize"
| "diagnostics_serialize (ModbusResponseFC7 status) = ModbusResponseFC7_serialize status"
| "diagnostics_serialize (ModbusRequestFC8 sub_func subfunc_data) = ModbusRequestFC8_serialize sub_func subfunc_data"
| "diagnostics_serialize (ModbusResponseFC8 sub_func subfunc_data) = ModbusResponseFC8_serialize sub_func subfunc_data"

fun diagnostics_deserialize :: "diagnostics_class \<Rightarrow> bytes \<Rightarrow> diagnostics_pdu pyres" where
  "diagnostics_deserialize RequestFC7_t s = ModbusRequestFC7_deserialize s"
| "diagnostics_deserialize ResponseFC7_t s = ModbusResponseFC7_deserialize s"
| "diagnostics_deserialize RequestFC8_t s = ModbusRequestFC8_deserialize s"
| "diagnostics_deserialize ResponseFC8_t s = ModbusResponseFC8_deserialize s"

fun diagnostics_expected_size :: "diagnostics_class \<Rightarrow> bytes \<Rightarrow> int option pyres" where
  "diagnostics_expected_size RequestFC8_t prefix = diagnostic_size_from_prefix prefix"
| "diagnostics_expected_size ResponseFC8_t prefix = diagnostic_size_from_prefix prefix"
| "diagnostics_expected_size c prefix = pdu_expected_size (diagnostics_decl c) prefix"

lemmas [pdu_defs] =
  ModbusRequestFC7_cls_def ModbusRequestFC7_self_def
  ModbusResponseFC7_cls_def ModbusResponseFC7_self_def
  ModbusRequestFC8_cls_def ModbusRequestFC8_self_def
  ModbusResponseFC8_cls_def ModbusResponseFC8_self_def

section \<open>What each class packs\<close>

lemma ModbusRequestFC7_data [simp]: "pdu_data ModbusRequestFC7_self = Inr ([])"
  by (simp add: pdu_data_def int_attr_def seq_attr_def pdu_defs)

lemma ModbusResponseFC7_data [simp]: "pdu_data (ModbusResponseFC7_self status) = Inr ([status])"
  by (simp add: pdu_data_def int_attr_def seq_attr_def pdu_defs)

lemma ModbusRequestFC8_data [simp]: "pdu_data (ModbusRequestFC8_self sub_func subfunc_data) = Inr ([sub_func] @ subfunc_data)"
  by (simp add: pdu_data_def int_attr_def seq_attr_def pdu_defs)

lemma ModbusResponseFC8_data [simp]: "pdu_data (ModbusResponseFC8_self sub_func subfunc_data) = Inr ([sub_func] @ subfunc_data)"
  by (simp add: pdu_data_def int_attr_def seq_attr_def pdu_defs)

lemma ModbusRequestFC7_serialize_eq:
  "ModbusRequestFC7_serialize = except_raise is_StructError ModbusPacketError
     (struct_pack (fmt_raw (PduFormat Big [UByte] None)) ([0x07]))"
  by (simp add: ModbusRequestFC7_serialize_def pdu_serialize_eq) (simp add: pdu_defs)

lemma ModbusResponseFC7_serialize_eq:
  "ModbusResponseFC7_serialize status = except_raise is_StructError ModbusPacketError
     (struct_pack (fmt_raw (PduFormat Big [UByte, UByte] None)) ([0x07, status]))"
  by (simp add: ModbusResponseFC7_serialize_def pdu_serialize_eq) (simp add: pdu_defs)

lemma ModbusRequestFC8_serialize_eq:
  "ModbusRequestFC8_serialize sub_func subfunc_data = except_raise is_StructError ModbusPacketError
     (struct_pack (fmt_format (PduFormat Big [UByte, UShort] (Some UShort)) (int (length subfunc_data))) (0x08 # sub_func # subfunc_data))"
  by (simp add: ModbusRequestFC8_serialize_def pdu_serialize_eq) (simp add: pdu_defs)

lemma ModbusResponseFC8_serialize_eq:
  "ModbusResponseFC8_serialize sub_func subfunc_data = except_raise is_StructError ModbusPacketError
     (struct_pack (fmt_format (PduFormat Big [UByte, UShort] (Some UShort)) (int (length subfunc_data))) (0x08 # sub_func # subfunc_data))"
  by (simp add: ModbusResponseFC8_serialize_def pdu_serialize_eq) (simp add: pdu_defs)

lemmas diagnostics_serialize_eqs =
  ModbusRequestFC7_serialize_eq
  ModbusResponseFC7_serialize_eq
  ModbusRequestFC8_serialize_eq
  ModbusResponseFC8_serialize_eq

lemmas diagnostics_deserialize_defs =
  ModbusRequestFC7_deserialize_def
  ModbusResponseFC7_deserialize_def
  ModbusRequestFC8_deserialize_def
  ModbusResponseFC8_deserialize_def

lemmas diagnostics_len_defs =
  ModbusRequestFC7_len_def
  ModbusResponseFC7_len_def
  ModbusRequestFC8_len_def
  ModbusResponseFC8_len_def

lemmas diagnostics_cls_defs =
  ModbusRequestFC7_cls_def
  ModbusResponseFC7_cls_def
  ModbusRequestFC8_cls_def
  ModbusResponseFC8_cls_def

section \<open>The codec promises\<close>

lemma diagnostics_des_ser: "diagnostics_serialize p = Inr s \<Longrightarrow> diagnostics_deserialize (diagnostics_class_of p) s = Inr p"
  by (cases p)
    (auto simp: diagnostics_serialize_eqs diagnostics_deserialize_defs diagnostics_cls_defs res_simps
      dest!: struct_unpack_pack [of "fmt_raw _"] unpack_repeat_bytes unpack_repeat_shorts)

lemma diagnostics_ser_len: "diagnostics_serialize p = Inr s \<Longrightarrow> diagnostics_len p = Inr (int (length s))"
  by (cases p)
    (auto simp: diagnostics_serialize_eqs diagnostics_len_defs diagnostics_cls_defs res_simps dest!: struct_pack_length)

lemma diagnostics_deserialize_class: "diagnostics_deserialize c s = Inr p \<Longrightarrow> diagnostics_class_of p = c"
  by (cases c) (auto simp: diagnostics_deserialize_defs res_simps)

lemma diagnostics_serialize_hd: "diagnostics_serialize p = Inr s \<Longrightarrow> s \<noteq> [] \<and> uint (hd s) = self_fc (diagnostics_self p)"
  by (cases p) (auto simp: diagnostics_serialize_eqs res_simps pdu_defs dest!: pack_raw_hd pack_format_hd)

lemma diagnostics_serialize_raises: "raises_only is_ModbusPacketError (diagnostics_serialize p)"
  by (cases p) (auto simp: diagnostics_serialize_eqs intro!: raises_intros)

lemma diagnostics_deserialize_raises: "raises_only is_ModbusPacketError (diagnostics_deserialize c s)"
  by (cases c) (auto simp: diagnostics_deserialize_defs Let_def intro!: raises_intros)

lemma diagnostics_ser_des:
  assumes "diagnostics_deserialize c s = Inr p" and "uint (hd s) = self_fc (diagnostics_self p)"
  shows "diagnostics_serialize p = Inr s"
  using assms
  by (cases c)
    (auto simp: diagnostics_deserialize_defs diagnostics_serialize_eqs diagnostics_cls_defs pdu_defs res_simps
      length_Suc_conv numeral_eq_Suc
      dest!: unpack_fixed_shape unpack_repeat_shape)

interpretation diagnostics_codec: sized_codec diagnostics_serialize "diagnostics_deserialize c" "\<lambda>p. diagnostics_class_of p = c" diagnostics_len for c
  by unfold_locales (auto dest: diagnostics_des_ser diagnostics_ser_len)

end
