(* ===== verification/Pdu_Encapsulated.thy ===== *)
theory Pdu_Encapsulated imports Pdu_Common begin

text \<open>
  \<open>src/pyomb/pdu/encapsulated.py\<close>: the encapsulated interface transport (function code 43), laid
  out as in \<open>Pdu_Bits\<close>. Its layout states no count, so the base class refuses to size it.
\<close>

section \<open>The classes\<close>

datatype encapsulated_pdu =
    ModbusRequestFC43 int "int list"
  | ModbusResponseFC43 int "int list"

subsection \<open>\<open>ModbusRequestFC43\<close>\<close>

definition ModbusRequestFC43_cls :: pdu_class where
  "ModbusRequestFC43_cls = \<lparr>cls_name = ''ModbusRequestFC43'', LIMITS = [(''mei_type'', 0x0E, 0x0E)],
     PDU_FORMAT = PduFormat Big [UByte, UByte] (Some UByte), PDU_ID = 0x002B,
     PDU_FIELDS = Some [''mei_type''], PDU_TAIL = Some ''mei_data'', PDU_COUNT = None\<rparr>"

definition ModbusRequestFC43_self :: "int \<Rightarrow> int list \<Rightarrow> pdu_self" where
  "ModbusRequestFC43_self mei_type mei_data = \<lparr>self_class = ModbusRequestFC43_cls, self_fc = 0x2B,
     self_ints = [(''mei_type'', mei_type)],
     self_seqs = [(''mei_data'', mei_data)]\<rparr>"

definition ModbusRequestFC43_len :: "int \<Rightarrow> int list \<Rightarrow> int pyres" where
  "ModbusRequestFC43_len mei_type mei_data = struct_calcsize (fmt_format (PDU_FORMAT ModbusRequestFC43_cls) (int (length mei_data)))"

definition ModbusRequestFC43_serialize :: "int \<Rightarrow> int list \<Rightarrow> bytes pyres" where
  "ModbusRequestFC43_serialize mei_type mei_data = except_raise is_ModbusPacketError ModbusPacketError
     (pdu_pack (ModbusRequestFC43_self mei_type mei_data) (fmt_format (PDU_FORMAT ModbusRequestFC43_cls) (int (length mei_data))))"

definition ModbusRequestFC43_deserialize :: "bytes \<Rightarrow> encapsulated_pdu pyres" where
  "ModbusRequestFC43_deserialize stream = except_raise is_StructError ModbusPacketError
     (let data_count = int (length stream) - 2;
          fmt = fmt_format (PDU_FORMAT ModbusRequestFC43_cls) data_count
      in bindE (struct_unpack fmt stream) (\<lambda>pdu.
           Inr (ModbusRequestFC43 (pdu ! 1) (drop 2 pdu))))"

subsection \<open>\<open>ModbusResponseFC43\<close>\<close>

definition ModbusResponseFC43_cls :: pdu_class where
  "ModbusResponseFC43_cls = \<lparr>cls_name = ''ModbusResponseFC43'', LIMITS = [(''mei_type'', 0x0E, 0x0E)],
     PDU_FORMAT = PduFormat Big [UByte, UByte] (Some UByte), PDU_ID = 0x802B,
     PDU_FIELDS = Some [''mei_type''], PDU_TAIL = Some ''mei_data'', PDU_COUNT = None\<rparr>"

definition ModbusResponseFC43_self :: "int \<Rightarrow> int list \<Rightarrow> pdu_self" where
  "ModbusResponseFC43_self mei_type mei_data = \<lparr>self_class = ModbusResponseFC43_cls, self_fc = 0x2B,
     self_ints = [(''mei_type'', mei_type)],
     self_seqs = [(''mei_data'', mei_data)]\<rparr>"

definition ModbusResponseFC43_len :: "int \<Rightarrow> int list \<Rightarrow> int pyres" where
  "ModbusResponseFC43_len mei_type mei_data = struct_calcsize (fmt_format (PDU_FORMAT ModbusResponseFC43_cls) (int (length mei_data)))"

definition ModbusResponseFC43_serialize :: "int \<Rightarrow> int list \<Rightarrow> bytes pyres" where
  "ModbusResponseFC43_serialize mei_type mei_data = except_raise is_ModbusPacketError ModbusPacketError
     (pdu_pack (ModbusResponseFC43_self mei_type mei_data) (fmt_format (PDU_FORMAT ModbusResponseFC43_cls) (int (length mei_data))))"

definition ModbusResponseFC43_deserialize :: "bytes \<Rightarrow> encapsulated_pdu pyres" where
  "ModbusResponseFC43_deserialize stream = except_raise is_StructError ModbusPacketError
     (let data_count = int (length stream) - 2;
          fmt = fmt_format (PDU_FORMAT ModbusResponseFC43_cls) data_count
      in bindE (struct_unpack fmt stream) (\<lambda>pdu.
           Inr (ModbusResponseFC43 (pdu ! 1) (drop 2 pdu))))"

section \<open>Dynamic dispatch over the module's classes\<close>

datatype encapsulated_class = RequestFC43_t | ResponseFC43_t

fun encapsulated_class_of :: "encapsulated_pdu \<Rightarrow> encapsulated_class" where
  "encapsulated_class_of (ModbusRequestFC43 _ _) = RequestFC43_t"
| "encapsulated_class_of (ModbusResponseFC43 _ _) = ResponseFC43_t"

fun encapsulated_decl :: "encapsulated_class \<Rightarrow> pdu_class" where
  "encapsulated_decl RequestFC43_t = ModbusRequestFC43_cls"
| "encapsulated_decl ResponseFC43_t = ModbusResponseFC43_cls"

fun encapsulated_self :: "encapsulated_pdu \<Rightarrow> pdu_self" where
  "encapsulated_self (ModbusRequestFC43 mei_type mei_data) = ModbusRequestFC43_self mei_type mei_data"
| "encapsulated_self (ModbusResponseFC43 mei_type mei_data) = ModbusResponseFC43_self mei_type mei_data"

fun encapsulated_len :: "encapsulated_pdu \<Rightarrow> int pyres" where
  "encapsulated_len (ModbusRequestFC43 mei_type mei_data) = ModbusRequestFC43_len mei_type mei_data"
| "encapsulated_len (ModbusResponseFC43 mei_type mei_data) = ModbusResponseFC43_len mei_type mei_data"

fun encapsulated_violations :: "encapsulated_pdu \<Rightarrow> ModbusViolation list pyres" where
  "encapsulated_violations (ModbusRequestFC43 mei_type mei_data) = pdu_violations (ModbusRequestFC43_self mei_type mei_data)"
| "encapsulated_violations (ModbusResponseFC43 mei_type mei_data) = pdu_violations (ModbusResponseFC43_self mei_type mei_data)"

fun encapsulated_serialize :: "encapsulated_pdu \<Rightarrow> bytes pyres" where
  "encapsulated_serialize (ModbusRequestFC43 mei_type mei_data) = ModbusRequestFC43_serialize mei_type mei_data"
| "encapsulated_serialize (ModbusResponseFC43 mei_type mei_data) = ModbusResponseFC43_serialize mei_type mei_data"

fun encapsulated_deserialize :: "encapsulated_class \<Rightarrow> bytes \<Rightarrow> encapsulated_pdu pyres" where
  "encapsulated_deserialize RequestFC43_t s = ModbusRequestFC43_deserialize s"
| "encapsulated_deserialize ResponseFC43_t s = ModbusResponseFC43_deserialize s"

lemmas [pdu_defs] =
  ModbusRequestFC43_cls_def ModbusRequestFC43_self_def
  ModbusResponseFC43_cls_def ModbusResponseFC43_self_def

section \<open>What each class packs\<close>

lemma ModbusRequestFC43_data [simp]: "pdu_data (ModbusRequestFC43_self mei_type mei_data) = Inr ([mei_type] @ mei_data)"
  by (simp add: pdu_data_def int_attr_def seq_attr_def pdu_defs)

lemma ModbusResponseFC43_data [simp]: "pdu_data (ModbusResponseFC43_self mei_type mei_data) = Inr ([mei_type] @ mei_data)"
  by (simp add: pdu_data_def int_attr_def seq_attr_def pdu_defs)

lemma ModbusRequestFC43_serialize_eq:
  "ModbusRequestFC43_serialize mei_type mei_data = except_raise is_StructError ModbusPacketError
     (struct_pack (fmt_format (PduFormat Big [UByte, UByte] (Some UByte)) (int (length mei_data))) (0x2B # mei_type # mei_data))"
  by (simp add: ModbusRequestFC43_serialize_def pdu_serialize_eq) (simp add: pdu_defs)

lemma ModbusResponseFC43_serialize_eq:
  "ModbusResponseFC43_serialize mei_type mei_data = except_raise is_StructError ModbusPacketError
     (struct_pack (fmt_format (PduFormat Big [UByte, UByte] (Some UByte)) (int (length mei_data))) (0x2B # mei_type # mei_data))"
  by (simp add: ModbusResponseFC43_serialize_def pdu_serialize_eq) (simp add: pdu_defs)

lemmas encapsulated_serialize_eqs =
  ModbusRequestFC43_serialize_eq
  ModbusResponseFC43_serialize_eq

lemmas encapsulated_deserialize_defs =
  ModbusRequestFC43_deserialize_def
  ModbusResponseFC43_deserialize_def

lemmas encapsulated_len_defs =
  ModbusRequestFC43_len_def
  ModbusResponseFC43_len_def

lemmas encapsulated_cls_defs =
  ModbusRequestFC43_cls_def
  ModbusResponseFC43_cls_def

section \<open>The codec promises\<close>

lemma encapsulated_des_ser: "encapsulated_serialize p = Inr s \<Longrightarrow> encapsulated_deserialize (encapsulated_class_of p) s = Inr p"
  by (cases p)
    (auto simp: encapsulated_serialize_eqs encapsulated_deserialize_defs encapsulated_cls_defs res_simps
      dest!: struct_unpack_pack [of "fmt_raw _"] unpack_repeat_bytes unpack_repeat_shorts)

lemma encapsulated_ser_len: "encapsulated_serialize p = Inr s \<Longrightarrow> encapsulated_len p = Inr (int (length s))"
  by (cases p)
    (auto simp: encapsulated_serialize_eqs encapsulated_len_defs encapsulated_cls_defs res_simps dest!: struct_pack_length)

lemma encapsulated_deserialize_class: "encapsulated_deserialize c s = Inr p \<Longrightarrow> encapsulated_class_of p = c"
  by (cases c) (auto simp: encapsulated_deserialize_defs res_simps)

lemma encapsulated_serialize_hd: "encapsulated_serialize p = Inr s \<Longrightarrow> s \<noteq> [] \<and> uint (hd s) = self_fc (encapsulated_self p)"
  by (cases p) (auto simp: encapsulated_serialize_eqs res_simps pdu_defs dest!: pack_raw_hd pack_format_hd)

lemma encapsulated_serialize_raises: "raises_only is_ModbusPacketError (encapsulated_serialize p)"
  by (cases p) (auto simp: encapsulated_serialize_eqs intro!: raises_intros)

lemma encapsulated_deserialize_raises: "raises_only is_ModbusPacketError (encapsulated_deserialize c s)"
  by (cases c) (auto simp: encapsulated_deserialize_defs Let_def intro!: raises_intros)

lemma encapsulated_ser_des:
  assumes "encapsulated_deserialize c s = Inr p" and "uint (hd s) = self_fc (encapsulated_self p)"
  shows "encapsulated_serialize p = Inr s"
  using assms
  by (cases c)
    (auto simp: encapsulated_deserialize_defs encapsulated_serialize_eqs encapsulated_cls_defs pdu_defs res_simps
      length_Suc_conv numeral_eq_Suc
      dest!: unpack_fixed_shape unpack_repeat_shape)

interpretation encapsulated_codec: sized_codec encapsulated_serialize "encapsulated_deserialize c" "\<lambda>p. encapsulated_class_of p = c" encapsulated_len for c
  by unfold_locales (auto dest: encapsulated_des_ser encapsulated_ser_len)

end
