(* ===== verification/Pdu_Parser.thy ===== *)
theory Pdu_Parser imports Pdu_Bits Pdu_Registers Pdu_Diagnostics Pdu_Encapsulated begin

text \<open>
  Every PDU class of the package in one type, the dynamic dispatch over it, and
  \<open>ModbusPduParser\<close> of \<open>src/pyomb/pdu/common.py\<close>: the registry from PDU identifiers to
  classes and the two parse functions. The registry is a class attribute in Python; here it is
  the state passed to and returned by its operations. Its values are the classes of the package
  (a class defined elsewhere is a caller's code); \<open>issubclass\<close> holds of all of them.
\<close>

section \<open>All the classes\<close>

datatype pdu =
    CommonPdu common_pdu
  | BitsPdu bits_pdu
  | RegistersPdu registers_pdu
  | DiagnosticsPdu diagnostics_pdu
  | EncapsulatedPdu encapsulated_pdu

datatype pdu_type =
    CommonT common_class
  | BitsT bits_class
  | RegistersT registers_class
  | DiagnosticsT diagnostics_class
  | EncapsulatedT encapsulated_class

fun dyn_type :: "pdu \<Rightarrow> pdu_type" where
  "dyn_type (CommonPdu p) = CommonT (common_class_of p)"
| "dyn_type (BitsPdu p) = BitsT (bits_class_of p)"
| "dyn_type (RegistersPdu p) = RegistersT (registers_class_of p)"
| "dyn_type (DiagnosticsPdu p) = DiagnosticsT (diagnostics_class_of p)"
| "dyn_type (EncapsulatedPdu p) = EncapsulatedT (encapsulated_class_of p)"

fun dyn_decl :: "pdu_type \<Rightarrow> pdu_class" where
  "dyn_decl (CommonT c) = common_decl c"
| "dyn_decl (BitsT c) = bits_decl c"
| "dyn_decl (RegistersT c) = registers_decl c"
| "dyn_decl (DiagnosticsT c) = diagnostics_decl c"
| "dyn_decl (EncapsulatedT c) = encapsulated_decl c"

fun dyn_self :: "pdu \<Rightarrow> pdu_self" where
  "dyn_self (CommonPdu p) = common_self p"
| "dyn_self (BitsPdu p) = bits_self p"
| "dyn_self (RegistersPdu p) = registers_self p"
| "dyn_self (DiagnosticsPdu p) = diagnostics_self p"
| "dyn_self (EncapsulatedPdu p) = encapsulated_self p"

fun dyn_len :: "pdu \<Rightarrow> int pyres" where
  "dyn_len (CommonPdu p) = common_len p"
| "dyn_len (BitsPdu p) = bits_len p"
| "dyn_len (RegistersPdu p) = registers_len p"
| "dyn_len (DiagnosticsPdu p) = diagnostics_len p"
| "dyn_len (EncapsulatedPdu p) = encapsulated_len p"

fun dyn_violations :: "pdu \<Rightarrow> ModbusViolation list pyres" where
  "dyn_violations (CommonPdu p) = common_violations p"
| "dyn_violations (BitsPdu p) = bits_violations p"
| "dyn_violations (RegistersPdu p) = registers_violations p"
| "dyn_violations (DiagnosticsPdu p) = diagnostics_violations p"
| "dyn_violations (EncapsulatedPdu p) = encapsulated_violations p"

fun dyn_serialize :: "pdu \<Rightarrow> bytes pyres" where
  "dyn_serialize (CommonPdu p) = common_serialize p"
| "dyn_serialize (BitsPdu p) = bits_serialize p"
| "dyn_serialize (RegistersPdu p) = registers_serialize p"
| "dyn_serialize (DiagnosticsPdu p) = diagnostics_serialize p"
| "dyn_serialize (EncapsulatedPdu p) = encapsulated_serialize p"

fun dyn_deserialize :: "pdu_type \<Rightarrow> bytes \<Rightarrow> pdu pyres" where
  "dyn_deserialize (CommonT c) s = bindE (common_deserialize c s) (\<lambda>p. Inr (CommonPdu p))"
| "dyn_deserialize (BitsT c) s = bindE (bits_deserialize c s) (\<lambda>p. Inr (BitsPdu p))"
| "dyn_deserialize (RegistersT c) s = bindE (registers_deserialize c s) (\<lambda>p. Inr (RegistersPdu p))"
| "dyn_deserialize (DiagnosticsT c) s = bindE (diagnostics_deserialize c s) (\<lambda>p. Inr (DiagnosticsPdu p))"
| "dyn_deserialize (EncapsulatedT c) s = bindE (encapsulated_deserialize c s) (\<lambda>p. Inr (EncapsulatedPdu p))"

fun dyn_expected_size :: "pdu_type \<Rightarrow> bytes \<Rightarrow> int option pyres" where
  "dyn_expected_size (DiagnosticsT c) prefix = diagnostics_expected_size c prefix"
| "dyn_expected_size t prefix = pdu_expected_size (dyn_decl t) prefix"

abbreviation ModbusPdu_type :: pdu_type where
  "ModbusPdu_type \<equiv> CommonT ModbusPdu_t"

section \<open>The registry\<close>

type_synonym registry = "int \<rightharpoonup> pdu_type"

definition registry_register :: "registry \<Rightarrow> pdu_type \<Rightarrow> registry" where
  "registry_register reg t = reg(PDU_ID (dyn_decl t) \<mapsto> t)"

definition registry_unregister :: "registry \<Rightarrow> pdu_type \<Rightarrow> registry pyres" where
  "registry_unregister reg t = (case reg (PDU_ID (dyn_decl t)) of
     None \<Rightarrow> Inl KeyError
   | Some _ \<Rightarrow> Inr (reg(PDU_ID (dyn_decl t) := None)))"

definition registry_clear :: "registry \<Rightarrow> registry" where
  "registry_clear reg = Map.empty"

text \<open>\<open>_registry.get(k, ModbusPdu)\<close>.\<close>

definition registry_get :: "registry \<Rightarrow> int \<Rightarrow> pdu_type" where
  "registry_get reg k = (case reg k of None \<Rightarrow> ModbusPdu_type | Some t \<Rightarrow> t)"

text \<open>The \<open>register\<close> calls at the end of each module, in the order \<open>pyomb.pdu\<close> imports them.\<close>

definition bits_registrations :: "pdu_type list" where
  "bits_registrations = map BitsT
     [RequestFC1_t, ResponseFC1_t, RequestFC2_t, ResponseFC2_t,
      RequestFC5_t, ResponseFC5_t, RequestFC15_t, ResponseFC15_t]"

definition diagnostics_registrations :: "pdu_type list" where
  "diagnostics_registrations = map DiagnosticsT [RequestFC7_t, ResponseFC7_t, RequestFC8_t, ResponseFC8_t]"

definition encapsulated_registrations :: "pdu_type list" where
  "encapsulated_registrations = map EncapsulatedT [RequestFC43_t, ResponseFC43_t]"

definition registers_registrations :: "pdu_type list" where
  "registers_registrations = map RegistersT
     [RequestFC3_t, ResponseFC3_t, RequestFC4_t, ResponseFC4_t, RequestFC6_t, ResponseFC6_t,
      RequestFC16_t, ResponseFC16_t, RequestFC22_t, ResponseFC22_t, RequestFC23_t, ResponseFC23_t]"

definition registrations :: "pdu_type list" where
  "registrations = bits_registrations @ diagnostics_registrations @
     encapsulated_registrations @ registers_registrations"

definition default_registry :: registry where
  "default_registry = foldl registry_register Map.empty registrations"

section \<open>The parse functions\<close>

definition first_byte :: "bytes \<Rightarrow> int pyres" where
  "first_byte stream = bindE (struct_unpack (StructFmt Big [UByte] None) (take 1 stream)) (\<lambda>vs. Inr (vs ! 0))"

definition parse_request :: "registry \<Rightarrow> bytes \<Rightarrow> pdu pyres" where
  "parse_request reg stream =
     bindE (except_raise is_StructError ModbusPacketError
       (bindE (first_byte stream) (\<lambda>func_code. Inr (registry_get reg func_code))))
     (\<lambda>t. dyn_deserialize t stream)"

definition parse_response :: "registry \<Rightarrow> bytes \<Rightarrow> pdu pyres" where
  "parse_response reg stream =
     bindE (except_raise (\<lambda>e. is_ModbusPacketError e \<or> is_StructError e) ModbusPacketError
       (bindE (first_byte stream) (\<lambda>func_code.
          if func_code \<ge> 0x80
          then bindE (ModbusError_deserialize stream) (\<lambda>p. Inr (CommonT (common_class_of p)))
          else Inr (registry_get reg (func_code + 0x8000)))))
     (\<lambda>t. dyn_deserialize t stream)"

section \<open>Facts about the dispatch\<close>

lemma dyn_des_ser: "dyn_serialize p = Inr s \<Longrightarrow> dyn_deserialize (dyn_type p) s = Inr p"
  by (cases p) (simp_all add: common_des_ser bits_des_ser registers_des_ser diagnostics_des_ser
      encapsulated_des_ser)

lemma dyn_ser_len: "dyn_serialize p = Inr s \<Longrightarrow> dyn_len p = Inr (int (length s))"
  by (cases p) (simp_all add: common_ser_len bits_ser_len registers_ser_len diagnostics_ser_len
      encapsulated_ser_len)

lemma dyn_deserialize_type: "dyn_deserialize t s = Inr p \<Longrightarrow> dyn_type p = t"
  by (cases t) (auto simp: res_simps common_deserialize_class bits_deserialize_class
      registers_deserialize_class diagnostics_deserialize_class encapsulated_deserialize_class)

lemma dyn_serialize_raises: "raises_only is_ModbusPacketError (dyn_serialize p)"
  by (cases p) (simp_all add: common_serialize_raises bits_serialize_raises registers_serialize_raises
      diagnostics_serialize_raises encapsulated_serialize_raises)

lemma dyn_deserialize_raises: "raises_only is_ModbusPacketError (dyn_deserialize t s)"
  by (cases t) (auto intro!: raises_only_bindE common_deserialize_raises bits_deserialize_raises
      registers_deserialize_raises diagnostics_deserialize_raises encapsulated_deserialize_raises)

lemma struct_calcsize_bound: "struct_calcsize f = Inr n \<Longrightarrow> n \<le> PY_SSIZE_T_MAX"
  by (cases f) (auto split: if_splits)

lemma dyn_len_bound: "dyn_len p = Inr n \<Longrightarrow> n \<le> PY_SSIZE_T_MAX"
proof (cases p)
  case (CommonPdu q)
  moreover assume "dyn_len p = Inr n"
  ultimately show ?thesis
    by (cases q) (auto simp: pdu_len_def ModbusError_len_def res_simps intro: struct_calcsize_bound)
next
  case (BitsPdu q)
  moreover assume "dyn_len p = Inr n"
  ultimately show ?thesis by (cases q) (auto simp: bits_len_defs intro: struct_calcsize_bound)
next
  case (RegistersPdu q)
  moreover assume "dyn_len p = Inr n"
  ultimately show ?thesis by (cases q) (auto simp: registers_len_defs intro: struct_calcsize_bound)
next
  case (DiagnosticsPdu q)
  moreover assume "dyn_len p = Inr n"
  ultimately show ?thesis by (cases q) (auto simp: diagnostics_len_defs intro: struct_calcsize_bound)
next
  case (EncapsulatedPdu q)
  moreover assume "dyn_len p = Inr n"
  ultimately show ?thesis by (cases q) (auto simp: encapsulated_len_defs intro: struct_calcsize_bound)
qed

lemma dyn_serialize_bound: "dyn_serialize p = Inr s \<Longrightarrow> int (length s) \<le> PY_SSIZE_T_MAX"
  by (rule dyn_len_bound) (rule dyn_ser_len)

text \<open>The first byte on the wire: the function code, with the error mask on an exception.\<close>

fun wire_fc :: "pdu \<Rightarrow> int" where
  "wire_fc (CommonPdu (ModbusError fc exc_code)) = fc + ERROR_MASK"
| "wire_fc p = self_fc (dyn_self p)"

lemma common_serialize_hd:
  "common_serialize p = Inr s \<Longrightarrow> s \<noteq> [] \<and> uint (hd s) = wire_fc (CommonPdu p)"
  by (cases p)
    (auto simp: ModbusPdu_serialize_eq ModbusError_serialize_iff ModbusPdu_self_def res_simps ERROR_MASK_def
      fits_def code_max_def uint_word_of_int_byte simp del: of_int_add dest!: pack_format_hd)

lemma dyn_serialize_hd: "dyn_serialize p = Inr s \<Longrightarrow> s \<noteq> [] \<and> uint (hd s) = wire_fc p"
  by (cases p) (simp_all add: common_serialize_hd bits_serialize_hd registers_serialize_hd
      diagnostics_serialize_hd encapsulated_serialize_hd)

text \<open>Whether a PDU's own count is the number of items it holds, where serializing uses it.\<close>

fun count_agrees :: "pdu \<Rightarrow> bool" where
  "count_agrees (BitsPdu p) = bits_count_agrees p"
| "count_agrees _ = True"

lemma dyn_ser_des:
  assumes "dyn_deserialize t s = Inr p" and "uint (hd s) = wire_fc p" and "count_agrees p"
  shows "dyn_serialize p = Inr s"
  using assms
  by (cases t) (auto simp: res_simps common_ser_des bits_ser_des registers_ser_des diagnostics_ser_des
      encapsulated_ser_des)

interpretation dyn_codec: sized_codec dyn_serialize "dyn_deserialize t" "\<lambda>p. dyn_type p = t" dyn_len for t
  by unfold_locales (auto dest: dyn_des_ser dyn_ser_len)

section \<open>Facts about the registry\<close>

lemma registry_register_apply:
  "registry_register reg t k = (if k = PDU_ID (dyn_decl t) then Some t else reg k)"
  by (simp add: registry_register_def)

lemma foldl_register:
  "distinct (map (\<lambda>t. PDU_ID (dyn_decl t)) ts) \<Longrightarrow>
     foldl registry_register Map.empty ts k = Some t \<longleftrightarrow> t \<in> set ts \<and> PDU_ID (dyn_decl t) = k"
proof (induction ts arbitrary: t rule: rev_induct)
  case (snoc x xs)
  have "PDU_ID (dyn_decl t) \<noteq> PDU_ID (dyn_decl x)" if "t \<in> set xs"
    using snoc.prems imageI [OF that, of "\<lambda>t. PDU_ID (dyn_decl t)"] by auto
  moreover have "foldl registry_register Map.empty xs k = Some t \<longleftrightarrow> t \<in> set xs \<and> PDU_ID (dyn_decl t) = k"
    using snoc by simp
  ultimately show ?case by (auto simp: registry_register_apply [of _ x] split: if_splits)
qed simp

lemmas registration_lists =
  registrations_def bits_registrations_def diagnostics_registrations_def
  encapsulated_registrations_def registers_registrations_def

lemma registrations_distinct: "distinct (map (\<lambda>t. PDU_ID (dyn_decl t)) registrations)"
  by (simp add: registration_lists bits_cls_defs registers_cls_defs diagnostics_cls_defs encapsulated_cls_defs)

lemma default_registry_Some:
  "default_registry k = Some t \<longleftrightarrow> t \<in> set registrations \<and> PDU_ID (dyn_decl t) = k"
  unfolding default_registry_def by (rule foldl_register [OF registrations_distinct])

lemma registrations_all: "t \<in> set registrations \<longleftrightarrow> (\<forall>c. t \<noteq> CommonT c)"
proof (cases t)
  case (BitsT c)
  then show ?thesis by (cases c) (simp_all add: registration_lists)
next
  case (RegistersT c)
  then show ?thesis by (cases c) (simp_all add: registration_lists)
next
  case (DiagnosticsT c)
  then show ?thesis by (cases c) (simp_all add: registration_lists)
next
  case (EncapsulatedT c)
  then show ?thesis by (cases c) (simp_all add: registration_lists)
qed (auto simp: registration_lists)

text \<open>A function-code class fixes its function code, and its identifier is that code.\<close>

definition type_fc :: "pdu_type \<Rightarrow> int" where
  "type_fc t = (if pdu_is_request (dyn_decl t) then PDU_ID (dyn_decl t) else PDU_ID (dyn_decl t) - 0x8000)"

lemma wire_fc_registered:
  "dyn_type p \<in> set registrations \<Longrightarrow> wire_fc p = type_fc (dyn_type p) \<and> 0 < wire_fc p \<and> wire_fc p < 0x80"
proof (cases p)
  case (BitsPdu q)
  then show ?thesis by (cases q) (simp_all add: type_fc_def pdu_is_request_def pdu_defs)
next
  case (RegistersPdu q)
  then show ?thesis by (cases q) (simp_all add: type_fc_def pdu_is_request_def pdu_defs)
next
  case (DiagnosticsPdu q)
  then show ?thesis by (cases q) (simp_all add: type_fc_def pdu_is_request_def pdu_defs)
next
  case (EncapsulatedPdu q)
  then show ?thesis by (cases q) (simp_all add: type_fc_def pdu_is_request_def pdu_defs)
qed (simp add: registrations_all)

section \<open>Facts about the parse functions\<close>

lemma first_byte_Nil [simp]: "first_byte [] = Inl StructError"
  by (simp add: first_byte_def struct_unpack.simps PY_SSIZE_T_MAX_def)

lemma first_byte_Cons [simp]: "s \<noteq> [] \<Longrightarrow> first_byte s = Inr (uint (hd s))"
  by (cases s) (simp_all add: first_byte_def struct_unpack.simps PY_SSIZE_T_MAX_def)

lemma parse_request_Nil [simp]: "parse_request reg [] = Inl ModbusPacketError"
  by (simp add: parse_request_def)

lemma parse_request_eq:
  "s \<noteq> [] \<Longrightarrow> parse_request reg s = dyn_deserialize (registry_get reg (uint (hd s))) s"
  by (simp add: parse_request_def)

lemma parse_response_Nil [simp]: "parse_response reg [] = Inl ModbusPacketError"
  by (simp add: parse_response_def)

lemma parse_response_eq:
  "s \<noteq> [] \<Longrightarrow> uint (hd s) < 0x80 \<Longrightarrow>
     parse_response reg s = dyn_deserialize (registry_get reg (uint (hd s) + 0x8000)) s"
  by (simp add: parse_response_def)

lemma ModbusError_deserialize_Inl: "ModbusError_deserialize s = Inl e \<Longrightarrow> e = ModbusPacketError"
  by (auto simp: ModbusError_deserialize_def res_simps dest: struct_unpack_error split: if_splits)

lemma parse_response_exception:
  assumes "s \<noteq> []" and "0x80 \<le> uint (hd s)"
  shows "parse_response reg s = bindE (ModbusError_deserialize s) (\<lambda>p. Inr (CommonPdu p))"
proof (cases "ModbusError_deserialize s")
  case (Inl e)
  then show ?thesis
    using assms ModbusError_deserialize_Inl [OF Inl] by (simp add: parse_response_def)
next
  case (Inr p)
  then have "common_class_of p = ModbusError_t"
    by (auto simp: ModbusError_deserialize_iff)
  then show ?thesis
    using assms Inr by (simp add: parse_response_def)
qed

lemma parse_request_raises: "raises_only is_ModbusPacketError (parse_request reg s)"
  by (cases "s = []") (simp_all add: parse_request_eq dyn_deserialize_raises)

lemma parse_response_raises: "raises_only is_ModbusPacketError (parse_response reg s)"
proof (cases "s \<noteq> [] \<and> 0x80 \<le> uint (hd s)")
  case False
  then show ?thesis
    by (cases "s = []") (simp_all add: parse_response_eq dyn_deserialize_raises)
next
  case True
  moreover have "raises_only is_ModbusPacketError (ModbusError_deserialize s)"
    using common_deserialize_raises [of ModbusError_t s] by simp
  ultimately show ?thesis
    by (simp add: parse_response_exception raises_only_bindE)
qed

section \<open>The parser interface the frames rely on\<close>

text \<open>
  What an ADU asks of the parser it was given (\<open>ModbusPduParserAbc\<close>): on the PDUs it knows it
  undoes \<open>serialize\<close>, and a PDU it cannot read is a packet error and nothing else.
\<close>

locale pdu_parser = codec dyn_serialize parse known
  for parse :: "bytes \<Rightarrow> pdu pyres" and known :: "pdu \<Rightarrow> bool" +
  assumes parse_raises: "raises_only is_ModbusPacketError (parse s)"
begin

lemma parse_error: "parse s = Inl e \<Longrightarrow> is_ModbusPacketError e"
  using parse_raises [of s] by simp

end

definition known_request :: "registry \<Rightarrow> pdu \<Rightarrow> bool" where
  "known_request reg p = (registry_get reg (wire_fc p) = dyn_type p)"

definition known_response :: "registry \<Rightarrow> pdu \<Rightarrow> bool" where
  "known_response reg p =
     (if 0x80 \<le> wire_fc p then dyn_type p = CommonT ModbusError_t
      else registry_get reg (wire_fc p + 0x8000) = dyn_type p)"

interpretation request_parser: pdu_parser "parse_request reg" "known_request reg" for reg
proof unfold_locales
  fix p s
  assume "known_request reg p" and s: "dyn_serialize p = Inr s"
  then show "parse_request reg s = Inr p"
    using dyn_serialize_hd [OF s] dyn_des_ser [OF s] by (simp add: parse_request_eq known_request_def)
qed (rule parse_request_raises)

interpretation response_parser: pdu_parser "parse_response reg" "known_response reg" for reg
proof unfold_locales
  fix p s
  assume known: "known_response reg p" and s: "dyn_serialize p = Inr s"
  note hd = dyn_serialize_hd [OF s]
  show "parse_response reg s = Inr p"
  proof (cases "0x80 \<le> wire_fc p")
    case True
    then show ?thesis
      using hd dyn_des_ser [OF s] known by (simp add: parse_response_exception known_response_def)
  next
    case False
    then show ?thesis
      using hd dyn_des_ser [OF s] known by (simp add: parse_response_eq known_response_def)
  qed
qed (rule parse_response_raises)

lemma registered_known_request:
  assumes "dyn_type p \<in> set registrations" and "pdu_is_request (dyn_decl (dyn_type p))"
  shows "known_request default_registry p"
proof -
  have "default_registry (wire_fc p) = Some (dyn_type p)"
    using assms wire_fc_registered [OF assms(1)] by (simp add: default_registry_Some type_fc_def)
  then show ?thesis by (simp add: known_request_def registry_get_def)
qed

lemma registered_known_response:
  assumes "dyn_type p \<in> set registrations" and "\<not> pdu_is_request (dyn_decl (dyn_type p))"
  shows "known_response default_registry p"
proof -
  have "default_registry (wire_fc p + 0x8000) = Some (dyn_type p)"
    using assms wire_fc_registered [OF assms(1)] by (simp add: default_registry_Some type_fc_def)
  then show ?thesis
    using wire_fc_registered [OF assms(1)] by (simp add: known_response_def registry_get_def)
qed

section \<open>A registry built by its own operations\<close>

text \<open>
  Every class is filed under its own identifier: what \<open>register\<close>, \<open>unregister\<close> and \<open>clear\<close>
  keep, and what makes a parsed PDU the bytes it was parsed from.
\<close>

definition registry_ok :: "registry \<Rightarrow> bool" where
  "registry_ok reg = (\<forall>k t. reg k = Some t \<longrightarrow> PDU_ID (dyn_decl t) = k)"

lemma registry_ok_clear: "registry_ok (registry_clear reg)"
  by (simp add: registry_ok_def registry_clear_def)

lemma registry_ok_register: "registry_ok reg \<Longrightarrow> registry_ok (registry_register reg t)"
  by (simp add: registry_ok_def registry_register_def)

lemma registry_ok_unregister: "registry_ok reg \<Longrightarrow> registry_unregister reg t = Inr reg' \<Longrightarrow> registry_ok reg'"
  by (auto simp: registry_ok_def registry_unregister_def split: option.splits if_splits)

lemma registry_ok_default: "registry_ok default_registry"
  by (simp add: registry_ok_def default_registry_Some)

lemma registry_get_cases:
  assumes "registry_ok reg"
  obtains c where "registry_get reg k = CommonT c"
  | "registry_get reg k \<in> set registrations" and "PDU_ID (dyn_decl (registry_get reg k)) = k"
proof (cases "\<exists>c. registry_get reg k = CommonT c")
  case False
  then have "reg k = Some (registry_get reg k)"
    by (auto simp: registry_get_def split: option.splits)
  with assms False show ?thesis by (intro that(2)) (auto simp: registrations_all registry_ok_def)
qed (auto intro: that(1))

lemma request_count_agrees: "pdu_is_request (dyn_decl (dyn_type q)) \<Longrightarrow> count_agrees q"
proof (cases q)
  case (BitsPdu b)
  moreover assume "pdu_is_request (dyn_decl (dyn_type q))"
  ultimately show ?thesis by (cases b) (simp_all add: pdu_is_request_def bits_cls_defs)
qed simp_all

lemma dyn_ser_des_filed:
  assumes des: "dyn_deserialize (registry_get reg k) s = Inr q" and "registry_ok reg" and "s \<noteq> []"
    and k: "k = (if req then uint (hd s) else uint (hd s) + 0x8000)" and count: "req \<or> count_agrees q"
  shows "dyn_serialize q = Inr s"
proof (rule registry_get_cases [OF assms(2), of k])
  fix c
  assume "registry_get reg k = CommonT c"
  then show ?thesis using des by (auto simp: res_simps dest: common_ser_des)
next
  assume t: "registry_get reg k \<in> set registrations" and id: "PDU_ID (dyn_decl (registry_get reg k)) = k"
  have type: "dyn_type q = registry_get reg k" using des by (rule dyn_deserialize_type)
  have "uint (hd s) < 256" "0 \<le> uint (hd s)" by (simp_all add: uint_byte_bounds)
  then have is_req: "pdu_is_request (dyn_decl (dyn_type q)) = req"
    using id k by (cases req) (simp_all add: type pdu_is_request_def)
  have "wire_fc q = uint (hd s)"
    using wire_fc_registered [of q] t id k is_req by (auto simp: type type_fc_def split: if_splits)
  moreover have "count_agrees q" using count is_req request_count_agrees by auto
  ultimately show ?thesis using des by (intro dyn_ser_des) simp_all
qed

lemma parse_request_exact:
  assumes "registry_ok reg" and "parse_request reg s = Inr q"
  shows "dyn_serialize q = Inr s"
proof -
  have "s \<noteq> []" using assms(2) by auto
  then show ?thesis
    using assms dyn_ser_des_filed [of reg "uint (hd s)" s q True] by (simp add: parse_request_eq)
qed

lemma parse_response_exact:
  assumes "registry_ok reg" and "parse_response reg s = Inr q" and "count_agrees q"
  shows "dyn_serialize q = Inr s"
proof -
  have ne: "s \<noteq> []" using assms(2) by auto
  show ?thesis
  proof (cases "0x80 \<le> uint (hd s)")
    case True
    then show ?thesis
      using assms ne common_ser_des [of ModbusError_t s] by (auto simp: parse_response_exception res_simps)
  next
    case False
    then show ?thesis
      using assms ne dyn_ser_des_filed [of reg "uint (hd s) + 0x8000" s q False] by (simp add: parse_response_eq)
  qed
qed

end
