(* ===== verification/Pdu_Sizing.thy ===== *)
theory Pdu_Sizing imports Pdu_Parser begin

text \<open>
  What \<open>expected_size\<close> answers for every class: the abstract rule a layout is sized by, that the
  code implements it, and the two facts the RTU framing rests on. An answer never changes as
  more bytes arrive, and for a PDU whose count field is truthful it is the PDU's own length.
\<close>

section \<open>The rule a layout is sized by\<close>

datatype sizing =
    FixedSize nat          \<comment> \<open>no repeated tail\<close>
  | CountedSize nat        \<comment> \<open>the head's last byte counts the bytes of the tail\<close>
  | SubFunctionSize        \<comment> \<open>the Diagnostics layout: sized by its sub-function\<close>
  | NoSize

definition class_sizing :: "pdu_class \<Rightarrow> sizing" where
  "class_sizing cls = (case PDU_FORMAT cls of
     PduFormat e cs None \<Rightarrow> FixedSize (codes_size cs)
   | PduFormat e cs (Some c) \<Rightarrow> if PDU_COUNT cls = None then NoSize else CountedSize (codes_size cs))"

fun type_sizing :: "pdu_type \<Rightarrow> sizing" where
  "type_sizing (DiagnosticsT RequestFC8_t) = SubFunctionSize"
| "type_sizing (DiagnosticsT ResponseFC8_t) = SubFunctionSize"
| "type_sizing t = class_sizing (dyn_decl t)"

definition loopback_sub_functions :: "int set" where
  "loopback_sub_functions = set DIAGNOSTIC_SUB_FUNCTIONS - {DIAGNOSTIC_ECHO_SUB_FUNCTION}"

fun sized_by :: "sizing \<Rightarrow> bytes \<Rightarrow> int option pyres" where
  "sized_by (FixedSize n) s = Inr (Some (int n))"
| "sized_by (CountedSize n) s = (if length s < n then Inr None else Inr (Some (int n + uint (s ! (n - 1)))))"
| "sized_by SubFunctionSize s =
     (if length s < 3 then Inr None
      else if 256 * uint (s ! 1) + uint (s ! 2) \<in> loopback_sub_functions then Inr (Some 5)
      else Inl ModbusPacketError)"
| "sized_by NoSize s = Inl ModbusPacketError"

section \<open>The code implements the rule\<close>

lemma diagnostic_size_from_prefix_eq: "diagnostic_size_from_prefix s = sized_by SubFunctionSize s"
proof (cases "length s < 3")
  case True
  then show ?thesis by (simp add: diagnostic_size_from_prefix_def PY_SSIZE_T_MAX_def)
next
  case False
  then obtain a b c r where "s = a # b # c # r"
    by (metis (no_types, lifting) Suc_leI length_Suc_conv less_Suc_eq_le not_less numeral_3_eq_3 Suc_le_length_iff)
  then show ?thesis
    by (simp add: diagnostic_size_from_prefix_def DIAGNOSTIC_SIZE_def struct_unpack.simps
        PY_SSIZE_T_MAX_def loopback_sub_functions_def Let_def)
qed

lemma dyn_expected_size_rule: "dyn_expected_size t s = sized_by (type_sizing t) s"
proof (cases t)
  case (CommonT c)
  then show ?thesis
    by (cases c) (simp_all add: class_sizing_def pdu_expected_size_def fmt_raw.simps PY_SSIZE_T_MAX_def
        ModbusPdu_cls_def ModbusError_cls_def)
next
  case (BitsT c)
  then show ?thesis
    by (cases c) (simp_all add: class_sizing_def pdu_expected_size_def fmt_raw.simps PY_SSIZE_T_MAX_def bits_cls_defs)
next
  case (RegistersT c)
  then show ?thesis
    by (cases c) (simp_all add: class_sizing_def pdu_expected_size_def fmt_raw.simps PY_SSIZE_T_MAX_def registers_cls_defs)
next
  case (DiagnosticsT c)
  then show ?thesis
    by (cases c) (simp_all add: class_sizing_def pdu_expected_size_def fmt_raw.simps PY_SSIZE_T_MAX_def
        diagnostics_cls_defs diagnostic_size_from_prefix_eq)
next
  case (EncapsulatedT c)
  then show ?thesis
    by (cases c) (simp_all add: class_sizing_def pdu_expected_size_def fmt_raw.simps PY_SSIZE_T_MAX_def encapsulated_cls_defs)
qed

section \<open>More bytes never change an answer\<close>

lemma dyn_format_fc_first: "\<exists>e cs c. PDU_FORMAT (dyn_decl t) = PduFormat e (UByte # cs) c"
proof (cases t)
  case (CommonT c)
  then show ?thesis by (cases c) (simp_all add: ModbusPdu_cls_def ModbusError_cls_def)
next
  case (BitsT c)
  then show ?thesis by (cases c) (simp_all add: bits_cls_defs)
next
  case (RegistersT c)
  then show ?thesis by (cases c) (simp_all add: registers_cls_defs)
next
  case (DiagnosticsT c)
  then show ?thesis by (cases c) (simp_all add: diagnostics_cls_defs)
next
  case (EncapsulatedT c)
  then show ?thesis by (cases c) (simp_all add: encapsulated_cls_defs)
qed

fun sizing_head :: "sizing \<Rightarrow> nat" where
  "sizing_head (FixedSize n) = n"
| "sizing_head (CountedSize n) = n"
| "sizing_head _ = 1"

lemma type_sizing_head: "0 < sizing_head (type_sizing t)"
proof -
  have "0 < sizing_head (class_sizing (dyn_decl t))"
    using dyn_format_fc_first [of t] by (auto simp: class_sizing_def split: option.splits)
  then show ?thesis by (cases t rule: type_sizing.cases) simp_all
qed

lemma sized_by_Some_append:
  "0 < sizing_head r \<Longrightarrow> sized_by r s = Inr (Some n) \<Longrightarrow> sized_by r (s @ u) = Inr (Some n)"
  by (cases r) (auto simp: nth_append split: if_splits)

lemma sized_by_Inl_append: "sized_by r s = Inl e \<Longrightarrow> sized_by r (s @ u) = Inl e"
  by (cases r) (auto simp: nth_append split: if_splits)

lemma expected_size_Some_append:
  "dyn_expected_size t s = Inr (Some n) \<Longrightarrow> dyn_expected_size t (s @ u) = Inr (Some n)"
  by (simp add: dyn_expected_size_rule sized_by_Some_append type_sizing_head)

lemma expected_size_Inl_append:
  "dyn_expected_size t s = Inl e \<Longrightarrow> dyn_expected_size t (s @ u) = Inl e"
  by (simp add: dyn_expected_size_rule sized_by_Inl_append)

lemma expected_size_positive: "dyn_expected_size t s = Inr (Some n) \<Longrightarrow> 0 < n"
  using type_sizing_head [of t]
  by (cases "type_sizing t") (auto simp: dyn_expected_size_rule add_pos_nonneg split: if_splits)

lemma expected_size_raises: "raises_only is_ModbusPacketError (dyn_expected_size t s)"
  by (cases "type_sizing t") (simp_all add: dyn_expected_size_rule)

section \<open>How large an answer can be\<close>

text \<open>The longest head is that of FC23's request, ten bytes, and a count byte announces 255 at most.\<close>

fun sizing_bounded :: "sizing \<Rightarrow> bool" where
  "sizing_bounded (FixedSize n) = (n \<le> 10)"
| "sizing_bounded (CountedSize n) = (n \<le> 10)"
| "sizing_bounded _ = True"

lemma type_sizing_bounded: "sizing_bounded (type_sizing t)"
proof (cases t)
  case (CommonT c)
  then show ?thesis by (cases c) (simp_all add: class_sizing_def ModbusPdu_cls_def ModbusError_cls_def)
next
  case (BitsT c)
  then show ?thesis by (cases c) (simp_all add: class_sizing_def bits_cls_defs)
next
  case (RegistersT c)
  then show ?thesis by (cases c) (simp_all add: class_sizing_def registers_cls_defs)
next
  case (DiagnosticsT c)
  then show ?thesis by (cases c) (simp_all add: class_sizing_def diagnostics_cls_defs)
next
  case (EncapsulatedT c)
  then show ?thesis by (cases c) (simp_all add: class_sizing_def encapsulated_cls_defs)
qed

lemma uint_byte_le: "uint (b :: byte) \<le> 255"
  using uint_byte_bounds [of b] by linarith

lemma sized_by_bounded:
  assumes "sizing_bounded r"
  shows "sized_by r s = Inr (Some n) \<Longrightarrow> n \<le> 265" and "sized_by r s = Inr None \<Longrightarrow> length s < 10"
  using assms uint_byte_le
  by (cases r; fastforce split: if_splits intro: add_mono [of "int _" 10 "uint _" 255, simplified])+

lemma expected_size_bounded:
  "dyn_expected_size t s = Inr (Some n) \<Longrightarrow> n \<le> 265"
  "dyn_expected_size t s = Inr None \<Longrightarrow> length s < 10"
  unfolding dyn_expected_size_rule
  by (rule sized_by_bounded [OF type_sizing_bounded], assumption)+

section \<open>The answer for a PDU that was serialized\<close>

text \<open>A layout the registry can size, and a count field that says what the PDU holds.\<close>

fun bits_sizable :: "bits_pdu \<Rightarrow> bool" where
  "bits_sizable (ModbusRequestFC15 start_addr quantity byte_count values) = (byte_count = int (length values))"
| "bits_sizable _ = True"

fun registers_sizable :: "registers_pdu \<Rightarrow> bool" where
  "registers_sizable (ModbusResponseFC3 byte_count values) = (byte_count = 2 * int (length values))"
| "registers_sizable (ModbusResponseFC4 byte_count values) = (byte_count = 2 * int (length values))"
| "registers_sizable (ModbusRequestFC16 start_addr quantity byte_count values) =
     (byte_count = 2 * int (length values))"
| "registers_sizable (ModbusRequestFC23 ra rq wa wq write_byte_count write_values) =
     (write_byte_count = 2 * int (length write_values))"
| "registers_sizable (ModbusResponseFC23 byte_count values) = (byte_count = 2 * int (length values))"
| "registers_sizable _ = True"

fun diagnostics_sizable :: "diagnostics_pdu \<Rightarrow> bool" where
  "diagnostics_sizable (ModbusRequestFC8 sub_func subfunc_data) =
     (sub_func \<in> loopback_sub_functions \<and> length subfunc_data = 1)"
| "diagnostics_sizable (ModbusResponseFC8 sub_func subfunc_data) =
     (sub_func \<in> loopback_sub_functions \<and> length subfunc_data = 1)"
| "diagnostics_sizable _ = True"

fun sizable :: "pdu \<Rightarrow> bool" where
  "sizable (CommonPdu p) = (common_class_of p = ModbusError_t)"
| "sizable (BitsPdu p) = bits_sizable p"
| "sizable (RegistersPdu p) = registers_sizable p"
| "sizable (DiagnosticsPdu p) = diagnostics_sizable p"
| "sizable (EncapsulatedPdu p) = False"

lemma pack_codes_count:
  "pack_codes e (cs @ UByte # ds) (vs @ v # ws) = Inr s \<Longrightarrow> length vs = length cs \<Longrightarrow>
     uint (s ! codes_size cs) = v \<and> codes_size cs < length s"
proof (induction cs arbitrary: vs s)
  case Nil
  then show ?case
    by (auto simp: pack_code_def code_max_def uint_word_of_int_byte res_simps split: if_splits)
next
  case (Cons c cs)
  then obtain v0 vs' where vs: "vs = v0 # vs'" by (cases vs) auto
  then obtain b t where "pack_code e c v0 = Inr b"
    and t: "pack_codes e (cs @ UByte # ds) (vs' @ v # ws) = Inr t" and s: "s = b @ t"
    using Cons.prems by (auto simp: res_simps)
  then have "length b = code_size c" by (auto simp: pack_code_def split: if_splits)
  moreover have "uint (t ! codes_size cs) = v \<and> codes_size cs < length t"
    using Cons.IH [OF t] Cons.prems vs by simp
  ultimately show ?case by (simp add: s nth_append)
qed

lemma struct_pack_count:
  assumes "struct_pack (fmt_format (PduFormat e (cs @ [UByte]) (Some c)) n) (vs @ v # ws) = Inr s"
    and "length vs = length cs"
  shows "uint (s ! codes_size cs) = v \<and> codes_size cs < length s"
  using assms pack_codes_count [of e cs "replicate (nat n) c" vs v ws s]
  by (auto simp: fmt_format.simps struct_pack.simps res_simps split: if_splits)

lemma struct_pack_counts:
  "struct_pack (fmt_format (PduFormat e [UByte, UByte] (Some c)) n) (a # v # ws) = Inr s \<Longrightarrow>
     uint (s ! Suc 0) = v \<and> int (length s) = 2 + n * int (code_size c) \<and> 0 \<le> n"
  "struct_pack (fmt_format (PduFormat e [UByte, UShort, UShort, UByte] (Some c)) n) (a # a1 # a2 # v # ws) = Inr s \<Longrightarrow>
     uint (s ! 5) = v \<and> int (length s) = 6 + n * int (code_size c)"
  "struct_pack (fmt_format (PduFormat e [UByte, UShort, UShort, UShort, UShort, UByte] (Some c)) n)
     (a # a1 # a2 # a3 # a4 # v # ws) = Inr s \<Longrightarrow>
     uint (s ! 9) = v \<and> int (length s) = 10 + n * int (code_size c)"
  using struct_pack_count [of e "[UByte]" c n "[a]" v ws s]
    struct_pack_count [of e "[UByte, UShort, UShort]" c n "[a, a1, a2]" v ws s]
    struct_pack_count [of e "[UByte, UShort, UShort, UShort, UShort]" c n "[a, a1, a2, a3, a4]" v ws s]
  by (auto dest: struct_pack_repeat(2,3))

lemma fixed_size:
  "struct_pack (fmt_raw (PduFormat e cs None)) vs = Inr s \<Longrightarrow> length s = codes_size cs"
  by (auto simp: fmt_raw.simps dest!: struct_pack_length split: if_splits)

lemma bits_sized:
  assumes "bits_serialize p = Inr s" and "bits_sizable p"
  shows "sized_by (type_sizing (BitsT (bits_class_of p))) s = Inr (Some (int (length s)))"
  using assms
  by (cases p)
    (auto simp: bits_serialize_eqs res_simps class_sizing_def bits_cls_defs
      dest!: struct_pack_counts fixed_size)

lemma registers_sized:
  assumes "registers_serialize p = Inr s" and "registers_sizable p"
  shows "sized_by (type_sizing (RegistersT (registers_class_of p))) s = Inr (Some (int (length s)))"
  using assms
  by (cases p)
    (auto simp: registers_serialize_eqs res_simps class_sizing_def registers_cls_defs
      dest!: struct_pack_counts fixed_size)

lemma diagnostics_sized:
  assumes "diagnostics_serialize p = Inr s" and "diagnostics_sizable p"
  shows "sized_by (type_sizing (DiagnosticsT (diagnostics_class_of p))) s = Inr (Some (int (length s)))"
proof -
  have sub: "sized_by SubFunctionSize s = Inr (Some (int (length s)))"
    if pack: "struct_pack (fmt_format (PduFormat Big [UByte, UShort] (Some UShort)) 1) [8, f, x] = Inr s"
      and f: "f \<in> loopback_sub_functions" for f x
  proof -
    have "fits UShort f"
      using f by (auto simp: loopback_sub_functions_def fits_def code_max_def DIAGNOSTIC_SUB_FUNCTIONS_def)
    then show ?thesis
      using pack f
      by (auto simp: fmt_format.simps struct_pack.simps pack_code_def res_simps code_max_def fits_def
          uint_word_of_int_byte split: if_splits)
  qed
  show ?thesis
    using assms
    by (cases p)
      (auto simp: diagnostics_serialize_eqs res_simps class_sizing_def diagnostics_cls_defs length_Suc_conv
        simp del: sized_by.simps(3) dest!: fixed_size intro: sub)
qed

lemma expected_size_serialized:
  assumes "dyn_serialize p = Inr s" and "sizable p"
  shows "dyn_expected_size (dyn_type p) (s @ u) = Inr (Some (int (length s)))"
proof -
  have "sized_by (type_sizing (dyn_type p)) s = Inr (Some (int (length s)))"
  proof (cases p)
    case (CommonPdu q)
    then show ?thesis
      using assms by (cases q) (auto simp: ModbusError_serialize_iff class_sizing_def ModbusError_cls_def)
  qed (use assms bits_sized registers_sized diagnostics_sized in auto)
  then show ?thesis
    by (simp add: dyn_expected_size_rule sized_by_Some_append type_sizing_head)
qed

end
