(* ===== verification/Pdu_Typing.thy ===== *)
theory Pdu_Typing imports Pdu_Parser begin

text \<open>
  What a well-typed PDU is: every value fits the code its class's layout gives it, the repeated
  tail included. What \<open>deserialize\<close> builds is well typed, whatever the bytes, and \<open>serialize\<close>
  accepts exactly the well-typed PDUs (of a size a buffer can have, and, for the two responses
  that serialize under their own count, of a count that agrees). Then \<open>__eq__\<close>, which compares
  attributes and not classes: what it identifies is a request and the response that echoes it.
\<close>

section \<open>Well-typed PDUs\<close>

fun layout_codes :: "pdu_format \<Rightarrow> nat \<Rightarrow> code list" where
  "layout_codes (PduFormat e cs None) n = cs"
| "layout_codes (PduFormat e cs (Some c)) n = cs @ replicate (n - length cs) c"

definition wire_values :: "pdu \<Rightarrow> int list pyres" where
  "wire_values p = bindE (pdu_data (dyn_self p)) (\<lambda>d. Inr (wire_fc p # d))"

definition wire_layout :: "pdu \<Rightarrow> int list \<Rightarrow> code list" where
  "wire_layout p vs = layout_codes (PDU_FORMAT (dyn_decl (dyn_type p))) (length vs)"

definition dyn_typed :: "pdu \<Rightarrow> bool" where
  "dyn_typed p = (case wire_values p of Inl e \<Rightarrow> False | Inr vs \<Rightarrow> list_all2 fits (wire_layout p vs) vs)"

definition wire_size :: "pdu \<Rightarrow> int" where
  "wire_size p = (case wire_values p of Inl e \<Rightarrow> 0 | Inr vs \<Rightarrow> int (codes_size (wire_layout p vs)))"

lemma unpack_fixed_fits:
  assumes "struct_unpack (fmt_raw (PduFormat e (UByte # cs) None)) s = Inr vs"
  shows "\<exists>xs. vs = uint (hd s) # xs \<and> list_all2 fits cs xs"
proof -
  obtain xs where xs: "vs = uint (hd s) # xs"
    "struct_pack (fmt_raw (PduFormat e (UByte # cs) None)) (uint (hd s) # xs) = Inr s"
    using unpack_fixed_shape [OF assms] by blast
  then show ?thesis using pack_raw_Inr_iff [of e "UByte # cs" "uint (hd s) # xs"] by simp
qed

lemma unpack_repeat_fits:
  assumes "struct_unpack (fmt_format (PduFormat e (UByte # cs) (Some c)) n) s = Inr vs"
  shows "\<exists>xs ts. vs = uint (hd s) # xs @ ts \<and> list_all2 fits cs xs \<and> (\<forall>t\<in>set ts. fits c t)"
proof -
  obtain xs ts where xs: "vs = uint (hd s) # xs @ ts" "length xs = length cs"
    "struct_pack (fmt_format (PduFormat e (UByte # cs) (Some c)) (int (length ts))) (uint (hd s) # xs @ ts) = Inr s"
    using unpack_repeat_shape [OF assms] by blast
  then have "list_all2 fits (cs @ replicate (length ts) c) (xs @ ts)"
    using pack_format_Inr_iff [of e "UByte # cs" c "int (length ts)" "uint (hd s) # xs @ ts"] by simp
  then show ?thesis
    using xs(1,2) by (auto simp: list_all2_append list_all2_replicate)
qed

lemma fits_code [simp]: "0 \<le> v \<Longrightarrow> v < 256 \<Longrightarrow> fits UByte v"
  by (simp add: fits_def code_max_def)

lemmas typing_simps = dyn_typed_def wire_values_def wire_layout_def list_all2_append list_all2_replicate list_all2_Cons1

text \<open>What a class builds from bytes.\<close>

lemma bits_typed: "bits_deserialize c s = Inr p \<Longrightarrow> dyn_typed (BitsPdu p)"
  by (cases c)
    (auto simp: typing_simps bits_deserialize_defs bits_cls_defs res_simps
      dest!: unpack_fixed_fits unpack_repeat_fits, simp_all add: pdu_defs)

lemma registers_typed: "registers_deserialize c s = Inr p \<Longrightarrow> dyn_typed (RegistersPdu p)"
  by (cases c)
    (auto simp: typing_simps registers_deserialize_defs registers_cls_defs res_simps
      dest!: unpack_fixed_fits unpack_repeat_fits, simp_all add: pdu_defs)

lemma diagnostics_typed: "diagnostics_deserialize c s = Inr p \<Longrightarrow> dyn_typed (DiagnosticsPdu p)"
  by (cases c)
    (auto simp: typing_simps diagnostics_deserialize_defs diagnostics_cls_defs res_simps
      dest!: unpack_fixed_fits unpack_repeat_fits, simp_all add: pdu_defs)

lemma encapsulated_typed: "encapsulated_deserialize c s = Inr p \<Longrightarrow> dyn_typed (EncapsulatedPdu p)"
  by (cases c)
    (auto simp: typing_simps encapsulated_deserialize_defs encapsulated_cls_defs res_simps
      dest!: unpack_fixed_fits unpack_repeat_fits, simp_all add: pdu_defs)

lemma uint_byte_fits [simp]: "fits UByte (uint (b :: byte))"
  using uint_byte_bounds [of b] by simp

lemma common_typed: "common_deserialize c s = Inr p \<Longrightarrow> dyn_typed (CommonPdu p)"
proof (cases c)
  case ModbusPdu_t
  moreover assume "common_deserialize c s = Inr p"
  ultimately obtain vs where u: "struct_unpack (fmt_format (PduFormat Big [UByte] (Some UByte)) (int (length s) - 1)) s = Inr vs"
    and "(case vs of [] \<Rightarrow> Inl IndexError | fc # data \<Rightarrow> Inr (ModbusPdu fc data)) = Inr p"
    by (auto simp: ModbusPdu_deserialize_def ModbusPdu_unpack_def ModbusPdu_cls_def res_simps)
  then obtain fc data where "vs = fc # data" and "p = ModbusPdu fc data" by (cases vs) auto
  with u show ?thesis
    by (auto simp: typing_simps ModbusPdu_cls_def pdu_data_def seq_attr_def ModbusPdu_self_def dest!: unpack_repeat_fits)
next
  case ModbusError_t
  moreover assume "common_deserialize c s = Inr p"
  ultimately show ?thesis
    by (auto simp: ModbusError_deserialize_iff typing_simps ModbusError_cls_def ERROR_MASK_def)
qed

theorem dyn_deserialize_typed: "dyn_deserialize t s = Inr p \<Longrightarrow> dyn_typed p"
  by (cases t) (auto simp: res_simps common_typed bits_typed registers_typed diagnostics_typed encapsulated_typed)

section \<open>What \<open>serialize\<close> accepts\<close>

lemmas packing_simps = serialize_reraise pack_raw_Inr_iff pack_format_Inr_iff typing_simps wire_size_def
  PY_SSIZE_T_MAX_def fits_def

lemma bits_serializes:
  "(\<exists>s. bits_serialize p = Inr s) \<longleftrightarrow>
     dyn_typed (BitsPdu p) \<and> bits_count_agrees p \<and> wire_size (BitsPdu p) \<le> PY_SSIZE_T_MAX"
  by (cases p; simp add: packing_simps bits_serialize_eqs bits_cls_defs; auto simp: pdu_defs)

lemma registers_serializes:
  "(\<exists>s. registers_serialize p = Inr s) \<longleftrightarrow>
     dyn_typed (RegistersPdu p) \<and> wire_size (RegistersPdu p) \<le> PY_SSIZE_T_MAX"
  by (cases p; simp add: packing_simps registers_serialize_eqs registers_cls_defs; auto simp: pdu_defs)

lemma diagnostics_serializes:
  "(\<exists>s. diagnostics_serialize p = Inr s) \<longleftrightarrow>
     dyn_typed (DiagnosticsPdu p) \<and> wire_size (DiagnosticsPdu p) \<le> PY_SSIZE_T_MAX"
  by (cases p; simp add: packing_simps diagnostics_serialize_eqs diagnostics_cls_defs; auto simp: pdu_defs)

lemma encapsulated_serializes:
  "(\<exists>s. encapsulated_serialize p = Inr s) \<longleftrightarrow>
     dyn_typed (EncapsulatedPdu p) \<and> wire_size (EncapsulatedPdu p) \<le> PY_SSIZE_T_MAX"
  by (cases p; simp add: packing_simps encapsulated_serialize_eqs encapsulated_cls_defs; auto simp: pdu_defs)

lemma common_serializes:
  "(\<exists>s. common_serialize p = Inr s) \<longleftrightarrow>
     dyn_typed (CommonPdu p) \<and> wire_size (CommonPdu p) \<le> PY_SSIZE_T_MAX"
proof (cases p)
  case (ModbusPdu fc data)
  then show ?thesis
    by (simp add: packing_simps ModbusPdu_serialize_eq ModbusPdu_cls_def pdu_data_def seq_attr_def ModbusPdu_self_def) auto
next
  case (ModbusError fc exc_code)
  then show ?thesis
    by (simp add: packing_simps ModbusError_serialize_iff ModbusError_cls_def ERROR_MASK_def)
qed

theorem dyn_serializes:
  "(\<exists>s. dyn_serialize p = Inr s) \<longleftrightarrow> dyn_typed p \<and> count_agrees p \<and> wire_size p \<le> PY_SSIZE_T_MAX"
  by (cases p) (simp_all add: common_serializes bits_serializes registers_serializes diagnostics_serializes
      encapsulated_serializes conj_ac)

section \<open>What \<open>__eq__\<close> identifies\<close>

text \<open>
  The other direction of an echo: the five functions whose request and response carry the same
  attributes. A comparison cannot tell the two apart.
\<close>

fun echo_twin :: "pdu \<Rightarrow> pdu option" where
  "echo_twin (BitsPdu (ModbusRequestFC5 a v)) = Some (BitsPdu (ModbusResponseFC5 a v))"
| "echo_twin (BitsPdu (ModbusResponseFC5 a v)) = Some (BitsPdu (ModbusRequestFC5 a v))"
| "echo_twin (RegistersPdu (ModbusRequestFC6 a v)) = Some (RegistersPdu (ModbusResponseFC6 a v))"
| "echo_twin (RegistersPdu (ModbusResponseFC6 a v)) = Some (RegistersPdu (ModbusRequestFC6 a v))"
| "echo_twin (RegistersPdu (ModbusRequestFC22 r a v)) = Some (RegistersPdu (ModbusResponseFC22 r a v))"
| "echo_twin (RegistersPdu (ModbusResponseFC22 r a v)) = Some (RegistersPdu (ModbusRequestFC22 r a v))"
| "echo_twin (DiagnosticsPdu (ModbusRequestFC8 f d)) = Some (DiagnosticsPdu (ModbusResponseFC8 f d))"
| "echo_twin (DiagnosticsPdu (ModbusResponseFC8 f d)) = Some (DiagnosticsPdu (ModbusRequestFC8 f d))"
| "echo_twin (EncapsulatedPdu (ModbusRequestFC43 t d)) = Some (EncapsulatedPdu (ModbusResponseFC43 t d))"
| "echo_twin (EncapsulatedPdu (ModbusResponseFC43 t d)) = Some (EncapsulatedPdu (ModbusRequestFC43 t d))"
| "echo_twin p = None"

lemma pdu_eq_fc_first:
  "pdu_eq p q \<longleftrightarrow> (if self_fc p = self_fc q then
     set (self_ints p) \<subseteq> set (self_ints q) \<and> set (self_ints q) \<subseteq> set (self_ints p) \<and>
     set (self_seqs p) \<subseteq> set (self_seqs q) \<and> set (self_seqs q) \<subseteq> set (self_seqs p) else False)"
  by (auto simp: pdu_eq_def)

lemma bits_eq: "pdu_eq (bits_self p) (bits_self q) \<longleftrightarrow> p = q \<or> echo_twin (BitsPdu p) = Some (BitsPdu q)"
  unfolding pdu_eq_fc_first by (cases p; cases q; simp add: pdu_defs; blast?)

lemma registers_eq:
  "pdu_eq (registers_self p) (registers_self q) \<longleftrightarrow> p = q \<or> echo_twin (RegistersPdu p) = Some (RegistersPdu q)"
  unfolding pdu_eq_fc_first by (cases p; cases q; simp add: pdu_defs; blast?)

lemma diagnostics_eq:
  "pdu_eq (diagnostics_self p) (diagnostics_self q) \<longleftrightarrow> p = q \<or> echo_twin (DiagnosticsPdu p) = Some (DiagnosticsPdu q)"
  unfolding pdu_eq_fc_first by (cases p; cases q; simp add: pdu_defs; blast?)

lemma encapsulated_eq:
  "pdu_eq (encapsulated_self p) (encapsulated_self q) \<longleftrightarrow> p = q \<or> echo_twin (EncapsulatedPdu p) = Some (EncapsulatedPdu q)"
  unfolding pdu_eq_fc_first by (cases p; cases q; simp add: pdu_defs; blast?)

lemma common_eq: "pdu_eq (common_self p) (common_self q) \<longleftrightarrow> p = q"
  unfolding pdu_eq_fc_first by (cases p; cases q; simp add: pdu_defs; blast?)

text \<open>Across the modules it is the function code, or the name of an attribute, that tells two PDUs apart.\<close>

definition attr_names :: "pdu_self \<Rightarrow> string set" where
  "attr_names self = fst ` set (self_ints self) \<union> fst ` set (self_seqs self)"

lemma pdu_eq_names: "pdu_eq p q \<Longrightarrow> self_fc p = self_fc q \<and> attr_names p = attr_names q"
  by (simp add: pdu_eq_def attr_names_def)

fun group_codes :: "pdu \<Rightarrow> int set" where
  "group_codes (BitsPdu p) = {1, 2, 5, 15}"
| "group_codes (RegistersPdu p) = {3, 4, 6, 16, 22, 23}"
| "group_codes (DiagnosticsPdu p) = {7, 8}"
| "group_codes (EncapsulatedPdu p) = {43}"
| "group_codes (CommonPdu p) = UNIV"

lemma group_codes_fc: "self_fc (dyn_self p) \<in> group_codes p"
proof (cases p)
  case (BitsPdu q)
  then show ?thesis by (cases q) (simp_all add: pdu_defs)
next
  case (RegistersPdu q)
  then show ?thesis by (cases q) (simp_all add: pdu_defs)
next
  case (DiagnosticsPdu q)
  then show ?thesis by (cases q) (simp_all add: pdu_defs)
next
  case (EncapsulatedPdu q)
  then show ?thesis by (cases q) (simp_all add: pdu_defs)
qed simp

lemma common_names:
  "(\<exists>q. p = CommonPdu q) \<longleftrightarrow> ''_data'' \<in> attr_names (dyn_self p) \<or> ''exc_code'' \<in> attr_names (dyn_self p)"
proof (cases p)
  case (CommonPdu q)
  then show ?thesis by (cases q) (simp_all add: attr_names_def pdu_defs)
next
  case (BitsPdu q)
  then show ?thesis by (cases q) (simp_all add: attr_names_def pdu_defs)
next
  case (RegistersPdu q)
  then show ?thesis by (cases q) (simp_all add: attr_names_def pdu_defs)
next
  case (DiagnosticsPdu q)
  then show ?thesis by (cases q) (simp_all add: attr_names_def pdu_defs)
next
  case (EncapsulatedPdu q)
  then show ?thesis by (cases q) (simp_all add: attr_names_def pdu_defs)
qed

lemma dyn_eq_common:
  "pdu_eq (dyn_self p) (dyn_self q) \<Longrightarrow> (\<exists>a. p = CommonPdu a) \<longleftrightarrow> (\<exists>b. q = CommonPdu b)"
  by (simp only: common_names pdu_eq_names)

lemma echo_twin_eq: "echo_twin p = Some q \<Longrightarrow> pdu_eq (dyn_self p) (dyn_self q)"
  by (cases p rule: echo_twin.cases) (auto simp: pdu_eq_def pdu_defs)

theorem dyn_eq: "pdu_eq (dyn_self p) (dyn_self q) \<longleftrightarrow> p = q \<or> echo_twin p = Some q"
proof
  assume eq: "pdu_eq (dyn_self p) (dyn_self q)"
  have "self_fc (dyn_self p) = self_fc (dyn_self q)" using pdu_eq_names [OF eq] by simp
  then have "group_codes p \<inter> group_codes q \<noteq> {}"
    using group_codes_fc [of p] group_codes_fc [of q] by auto
  with eq dyn_eq_common [OF eq] show "p = q \<or> echo_twin p = Some q"
    by (cases p; cases q) (auto simp: bits_eq registers_eq diagnostics_eq encapsulated_eq common_eq)
next
  assume "p = q \<or> echo_twin p = Some q"
  then show "pdu_eq (dyn_self p) (dyn_self q)"
    by (auto simp: echo_twin_eq) (simp add: pdu_eq_def)
qed

end
