(* ===== verification/Adu_Rtu.thy ===== *)
theory Adu_Rtu imports Pdu_Sizing begin

text \<open>
  \<open>src/pyomb/adu/rtu.py\<close>: the CRC-16/MODBUS checksum, its check on a received frame, and the
  three RTU frame classes. The checksum is computed on Python's integers, as the code does; the
  lemmas refine it to a 16-bit register, show it linear and injective in the register, and from
  that what a corrupted frame can and cannot get past.
\<close>

unbundle bit_operations_syntax

section \<open>The checksum\<close>

definition CRC_FMT :: struct_fmt where
  "CRC_FMT = StructFmt Little [UShort] None"

definition CRC_SIZE :: nat where
  "CRC_SIZE = 2"

definition crc_shift :: "int \<Rightarrow> int" where
  "crc_shift crc = (if crc AND 0x0001 \<noteq> 0 then drop_bit 1 crc XOR 0xA001 else drop_bit 1 crc)"

definition crc_byte :: "int \<Rightarrow> byte \<Rightarrow> int" where
  "crc_byte crc b = (crc_shift ^^ 8) (crc XOR uint b)"

definition calc_crc16 :: "bytes \<Rightarrow> int" where
  "calc_crc16 data = foldl crc_byte 0xFFFF data"

definition validate_crc :: "bytes \<Rightarrow> int pyres" where
  "validate_crc stream =
     (if length stream < 2 + CRC_SIZE then Inl ModbusPacketError
      else bindE (struct_unpack CRC_FMT (take_last CRC_SIZE stream)) (\<lambda>vs.
        let received = vs ! 0; expected = calc_crc16 (drop_last CRC_SIZE stream)
        in if received \<noteq> expected then Inl ModbusPacketError else Inr received))"

section \<open>The register: sixteen bits, linear, injective\<close>

type_synonym register = "16 word"

definition reg_shift :: "register \<Rightarrow> register" where
  "reg_shift w = drop_bit 1 w XOR (if bit w 0 then 0xA001 else 0)"

definition reg_byte :: "register \<Rightarrow> byte \<Rightarrow> register" where
  "reg_byte w b = (reg_shift ^^ 8) (w XOR ucast b)"

definition reg_run :: "register \<Rightarrow> bytes \<Rightarrow> register" where
  "reg_run w data = foldl reg_byte w data"

lemma uint_register_drop: "uint (drop_bit 1 (w :: register)) = drop_bit 1 (uint w)"
proof -
  have "take_bit 16 (uint w) = uint w"
    using uint_bounded [of w] by (simp add: take_bit_int_eq_self)
  then show ?thesis by (simp only: unsigned_drop_bit_eq) simp
qed

lemma crc_shift_reg: "crc_shift (uint w) = uint (reg_shift w)"
proof -
  have "uint w AND 1 \<noteq> 0 \<longleftrightarrow> bit (uint w) 0"
    by (simp add: and_one_eq bit_0 odd_iff_mod_2_eq_one [symmetric])
  also have "\<dots> \<longleftrightarrow> bit w 0"
    by (simp add: bit_uint_iff)
  finally have "uint w AND 1 \<noteq> 0 \<longleftrightarrow> bit w 0" .
  then show ?thesis
    using uint_register_drop [of w] by (simp add: crc_shift_def reg_shift_def unsigned_xor_eq)
qed

lemma crc_shifts_reg: "(crc_shift ^^ n) (uint w) = uint ((reg_shift ^^ n) w)"
  by (induction n) (simp_all add: crc_shift_reg)

lemma crc_byte_reg: "crc_byte (uint w) b = uint (reg_byte w b)"
proof -
  have "take_bit 16 (uint b) = uint b"
    using uint_byte_bounds [of b] by (simp add: take_bit_int_eq_self)
  then have "uint w XOR uint b = uint (w XOR ucast b)"
    by (simp add: unsigned_xor_eq unsigned_ucast_eq)
  then show ?thesis by (simp add: crc_byte_def reg_byte_def crc_shifts_reg)
qed

lemma calc_crc16_reg: "calc_crc16 data = uint (reg_run 0xFFFF data)"
proof -
  have "foldl crc_byte (uint w) data = uint (reg_run w data)" for w
    by (induction data arbitrary: w) (simp_all add: reg_run_def crc_byte_reg)
  from this [of "0xFFFF"] show ?thesis by (simp add: calc_crc16_def)
qed

lemma calc_crc16_bounds: "0 \<le> calc_crc16 data \<and> calc_crc16 data < 65536"
  using uint_bounded [of "reg_run 0xFFFF data"] by (simp add: calc_crc16_reg)

lemma reg_shift_0 [simp]: "reg_shift 0 = 0"
  by (simp add: reg_shift_def)

lemma reg_shift_xor: "reg_shift (v XOR w) = reg_shift v XOR reg_shift w"
  by (rule bit_word_eqI) (auto simp: reg_shift_def bit_simps)

lemma bit_15_mask: "bit (0xA001 :: register) 15"
  by simp

lemma reg_shift_top: "bit (reg_shift w) 15 \<longleftrightarrow> bit w 0"
proof -
  have "\<not> bit w 16" using bit_imp_le_length [of w 16] by auto
  then show ?thesis by (simp add: reg_shift_def bit_simps)
qed

text \<open>A register that comes out with its top bit clear was shifted with no feedback.\<close>

lemma reg_shift_small:
  assumes "uint (reg_shift w) < 2 ^ 15"
  shows "uint w = 2 * uint (reg_shift w)"
proof -
  have "\<not> bit (uint (reg_shift w)) 15"
    using assms by (simp add: bit_iff_odd)
  then have "\<not> bit w 0"
    by (simp add: bit_uint_iff reg_shift_top)
  moreover from this have "\<not> bit (uint w) 0"
    by (simp add: bit_uint_iff)
  ultimately have "uint (reg_shift w) = uint w div 2" and "even (uint w)"
    using uint_register_drop [of w] by (simp_all add: reg_shift_def drop_bit_eq_div bit_0)
  then show ?thesis by simp
qed

lemma reg_shifts_small: "uint ((reg_shift ^^ n) w) < 2 ^ k \<Longrightarrow> n + k \<le> 16 \<Longrightarrow>
    uint w = 2 ^ n * uint ((reg_shift ^^ n) w)"
proof (induction n arbitrary: k)
  case (Suc n)
  define v where "v = (reg_shift ^^ n) w"
  have small: "uint (reg_shift v) < 2 ^ k" using Suc.prems by (simp add: v_def)
  also have "(2::int) ^ k \<le> 2 ^ 15" using Suc.prems by (intro power_increasing) auto
  finally have v: "uint v = 2 * uint (reg_shift v)" by (rule reg_shift_small)
  with small have "uint ((reg_shift ^^ n) w) < 2 ^ Suc k" by (simp add: v_def)
  from Suc.IH [OF this] Suc.prems have "uint w = 2 ^ n * uint v" by (simp add: v_def)
  with v show ?case by (simp add: v_def)
qed simp

lemma reg_shift_eq_0: "reg_shift w = 0 \<Longrightarrow> w = 0"
  using reg_shift_small [of w] by (simp add: word_uint_eq_iff)

lemma reg_shifts_xor: "(reg_shift ^^ n) (v XOR w) = (reg_shift ^^ n) v XOR (reg_shift ^^ n) w"
  by (induction n) (simp_all add: reg_shift_xor)

lemma reg_shifts_0 [simp]: "(reg_shift ^^ n) 0 = 0"
  by (induction n) simp_all

lemma reg_shifts_eq_0: "(reg_shift ^^ n) w = 0 \<Longrightarrow> w = 0"
  by (induction n) (auto dest: reg_shift_eq_0)

lemma word_xor_eq_0: "v XOR w = 0 \<longleftrightarrow> v = w" for v w :: "'a :: len word"
  by (auto simp: bit_eq_iff bit_simps)

lemma reg_shifts_inj: "(reg_shift ^^ n) v = (reg_shift ^^ n) w \<Longrightarrow> v = w"
  using reg_shifts_eq_0 [of n "v XOR w"] by (simp add: reg_shifts_xor word_xor_eq_0)

lemma word_xor_right_cancel: "v XOR u = w XOR u \<longleftrightarrow> v = w" for u v w :: "'a :: len word"
  by (auto simp: bit_eq_iff bit_simps)

lemma reg_byte_inj: "reg_byte v b = reg_byte w b \<Longrightarrow> v = w"
  by (auto simp: reg_byte_def word_xor_right_cancel dest: reg_shifts_inj)

lemma reg_run_append: "reg_run w (s @ t) = reg_run (reg_run w s) t"
  by (simp add: reg_run_def)

lemma reg_run_inj: "reg_run v s = reg_run w s \<Longrightarrow> v = w"
  by (induction s arbitrary: v w) (auto simp: reg_run_def dest: reg_byte_inj)

text \<open>
  Eight shifts that come out below 256 came from a multiple of 256, so no two different bytes
  can be told apart by nothing but the next byte.
\<close>

lemma reg_shifts_byte:
  assumes "(reg_shift ^^ 8) w = ucast (b :: byte)"
  shows "uint w = 256 * uint b"
proof -
  have "uint (ucast b :: register) = uint b"
    using uint_byte_bounds [of b] by (simp add: unsigned_ucast_eq take_bit_int_eq_self)
  with assms show ?thesis
    using reg_shifts_small [of 8 w 8] uint_byte_bounds [of b] by simp
qed

lemma uint_ucast_register: "uint (ucast (b :: byte) :: register) = uint b"
  using uint_byte_bounds [of b] by (simp add: unsigned_ucast_eq take_bit_int_eq_self)

lemma reg_run_pair_inj:
  assumes "reg_run w [a, b] = reg_run w [c, d]"
  shows "a = c \<and> b = d"
proof -
  have "reg_byte w a XOR ucast b = reg_byte w c XOR ucast d"
    using assms by (auto simp: reg_run_def reg_byte_def dest: reg_shifts_inj)
  then have "reg_byte w a XOR reg_byte w c = ucast (b XOR d)"
    by (auto simp: bit_eq_iff bit_simps)
  moreover have "(w XOR ucast a) XOR (w XOR ucast c) = ucast (a XOR c)"
    by (auto simp: bit_eq_iff bit_simps)
  then have "reg_byte w a XOR reg_byte w c = (reg_shift ^^ 8) (ucast (a XOR c))"
    by (simp add: reg_byte_def flip: reg_shifts_xor)
  ultimately have "uint (ucast (a XOR c) :: register) = 256 * uint (b XOR d)"
    by (intro reg_shifts_byte) simp
  then have "uint (a XOR c) = 256 * uint (b XOR d)"
    by (simp only: uint_ucast_register)
  moreover from this have "uint (b XOR d) = 0"
    using uint_byte_bounds(2) [of "a XOR c"] uint_byte_bounds(1) [of "b XOR d"] by linarith
  ultimately have "a XOR c = 0" "b XOR d = 0" by (simp_all add: word_uint_eq_iff)
  then show ?thesis by (simp add: word_xor_eq_0)
qed

lemma reg_run_short_inj:
  assumes "reg_run w x = reg_run w y" and "length x = length y" and "length x \<le> 2"
  shows "x = y"
proof -
  consider "x = []" | a where "x = [a]" | a b where "x = [a, b]"
    using assms(3) by (auto simp: le_Suc_eq length_Suc_conv numeral_2_eq_2)
  then show ?thesis
  proof cases
    case 1
    then show ?thesis using assms by simp
  next
    case (2 a)
    then obtain c where "y = [c]" using assms(2) by (cases y) auto
    with 2 assms(1) have "reg_run w [a, 0] = reg_run w [c, 0]"
      by (simp add: reg_run_def)
    from reg_run_pair_inj [OF this] 2 \<open>y = [c]\<close> show ?thesis by simp
  next
    case (3 a b)
    then obtain c d where "y = [c, d]" using assms(2) by (cases y; cases "tl y") auto
    with 3 assms(1) show ?thesis using reg_run_pair_inj by blast
  qed
qed

text \<open>The register runs to zero exactly on its own value, low byte first.\<close>

lemma reg_shift_push:
  "n < 8 \<Longrightarrow> reg_shift (push_bit (Suc n) (ucast (b :: byte))) = push_bit n (ucast b)"
  by (rule bit_word_eqI) (auto simp: reg_shift_def bit_simps simp del: push_bit_Suc dest: bit_imp_le_length)

lemma reg_shifts_push: "n \<le> 8 \<Longrightarrow> (reg_shift ^^ n) (push_bit n (ucast (b :: byte))) = ucast b"
proof (induction n)
  case (Suc n)
  then have "(reg_shift ^^ Suc n) (push_bit (Suc n) (ucast b)) = (reg_shift ^^ n) (push_bit n (ucast b))"
    by (simp add: funpow_swap1 reg_shift_push del: push_bit_Suc)
  with Suc show ?case by simp
qed simp

lemma reg_split:
  "push_bit 8 (ucast hi) XOR ucast lo = (w :: register) \<longleftrightarrow> uint w = uint lo + 256 * uint hi"
  for lo hi :: byte
proof -
  have "push_bit 8 (ucast hi) AND ucast lo = (0 :: register)"
    by (rule bit_word_eqI) (auto simp: bit_simps dest: bit_imp_le_length)
  then have "push_bit 8 (ucast hi) XOR ucast lo = push_bit 8 (ucast hi) + (ucast lo :: register)"
    by (simp add: disjunctive_add_eq_xor)
  moreover have "uint (push_bit 8 (ucast hi) + (ucast lo :: register)) = uint lo + 256 * uint hi"
    using uint_byte_bounds [of hi] uint_byte_bounds [of lo]
    by (simp add: uint_add_lem uint_ucast_register push_bit_eq_mult uint_word_ariths)
  ultimately show ?thesis by (auto simp: word_uint_eq_iff)
qed

lemma reg_run_residue: "reg_run w [lo, hi] = 0 \<longleftrightarrow> uint w = uint lo + 256 * uint hi"
proof -
  have "reg_run w [lo, hi] = 0 \<longleftrightarrow> reg_byte w lo = ucast hi"
    by (auto simp: reg_run_def reg_byte_def [of _ hi] word_xor_eq_0 dest: reg_shifts_eq_0)
  also have "\<dots> \<longleftrightarrow> w XOR ucast lo = push_bit 8 (ucast hi)"
    using reg_shifts_push [of 8 hi] reg_shifts_inj [of 8 "w XOR ucast lo" "push_bit 8 (ucast hi)"]
    by (auto simp: reg_byte_def)
  also have "\<dots> \<longleftrightarrow> push_bit 8 (ucast hi) XOR ucast lo = w"
    by (auto simp: bit_eq_iff bit_simps)
  finally show ?thesis by (simp only: reg_split)
qed

section \<open>What the check accepts\<close>

lemma last_two:
  assumes "2 \<le> length s"
  obtains data lo hi where "s = data @ [lo, hi]" and "length s = length data + 2"
proof -
  obtain t hi where "s = t @ [hi]" using assms by (cases s rule: rev_cases) auto
  moreover obtain data lo where "t = data @ [lo]" using assms calculation by (cases t rule: rev_cases) auto
  ultimately show thesis by (intro that [of data lo hi]) simp_all
qed

lemma unpack_crc: "struct_unpack CRC_FMT [lo, hi] = Inr [uint lo + 256 * uint hi]"
  by (simp add: CRC_FMT_def struct_unpack.simps PY_SSIZE_T_MAX_def)

lemma pack_crc:
  assumes "0 \<le> c" and "c < 65536"
  shows "struct_pack CRC_FMT [c] = Inr [word_of_int (c mod 256), word_of_int (c div 256)]"
  using assms
  by (simp add: CRC_FMT_def struct_pack.simps PY_SSIZE_T_MAX_def pack_code_def code_max_def)

lemma validate_crc_Inr:
  "validate_crc s = Inr c \<longleftrightarrow>
     (\<exists>data lo hi. s = data @ [lo, hi] \<and> 2 \<le> length data \<and> c = uint lo + 256 * uint hi \<and>
        c = calc_crc16 data)"
proof (cases "4 \<le> length s")
  case True
  then have "2 \<le> length s" by simp
  then obtain data lo hi where s: "s = data @ [lo, hi]" "length s = length data + 2"
    by (rule last_two)
  have "take_last 2 s = [lo, hi]" "drop_last 2 s = data" using s by simp_all
  then show ?thesis
    using s True by (auto simp: validate_crc_def CRC_SIZE_def unpack_crc Let_def)
next
  case False
  then show ?thesis by (auto simp: validate_crc_def CRC_SIZE_def)
qed

lemma validate_crc_raises: "raises_only is_ModbusPacketError (validate_crc s)"
proof (cases "4 \<le> length s")
  case True
  then have "2 \<le> length s" by simp
  then obtain data lo hi where s: "s = data @ [lo, hi]" "length s = length data + 2"
    by (rule last_two)
  have "take_last 2 s = [lo, hi]" using s by simp
  then show ?thesis by (simp add: validate_crc_def CRC_SIZE_def unpack_crc Let_def)
qed (simp add: validate_crc_def CRC_SIZE_def)

definition crc_valid :: "bytes \<Rightarrow> bool" where
  "crc_valid s = (4 \<le> length s \<and> reg_run 0xFFFF s = 0)"

lemma validate_crc_valid: "(\<exists>c. validate_crc s = Inr c) \<longleftrightarrow> crc_valid s"
proof -
  have "(\<exists>c. validate_crc s = Inr c) \<longleftrightarrow>
      (\<exists>data lo hi. s = data @ [lo, hi] \<and> 2 \<le> length data \<and> reg_run (reg_run 0xFFFF data) [lo, hi] = 0)"
    by (auto simp: validate_crc_Inr calc_crc16_reg reg_run_residue)
  also have "\<dots> \<longleftrightarrow> crc_valid s"
  proof
    assume valid: "crc_valid s"
    then have "2 \<le> length s" by (simp add: crc_valid_def)
    then obtain data lo hi where s: "s = data @ [lo, hi]" by (rule last_two)
    with valid show "\<exists>data lo hi. s = data @ [lo, hi] \<and> 2 \<le> length data \<and>
        reg_run (reg_run 0xFFFF data) [lo, hi] = 0"
      by (simp add: crc_valid_def reg_run_append)
  qed (auto simp: crc_valid_def reg_run_append)
  finally show ?thesis .
qed

lemma crc_valid_burst:
  assumes "crc_valid (pre @ x @ post)" and "crc_valid (pre @ y @ post)"
    and "length x = length y" and "length x \<le> 2"
  shows "x = y"
proof -
  have "reg_run (reg_run (reg_run 0xFFFF pre) x) post = reg_run (reg_run (reg_run 0xFFFF pre) y) post"
    using assms by (simp add: crc_valid_def reg_run_append)
  then have "reg_run (reg_run 0xFFFF pre) x = reg_run (reg_run 0xFFFF pre) y"
    by (rule reg_run_inj)
  then show ?thesis using assms by (intro reg_run_short_inj) simp_all
qed

section \<open>Parity\<close>

text \<open>
  The generator has an even number of terms, so the register keeps the parity of the bits it
  has read, and an odd number of flipped bits is always seen.
\<close>

definition xor_bits :: "nat list \<Rightarrow> 'a :: len word \<Rightarrow> bool" where
  "xor_bits ns w = foldr (\<lambda>n p. bit w n \<noteq> p) ns False"

lemma xor_bits_simps [simp]:
  "xor_bits [] w = False"
  "xor_bits (n # ns) w = (bit w n \<noteq> xor_bits ns w)"
  by (simp_all add: xor_bits_def)

definition odd_bits :: "'a :: len word \<Rightarrow> bool" where
  "odd_bits w = xor_bits [0..<LENGTH('a)] w"

definition odd_bits_of :: "bytes \<Rightarrow> bool" where
  "odd_bits_of s = foldr (\<lambda>b p. odd_bits b \<noteq> p) s False"

lemma odd_bits_of_simps [simp]:
  "odd_bits_of [] = False"
  "odd_bits_of (b # s) = (odd_bits b \<noteq> odd_bits_of s)"
  by (simp_all add: odd_bits_of_def)

lemma xor_bits_xor: "xor_bits ns (v XOR w) = (xor_bits ns v \<noteq> xor_bits ns w)"
  by (induction ns) (auto simp: bit_xor_iff)

lemma odd_bits_xor: "odd_bits (v XOR w) = (odd_bits v \<noteq> odd_bits w)"
  by (simp add: odd_bits_def xor_bits_xor)

lemma upt_16: "[0..<16] = [0, 1, 2, 3, 4, 5, 6, 7, 8, 9, 10, 11, 12, 13, 14, 15 :: nat]"
  by (simp add: upt_rec)

lemma odd_bits_shift: "odd_bits (reg_shift w) = odd_bits w"
proof -
  have "\<not> bit w 16" using bit_imp_le_length [of w 16] by auto
  then have "xor_bits [0..<16] (drop_bit 1 w) = (bit w 0 \<noteq> xor_bits [0..<16] w)"
    by (cases "bit w 0") (simp_all add: upt_16 bit_simps flip: numeral_2_eq_2)
  moreover have "xor_bits [0..<16] (0xA001 :: register)" "\<not> xor_bits [0..<16] (0 :: register)"
    by (simp_all add: upt_16)
  ultimately show ?thesis
    by (auto simp: odd_bits_def reg_shift_def xor_bits_xor)
qed

lemma odd_bits_ucast: "odd_bits (ucast (b :: byte) :: register) = odd_bits b"
proof -
  have "\<not> bit b n" if "8 \<le> n" for n using bit_imp_le_length [of b n] that by auto
  moreover have "[0..<8] = [0, 1, 2, 3, 4, 5, 6, 7 :: nat]" by (simp add: upt_rec)
  ultimately show ?thesis by (simp add: odd_bits_def upt_16 bit_simps)
qed

lemma odd_bits_shifts: "odd_bits ((reg_shift ^^ n) w) = odd_bits w"
  by (induction n) (simp_all add: odd_bits_shift)

lemma odd_bits_run: "odd_bits (reg_run w s) = (odd_bits w \<noteq> odd_bits_of s)"
  by (induction s arbitrary: w)
    (auto simp: reg_run_def reg_byte_def odd_bits_shifts odd_bits_xor odd_bits_ucast)

lemma crc_valid_parity: "crc_valid s \<Longrightarrow> \<not> odd_bits_of s"
proof -
  assume "crc_valid s"
  then have "odd_bits (0xFFFF :: register) = odd_bits_of s"
    using odd_bits_run [of "0xFFFF" s] by (simp add: crc_valid_def odd_bits_def upt_16)
  then show ?thesis by (simp add: odd_bits_def upt_16)
qed

section \<open>The RTU frame classes\<close>

record rtu_adu =
  slave_id :: int
  rtu_pdu :: pdu
  crc :: int

definition rtu_attr :: "rtu_adu \<Rightarrow> getattr" where
  "rtu_attr self name =
     (if name = ''slave_id'' then Inr (slave_id self)
      else if name = ''crc'' then Inr (crc self) else Inl AttributeError)"

text \<open>\<open>except (ModbusPacketError, struct.error) as e: raise ModbusPacketError\<close>.\<close>

definition rtu_reraise :: "'a pyres \<Rightarrow> 'a pyres" where
  "rtu_reraise m = except_raise (\<lambda>e. is_ModbusPacketError e \<or> is_StructError e) ModbusPacketError m"

text \<open>\<open>bytearray([...])\<close>.\<close>

definition bytearray_of :: "int list \<Rightarrow> bytes pyres" where
  "bytearray_of vs =
     (if \<forall>v\<in>set vs. 0 \<le> v \<and> v < 256 then Inr (map word_of_int vs) else Inl ValueError)"

text \<open>
  \<open>serialize\<close> and \<open>calc_crc\<close> store the checksum on the packet, so they return the packet they
  leave behind. The parser a class was given with \<open>set_parser\<close> is the argument \<open>parse\<close>.
\<close>

subsection \<open>\<open>ModbusRtuRequest\<close>\<close>

definition ModbusRtuRequest_cls :: packet_class where
  "ModbusRtuRequest_cls = \<lparr>cls_name = ''ModbusRtuRequest'', LIMITS = [(''slave_id'', 0x00, 0xF7)]\<rparr>"

definition ModbusRtuRequest :: "int \<Rightarrow> pdu \<Rightarrow> rtu_adu" where
  "ModbusRtuRequest sid p = \<lparr>slave_id = sid, rtu_pdu = p, crc = 0xFFFF\<rparr>"

definition ModbusRtuRequest_violations :: "rtu_adu \<Rightarrow> ModbusViolation list pyres" where
  "ModbusRtuRequest_violations self =
     packet_violations ModbusRtuRequest_cls (rtu_attr self) [dyn_violations (rtu_pdu self)]"

definition ModbusRtuRequest_set_crc :: "rtu_adu \<Rightarrow> int \<Rightarrow> rtu_adu" where
  "ModbusRtuRequest_set_crc self v = self\<lparr>crc := v\<rparr>"

definition ModbusRtuRequest_calc_crc :: "rtu_adu \<Rightarrow> int pyres \<times> rtu_adu" where
  "ModbusRtuRequest_calc_crc self =
     (case bindE (bytearray_of [slave_id self]) (\<lambda>sid.
             bindE (dyn_serialize (rtu_pdu self)) (\<lambda>p. Inr (calc_crc16 (sid @ p)))) of
        Inl e \<Rightarrow> (Inl e, self)
      | Inr c \<Rightarrow> (Inr c, self\<lparr>crc := c\<rparr>))"

definition ModbusRtuRequest_serialize :: "rtu_adu \<Rightarrow> bytes pyres \<times> rtu_adu" where
  "ModbusRtuRequest_serialize self =
     (case rtu_reraise (bindE (struct_pack (StructFmt Big [UByte] None) [slave_id self]) (\<lambda>sid.
                bindE (dyn_serialize (rtu_pdu self)) (\<lambda>p. Inr (sid, p)))) of
           Inl e \<Rightarrow> (Inl e, self)
         | Inr (sid, p) \<Rightarrow>
             (let self' = self\<lparr>crc := calc_crc16 (sid @ p)\<rparr>
              in (bindE (rtu_reraise (struct_pack CRC_FMT [crc self'])) (\<lambda>c. Inr (sid @ p @ c)), self')))"

definition ModbusRtuRequest_deserialize :: "(bytes \<Rightarrow> pdu pyres) \<Rightarrow> bytes \<Rightarrow> bool \<Rightarrow> rtu_adu pyres" where
  "ModbusRtuRequest_deserialize parse stream verify_crc =
     bindE (if verify_crc then bindE (validate_crc stream) (\<lambda>_. Inr ()) else Inr ()) (\<lambda>_.
       rtu_reraise
         (bindE (struct_unpack (StructFmt Big [UByte] None) (take 1 stream)) (\<lambda>sid.
          bindE (struct_unpack CRC_FMT (take_last CRC_SIZE stream)) (\<lambda>c.
          let body = drop 1 (drop_last CRC_SIZE stream)
          in bindE (parse body) (\<lambda>p.
               Inr (ModbusRtuRequest_set_crc (ModbusRtuRequest (sid ! 0) p) (c ! 0)))))))"

subsection \<open>\<open>ModbusRtuResponse\<close>\<close>

definition ModbusRtuResponse_cls :: packet_class where
  "ModbusRtuResponse_cls = \<lparr>cls_name = ''ModbusRtuResponse'', LIMITS = [(''slave_id'', 0x00, 0xF7)]\<rparr>"

definition ModbusRtuResponse :: "int \<Rightarrow> pdu \<Rightarrow> rtu_adu" where
  "ModbusRtuResponse sid p = \<lparr>slave_id = sid, rtu_pdu = p, crc = 0xFFFF\<rparr>"

definition ModbusRtuResponse_violations :: "rtu_adu \<Rightarrow> ModbusViolation list pyres" where
  "ModbusRtuResponse_violations self =
     packet_violations ModbusRtuResponse_cls (rtu_attr self) [dyn_violations (rtu_pdu self)]"

definition ModbusRtuResponse_set_crc :: "rtu_adu \<Rightarrow> int \<Rightarrow> rtu_adu" where
  "ModbusRtuResponse_set_crc self v = self\<lparr>crc := v\<rparr>"

definition ModbusRtuResponse_calc_crc :: "rtu_adu \<Rightarrow> int pyres \<times> rtu_adu" where
  "ModbusRtuResponse_calc_crc self =
     (case bindE (bytearray_of [slave_id self]) (\<lambda>sid.
             bindE (dyn_serialize (rtu_pdu self)) (\<lambda>p. Inr (calc_crc16 (sid @ p)))) of
        Inl e \<Rightarrow> (Inl e, self)
      | Inr c \<Rightarrow> (Inr c, self\<lparr>crc := c\<rparr>))"

definition ModbusRtuResponse_serialize :: "rtu_adu \<Rightarrow> bytes pyres \<times> rtu_adu" where
  "ModbusRtuResponse_serialize self =
     (case rtu_reraise (bindE (struct_pack (StructFmt Big [UByte] None) [slave_id self]) (\<lambda>sid.
                bindE (dyn_serialize (rtu_pdu self)) (\<lambda>p. Inr (sid, p)))) of
           Inl e \<Rightarrow> (Inl e, self)
         | Inr (sid, p) \<Rightarrow>
             (let self' = self\<lparr>crc := calc_crc16 (sid @ p)\<rparr>
              in (bindE (rtu_reraise (struct_pack CRC_FMT [crc self'])) (\<lambda>c. Inr (sid @ p @ c)), self')))"

definition ModbusRtuResponse_deserialize :: "(bytes \<Rightarrow> pdu pyres) \<Rightarrow> bytes \<Rightarrow> bool \<Rightarrow> rtu_adu pyres" where
  "ModbusRtuResponse_deserialize parse stream verify_crc =
     bindE (if verify_crc then bindE (validate_crc stream) (\<lambda>_. Inr ()) else Inr ()) (\<lambda>_.
       rtu_reraise
         (bindE (struct_unpack (StructFmt Big [UByte] None) (take 1 stream)) (\<lambda>sid.
          bindE (struct_unpack CRC_FMT (take_last CRC_SIZE stream)) (\<lambda>c.
          let body = drop 1 (drop_last CRC_SIZE stream)
          in bindE (parse body) (\<lambda>p.
               Inr (ModbusRtuResponse_set_crc (ModbusRtuResponse (sid ! 0) p) (c ! 0)))))))"

subsection \<open>\<open>ModbusRtuPacket\<close>\<close>

definition ModbusRtuPacket_cls :: packet_class where
  "ModbusRtuPacket_cls = \<lparr>cls_name = ''ModbusRtuPacket'', LIMITS = [(''slave_id'', 0x00, 0xF7)]\<rparr>"

definition ModbusRtuPacket :: "int \<Rightarrow> pdu \<Rightarrow> rtu_adu" where
  "ModbusRtuPacket sid p = \<lparr>slave_id = sid, rtu_pdu = p, crc = 0xFFFF\<rparr>"

definition ModbusRtuPacket_violations :: "rtu_adu \<Rightarrow> ModbusViolation list pyres" where
  "ModbusRtuPacket_violations self =
     packet_violations ModbusRtuPacket_cls (rtu_attr self) [dyn_violations (rtu_pdu self)]"

definition ModbusRtuPacket_set_crc :: "rtu_adu \<Rightarrow> int \<Rightarrow> rtu_adu" where
  "ModbusRtuPacket_set_crc self v = self\<lparr>crc := v\<rparr>"

definition ModbusRtuPacket_calc_crc :: "rtu_adu \<Rightarrow> int pyres \<times> rtu_adu" where
  "ModbusRtuPacket_calc_crc self =
     (case bindE (bytearray_of [slave_id self]) (\<lambda>sid.
             bindE (dyn_serialize (rtu_pdu self)) (\<lambda>p. Inr (calc_crc16 (sid @ p)))) of
        Inl e \<Rightarrow> (Inl e, self)
      | Inr c \<Rightarrow> (Inr c, self\<lparr>crc := c\<rparr>))"

definition ModbusRtuPacket_serialize :: "rtu_adu \<Rightarrow> bytes pyres \<times> rtu_adu" where
  "ModbusRtuPacket_serialize self =
     (case rtu_reraise (bindE (struct_pack (StructFmt Big [UByte] None) [slave_id self]) (\<lambda>sid.
                bindE (dyn_serialize (rtu_pdu self)) (\<lambda>p. Inr (sid, p)))) of
           Inl e \<Rightarrow> (Inl e, self)
         | Inr (sid, p) \<Rightarrow>
             (let self' = self\<lparr>crc := calc_crc16 (sid @ p)\<rparr>
              in (bindE (rtu_reraise (struct_pack CRC_FMT [crc self'])) (\<lambda>c. Inr (sid @ p @ c)), self')))"

definition ModbusRtuPacket_deserialize :: "bytes \<Rightarrow> bool \<Rightarrow> rtu_adu pyres" where
  "ModbusRtuPacket_deserialize stream verify_crc =
     bindE (if verify_crc then bindE (validate_crc stream) (\<lambda>_. Inr ()) else Inr ()) (\<lambda>_.
       rtu_reraise
         (bindE (struct_unpack (StructFmt Big [UByte] None) (take 1 stream)) (\<lambda>sid.
          bindE (struct_unpack CRC_FMT (take_last CRC_SIZE stream)) (\<lambda>c.
          let body = drop 1 (drop_last CRC_SIZE stream)
          in bindE (bindE (ModbusPdu_deserialize body) (\<lambda>p. Inr (CommonPdu p))) (\<lambda>p.
               Inr (ModbusRtuPacket_set_crc (ModbusRtuPacket (sid ! 0) p) (c ! 0)))))))"

section \<open>One behaviour for the three classes\<close>

text \<open>
  The classes repeat each other's text; the facts below are proved once, for a frame built from
  a slave id, a PDU and the checksum of the two.
\<close>

definition rtu_frame :: "bytes \<Rightarrow> bytes" where
  "rtu_frame d = d @ [word_of_int (calc_crc16 d mod 256), word_of_int (calc_crc16 d div 256)]"

lemma rtu_reraise_simps [simp]:
  "rtu_reraise (Inr x) = Inr x"
  "is_ModbusPacketError e \<Longrightarrow> rtu_reraise (Inl e) = Inl ModbusPacketError"
  "rtu_reraise (Inl StructError) = Inl ModbusPacketError"
  by (simp_all add: rtu_reraise_def)

lemma rtu_reraise_Inr [res_simps]: "rtu_reraise m = Inr x \<longleftrightarrow> m = Inr x"
  by (simp add: rtu_reraise_def res_simps)

lemma pack_slave_id:
  "struct_pack (StructFmt Big [UByte] None) [v] =
     (if 0 \<le> v \<and> v < 256 then Inr [word_of_int v] else Inl StructError)"
  by (simp add: struct_pack.simps PY_SSIZE_T_MAX_def pack_code_def code_max_def)

lemma unpack_slave_id:
  "s \<noteq> [] \<Longrightarrow> struct_unpack (StructFmt Big [UByte] None) (take 1 s) = Inr [uint (hd s)]"
  by (cases s) (simp_all add: struct_unpack.simps PY_SSIZE_T_MAX_def)

lemma rtu_pack_crc: "struct_pack CRC_FMT [calc_crc16 d] =
    Inr [word_of_int (calc_crc16 d mod 256), word_of_int (calc_crc16 d div 256)]"
  using calc_crc16_bounds [of d] by (simp add: pack_crc)

text \<open>The whole of \<open>serialize\<close>, errors included.\<close>

lemma ModbusRtuPacket_serialize_eq:
  "ModbusRtuPacket_serialize self =
     (case dyn_serialize (rtu_pdu self) of
        Inl e \<Rightarrow> (Inl ModbusPacketError, self)
      | Inr p \<Rightarrow>
          (if 0 \<le> slave_id self \<and> slave_id self < 256
           then let d = word_of_int (slave_id self) # p
                in (Inr (rtu_frame d), self\<lparr>crc := calc_crc16 d\<rparr>)
           else (Inl ModbusPacketError, self)))"
  using dyn_serialize_raises [of "rtu_pdu self"]
  by (cases "dyn_serialize (rtu_pdu self)")
    (simp_all add: ModbusRtuPacket_serialize_def pack_slave_id rtu_pack_crc rtu_frame_def Let_def)

lemma ModbusRtuRequest_serialize_same: "ModbusRtuRequest_serialize = ModbusRtuPacket_serialize"
  by (rule ext) (simp add: ModbusRtuRequest_serialize_def ModbusRtuPacket_serialize_def)

lemma ModbusRtuResponse_serialize_same: "ModbusRtuResponse_serialize = ModbusRtuPacket_serialize"
  by (rule ext) (simp add: ModbusRtuResponse_serialize_def ModbusRtuPacket_serialize_def)

lemmas rtu_serialize_eqs =
  ModbusRtuPacket_serialize_eq ModbusRtuRequest_serialize_same ModbusRtuResponse_serialize_same

lemma ModbusRtuResponse_deserialize_same: "ModbusRtuResponse_deserialize = ModbusRtuRequest_deserialize"
  by (intro ext) (simp add: ModbusRtuResponse_deserialize_def ModbusRtuRequest_deserialize_def
      ModbusRtuResponse_def ModbusRtuRequest_def ModbusRtuResponse_set_crc_def ModbusRtuRequest_set_crc_def)

lemma ModbusRtuPacket_deserialize_same:
  "ModbusRtuPacket_deserialize =
     ModbusRtuRequest_deserialize (\<lambda>s. bindE (ModbusPdu_deserialize s) (\<lambda>p. Inr (CommonPdu p)))"
  by (intro ext) (simp add: ModbusRtuPacket_deserialize_def ModbusRtuRequest_deserialize_def
      ModbusRtuPacket_def ModbusRtuRequest_def ModbusRtuPacket_set_crc_def ModbusRtuRequest_set_crc_def)

lemma crc_valid_rtu_frame: "2 \<le> length d \<Longrightarrow> crc_valid (rtu_frame d)"
proof -
  assume "2 \<le> length d"
  then have "validate_crc (rtu_frame d) = Inr (calc_crc16 d)"
    using calc_crc16_bounds [of d]
    by (auto simp: validate_crc_Inr rtu_frame_def uint_word_of_int intro!: exI [of _ d])
  then show ?thesis using validate_crc_valid by blast
qed

text \<open>What a body that is long enough deserializes to, whatever the parser.\<close>

lemma rtu_deserialize_split:
  assumes "d \<noteq> []"
  shows "ModbusRtuRequest_deserialize parse (d @ [lo, hi]) verify =
    (if verify \<and> \<not> crc_valid (d @ [lo, hi]) then Inl ModbusPacketError
     else rtu_reraise (bindE (parse (tl d)) (\<lambda>p.
       Inr \<lparr>slave_id = uint (hd d), rtu_pdu = p, crc = uint lo + 256 * uint hi\<rparr>)))"
proof -
  have "drop_last 2 (d @ [lo, hi]) = d" "take_last 2 (d @ [lo, hi]) = [lo, hi]" by simp_all
  moreover have "validate_crc (d @ [lo, hi]) = Inl ModbusPacketError" if "\<not> crc_valid (d @ [lo, hi])"
  proof (cases "validate_crc (d @ [lo, hi])")
    case (Inl e)
    then show ?thesis by (auto simp: validate_crc_def CRC_SIZE_def unpack_crc Let_def split: if_splits)
  next
    case (Inr c)
    with that validate_crc_valid show ?thesis by blast
  qed
  moreover have "\<exists>c. validate_crc (d @ [lo, hi]) = Inr c" if "crc_valid (d @ [lo, hi])"
    using that validate_crc_valid by blast
  moreover have "struct_unpack (StructFmt Big [UByte] None) (take 1 (d @ [lo, hi])) = Inr [uint (hd d)]"
    using assms unpack_slave_id [of "d @ [lo, hi]"] by simp
  moreover have "drop 1 d = tl d" by (simp add: drop_Suc)
  ultimately show ?thesis
    using assms
    by (auto simp: ModbusRtuRequest_deserialize_def CRC_SIZE_def unpack_crc drop_Suc
        ModbusRtuRequest_def ModbusRtuRequest_set_crc_def simp del: take_append One_nat_def)
qed

lemma rtu_frame_crc:
  "uint (word_of_int (calc_crc16 d mod 256) :: byte) +
     256 * uint (word_of_int (calc_crc16 d div 256) :: byte) = calc_crc16 d"
proof -
  have "0 \<le> calc_crc16 d div 256" "calc_crc16 d div 256 < 256"
    using calc_crc16_bounds [of d] by linarith+
  then show ?thesis by (simp add: uint_word_of_int_byte)
qed

lemma rtu_deserialize_frame:
  assumes "2 \<le> length d"
  shows "ModbusRtuRequest_deserialize parse (rtu_frame d) verify =
    rtu_reraise (bindE (parse (tl d)) (\<lambda>p.
      Inr \<lparr>slave_id = uint (hd d), rtu_pdu = p, crc = calc_crc16 d\<rparr>))"
proof -
  have "d \<noteq> []" using assms by auto
  then show ?thesis
    using crc_valid_rtu_frame [OF assms]
      rtu_deserialize_split [of d parse "word_of_int (calc_crc16 d mod 256)" "word_of_int (calc_crc16 d div 256)" verify]
    by (simp only: rtu_frame_def rtu_frame_crc) simp
qed

text \<open>A parser that keeps its promise gives the frame back, checksum and all.\<close>

context pdu_parser begin

lemma rtu_des_ser:
  assumes "ModbusRtuRequest_serialize self = (Inr s, self')" and "known (rtu_pdu self)"
  shows "ModbusRtuRequest_deserialize parse s verify = Inr self'"
proof -
  obtain p where p: "dyn_serialize (rtu_pdu self) = Inr p" and sid: "0 \<le> slave_id self" "slave_id self < 256"
    and s: "s = rtu_frame (word_of_int (slave_id self) # p)"
    and self': "self' = self\<lparr>crc := calc_crc16 (word_of_int (slave_id self) # p)\<rparr>"
    using assms(1) by (auto simp: rtu_serialize_eqs Let_def split: sum.splits if_splits)
  have "p \<noteq> []" using dyn_serialize_hd [OF p] by simp
  then have "2 \<le> length (word_of_int (slave_id self) # p)" by (cases p) simp_all
  moreover have "parse p = Inr (rtu_pdu self)" by (rule des_ser [OF assms(2) p])
  ultimately show ?thesis
    using sid by (cases self) (simp add: s self' rtu_deserialize_frame uint_word_of_int_byte)
qed

end

text \<open>The generic frame gives back every byte it read, and reads every frame the check accepts.\<close>

lemma crc_valid_frame:
  assumes "crc_valid s"
  obtains d where "s = rtu_frame d" and "2 \<le> length d"
proof -
  obtain data lo hi where s: "s = data @ [lo, hi]" "2 \<le> length data"
    and c: "uint lo + 256 * uint hi = calc_crc16 data"
    using assms validate_crc_valid [of s] by (auto simp: validate_crc_Inr)
  have "calc_crc16 data mod 256 = uint lo" "calc_crc16 data div 256 = uint hi"
    using uint_byte_bounds [of lo] by (simp_all flip: c)
  with s have "s = rtu_frame data" by (simp add: rtu_frame_def)
  then show thesis using s(2) by (rule that)
qed

lemma rtu_packet_deserialize_frame:
  assumes "2 \<le> length d"
  shows "ModbusRtuPacket_deserialize (rtu_frame d) True =
    rtu_reraise (bindE (ModbusPdu_deserialize (tl d)) (\<lambda>p.
      Inr \<lparr>slave_id = uint (hd d), rtu_pdu = CommonPdu p, crc = calc_crc16 d\<rparr>))"
proof -
  have "bindE (bindE m (\<lambda>p. Inr (CommonPdu p))) f = bindE m (\<lambda>p. f (CommonPdu p))"
    for m :: "common_pdu pyres" and f :: "pdu \<Rightarrow> rtu_adu pyres"
    by (cases m) simp_all
  then show ?thesis
    using assms by (simp add: ModbusRtuPacket_deserialize_same rtu_deserialize_frame)
qed

lemma rtu_packet_ser_des:
  assumes "ModbusRtuPacket_deserialize s True = Inr self"
  shows "ModbusRtuPacket_serialize self = (Inr s, self)" and "crc_valid s"
proof -
  show valid: "crc_valid s"
    using assms validate_crc_valid [of s] by (auto simp: ModbusRtuPacket_deserialize_def res_simps)
  then obtain d where s: "s = rtu_frame d" and d: "2 \<le> length d"
    by (rule crc_valid_frame)
  obtain p where p: "ModbusPdu_deserialize (tl d) = Inr p"
    and self: "self = \<lparr>slave_id = uint (hd d), rtu_pdu = CommonPdu p, crc = calc_crc16 d\<rparr>"
    using assms d by (auto simp: s rtu_packet_deserialize_frame res_simps)
  have "dyn_serialize (rtu_pdu self) = Inr (tl d)"
    using p by (cases p) (simp_all add: self ModbusPdu_ser_des)
  moreover have "word_of_int (uint (hd d)) # tl d = d" using d by (cases d) auto
  ultimately show "ModbusRtuPacket_serialize self = (Inr s, self)"
    using uint_byte_bounds [of "hd d"] by (simp add: ModbusRtuPacket_serialize_eq self s Let_def)
qed

lemma rtu_packet_total:
  assumes "crc_valid s" and "int (length s) \<le> PY_SSIZE_T_MAX + 3"
  shows "\<exists>self. ModbusRtuPacket_deserialize s True = Inr self"
proof -
  obtain d where s: "s = rtu_frame d" and d: "2 \<le> length d"
    using assms(1) by (rule crc_valid_frame)
  have "tl d \<noteq> []" using d by (cases d) auto
  moreover have "int (length (tl d)) \<le> PY_SSIZE_T_MAX"
    using assms(2) d by (simp add: s rtu_frame_def)
  ultimately have "\<exists>p. ModbusPdu_deserialize (tl d) = Inr p"
    using ModbusPdu_deserialize_total by blast
  then show ?thesis using d by (auto simp: s rtu_packet_deserialize_frame)
qed

end
