(* ===== verification/Rtu_Framing.thy ===== *)
theory Rtu_Framing imports Adu_Rtu begin

text \<open>
  The first half of \<open>src/pyomb/transport/rtu.py\<close>: reading the frame at the head of a buffer
  (\<open>read_rtu_frame\<close>) and the splitter that cuts whole frames out of bytes as they are pushed
  in. The registry is the parser's class state, an argument here. \<open>expected_size\<close> and
  \<open>ModbusRtuPacket.deserialize\<close> raise nothing but \<open>ModbusPacketError\<close>
  (\<open>expected_size_raises\<close>, \<open>rtu_packet_raises\<close>), so the two \<open>except\<close> clauses of the reader
  are the \<open>Inl\<close> branches below.
\<close>

section \<open>Reading the head of a buffer\<close>

definition MIN_RTU_FRAME :: nat where
  "MIN_RTU_FRAME = 1 + 1 + CRC_SIZE"

definition MAX_RTU_FRAME :: nat where
  "MAX_RTU_FRAME = 256"

datatype RtuSide = REQUEST | RESPONSE

record RtuRead =
  packet :: "rtu_adu option"
  frame_length :: int
  incomplete :: bool
  wanted :: int
  is_sizable :: bool

definition rtu_pdu_class :: "registry \<Rightarrow> int \<Rightarrow> RtuSide \<Rightarrow> pdu_type" where
  "rtu_pdu_class reg func_code side =
     (if side = REQUEST then registry_get reg func_code
      else if func_code \<ge> 0x80 then CommonT ModbusError_t
      else registry_get reg (func_code + 0x8000))"

definition read_rtu_frame :: "registry \<Rightarrow> bytes \<Rightarrow> RtuSide \<Rightarrow> RtuRead" where
  "read_rtu_frame reg stream side =
     (if length stream < MIN_RTU_FRAME
      then \<lparr>packet = None, frame_length = 0, incomplete = True,
            wanted = int MIN_RTU_FRAME - int (length stream), is_sizable = True\<rparr>
      else let prefix = drop 1 stream
      in case dyn_expected_size (rtu_pdu_class reg (uint (prefix ! 0)) side) prefix of
           Inl _ \<Rightarrow> \<lparr>packet = None, frame_length = 0, incomplete = False, wanted = 0, is_sizable = False\<rparr>
         | Inr None \<Rightarrow> \<lparr>packet = None, frame_length = 0, incomplete = True, wanted = 1, is_sizable = True\<rparr>
         | Inr (Some pdu_size) \<Rightarrow>
             (let end = 1 + pdu_size + int CRC_SIZE
              in if int (length stream) < end
                 then \<lparr>packet = None, frame_length = 0, incomplete = True,
                       wanted = end - int (length stream), is_sizable = True\<rparr>
                 else case ModbusRtuPacket_deserialize (take (nat end) stream) True of
                        Inl _ \<Rightarrow> \<lparr>packet = None, frame_length = 0, incomplete = False, wanted = 0, is_sizable = True\<rparr>
                      | Inr p \<Rightarrow> \<lparr>packet = Some p, frame_length = end, incomplete = False, wanted = 0, is_sizable = True\<rparr>))"

section \<open>Facts about the reader\<close>

lemma rtu_packet_raises: "raises_only is_ModbusPacketError (ModbusRtuPacket_deserialize s v)"
proof -
  have crc: "raises_only (\<lambda>e. is_ModbusPacketError e \<or> is_StructError e) (struct_unpack CRC_FMT t)" for t
    by (cases "struct_unpack CRC_FMT t") (auto dest: struct_unpack_error)
  have sid: "raises_only (\<lambda>e. is_ModbusPacketError e \<or> is_StructError e) (struct_unpack (StructFmt Big [UByte] None) t)" for t
    by (cases "struct_unpack (StructFmt Big [UByte] None) t") (auto dest: struct_unpack_error)
  have pdu: "raises_only (\<lambda>e. is_ModbusPacketError e \<or> is_StructError e) (ModbusPdu_deserialize t)" for t
    using common_deserialize_raises [of ModbusPdu_t t] by (cases "ModbusPdu_deserialize t") auto
  show ?thesis
    unfolding ModbusRtuPacket_deserialize_def rtu_reraise_def Let_def
    by (intro raises_only_bindE) (auto intro!: raises_only_bindE
        raises_only_except_raise [where Q = "\<lambda>e. is_ModbusPacketError e \<or> is_StructError e"]
        validate_crc_raises crc sid pdu)
qed

text \<open>A verdict other than \<open>incomplete\<close> is final: more bytes behind it change nothing.\<close>

lemma read_rtu_frame_append:
  assumes "\<not> incomplete (read_rtu_frame reg s side)"
  shows "read_rtu_frame reg (s @ u) side = read_rtu_frame reg s side"
proof -
  have len: "\<not> length s < MIN_RTU_FRAME"
    using assms by (auto simp: read_rtu_frame_def split: if_splits)
  then have drop: "drop 1 (s @ u) = drop 1 s @ u" and nz: "drop 1 s \<noteq> []"
    by (simp_all add: MIN_RTU_FRAME_def CRC_SIZE_def)
  then have hd: "(drop 1 s @ u) ! 0 = drop 1 s ! 0" by (simp add: nth_append)
  define t where "t = rtu_pdu_class reg (uint (drop 1 s ! 0)) side"
  show ?thesis
  proof (cases "dyn_expected_size t (drop 1 s)")
    case (Inl e)
    then show ?thesis
      using len expected_size_Inl_append [OF Inl, of u]
      by (simp only: read_rtu_frame_def drop hd t_def [symmetric] Let_def) simp
  next
    case (Inr r)
    then obtain n where n: "dyn_expected_size t (drop 1 s) = Inr (Some n)" and "1 + n + 2 \<le> int (length s)"
      using assms len
      by (cases r) (auto simp: read_rtu_frame_def t_def Let_def CRC_SIZE_def split: if_splits)
    then have "take (nat (1 + n + int CRC_SIZE)) (s @ u) = take (nat (1 + n + int CRC_SIZE)) s"
      by (simp add: CRC_SIZE_def)
    moreover have "\<not> int (length s) < 1 + n + int CRC_SIZE"
      using \<open>1 + n + 2 \<le> int (length s)\<close> by (simp add: CRC_SIZE_def)
    ultimately show ?thesis
      using len n expected_size_Some_append [OF n, of u]
      by (simp only: read_rtu_frame_def drop hd t_def [symmetric] Let_def) simp
  qed
qed

text \<open>What the reader says when it found a frame.\<close>

lemma read_rtu_frame_packet:
  assumes "packet (read_rtu_frame reg s side) = Some p"
  shows "\<not> incomplete (read_rtu_frame reg s side)"
    and "int MIN_RTU_FRAME \<le> frame_length (read_rtu_frame reg s side)"
    and "frame_length (read_rtu_frame reg s side) \<le> int (length s)"
    and "ModbusRtuPacket_deserialize (take (nat (frame_length (read_rtu_frame reg s side))) s) True = Inr p"
proof -
  define t where "t = rtu_pdu_class reg (uint (drop 1 s ! 0)) side"
  obtain n where n: "dyn_expected_size t (drop 1 s) = Inr (Some n)"
    and r: "read_rtu_frame reg s side =
      \<lparr>packet = Some p, frame_length = 1 + n + int CRC_SIZE, incomplete = False, wanted = 0, is_sizable = True\<rparr>"
    and "1 + n + int CRC_SIZE \<le> int (length s)"
    and "ModbusRtuPacket_deserialize (take (nat (1 + n + int CRC_SIZE)) s) True = Inr p"
    using assms
    by (auto simp: read_rtu_frame_def t_def Let_def split: if_splits sum.splits option.splits)
  then show "\<not> incomplete (read_rtu_frame reg s side)"
    and "int MIN_RTU_FRAME \<le> frame_length (read_rtu_frame reg s side)"
    and "frame_length (read_rtu_frame reg s side) \<le> int (length s)"
    and "ModbusRtuPacket_deserialize (take (nat (frame_length (read_rtu_frame reg s side))) s) True = Inr p"
    using expected_size_positive [OF n] by (simp_all add: MIN_RTU_FRAME_def)
qed

text \<open>
  How much a reader that waits can be waiting for: the layouts of the packaged classes announce at
  most 265 bytes of PDU, hence 268 of frame. That is more than \<open>MAX_RTU_FRAME\<close>, which the reader
  does not look at.
\<close>

definition LARGEST_ANNOUNCED_FRAME :: nat where
  "LARGEST_ANNOUNCED_FRAME = 268"

lemma read_rtu_frame_waits:
  assumes "incomplete (read_rtu_frame reg s side)"
  shows "0 < wanted (read_rtu_frame reg s side)"
    and "int (length s) + wanted (read_rtu_frame reg s side) \<le> int LARGEST_ANNOUNCED_FRAME"
proof -
  define t where "t = rtu_pdu_class reg (uint (drop 1 s ! 0)) side"
  consider "length s < MIN_RTU_FRAME"
    | "MIN_RTU_FRAME \<le> length s" "dyn_expected_size t (drop 1 s) = Inr None"
    | n where "MIN_RTU_FRAME \<le> length s" "dyn_expected_size t (drop 1 s) = Inr (Some n)"
        "int (length s) < 1 + n + int CRC_SIZE"
    using assms
    by (auto simp: read_rtu_frame_def t_def Let_def not_less split: if_splits sum.splits option.splits)
  then have "0 < wanted (read_rtu_frame reg s side) \<and>
      int (length s) + wanted (read_rtu_frame reg s side) \<le> int LARGEST_ANNOUNCED_FRAME"
  proof cases
    case 1
    then show ?thesis
      by (simp add: read_rtu_frame_def MIN_RTU_FRAME_def LARGEST_ANNOUNCED_FRAME_def CRC_SIZE_def)
  next
    case 2
    then show ?thesis using expected_size_bounded(2) [OF 2(2)]
      by (simp add: read_rtu_frame_def t_def Let_def LARGEST_ANNOUNCED_FRAME_def)
  next
    case 3
    then show ?thesis using expected_size_bounded(1) [OF 3(2)]
      by (simp add: read_rtu_frame_def t_def Let_def LARGEST_ANNOUNCED_FRAME_def CRC_SIZE_def)
  qed
  then show "0 < wanted (read_rtu_frame reg s side)"
    and "int (length s) + wanted (read_rtu_frame reg s side) \<le> int LARGEST_ANNOUNCED_FRAME" by auto
qed

lemma read_rtu_frame_length_bound:
  assumes "packet (read_rtu_frame reg s side) = Some p"
  shows "frame_length (read_rtu_frame reg s side) \<le> int LARGEST_ANNOUNCED_FRAME"
  using assms
  by (auto simp: read_rtu_frame_def Let_def LARGEST_ANNOUNCED_FRAME_def CRC_SIZE_def
      dest!: expected_size_bounded(1) split: if_splits sum.splits option.splits)

section \<open>The splitter\<close>

record ModbusRtuSplitter =
  sp_side :: RtuSide
  sp_buffer :: bytes
  sp_resyncs :: nat

definition splitter_init :: "RtuSide \<Rightarrow> ModbusRtuSplitter" where
  "splitter_init side = \<lparr>sp_side = side, sp_buffer = [], sp_resyncs = 0\<rparr>"

definition splitter_pending :: "ModbusRtuSplitter \<Rightarrow> nat" where
  "splitter_pending sp = length (sp_buffer sp)"

definition splitter_reset :: "ModbusRtuSplitter \<Rightarrow> ModbusRtuSplitter" where
  "splitter_reset sp = sp\<lparr>sp_buffer := [], sp_resyncs := 0\<rparr>"

definition splitter_discard :: "ModbusRtuSplitter \<Rightarrow> ModbusRtuSplitter" where
  "splitter_discard sp = sp\<lparr>sp_buffer := drop 1 (sp_buffer sp), sp_resyncs := sp_resyncs sp + 1\<rparr>"

function splitter_take :: "registry \<Rightarrow> ModbusRtuSplitter \<Rightarrow> rtu_adu option \<times> ModbusRtuSplitter" where
  "splitter_take reg sp =
     (if length (sp_buffer sp) \<ge> MIN_RTU_FRAME
      then let read = read_rtu_frame reg (sp_buffer sp) (sp_side sp)
           in case packet read of
                Some p \<Rightarrow> (Some p, sp\<lparr>sp_buffer := drop (nat (frame_length read)) (sp_buffer sp)\<rparr>)
              | None \<Rightarrow> if incomplete read then (None, sp) else splitter_take reg (splitter_discard sp)
      else (None, sp))"
  by pat_completeness auto
termination
  by (relation "measure (\<lambda>(reg, sp). length (sp_buffer sp))")
    (auto simp: splitter_discard_def MIN_RTU_FRAME_def)

declare splitter_take.simps [simp del]

lemma splitter_take_shorter:
  "splitter_take reg sp = (Some p, sp') \<Longrightarrow> length (sp_buffer sp') < length (sp_buffer sp)"
proof (induction reg sp arbitrary: p sp' rule: splitter_take.induct)
  case (1 reg sp)
  define read where "read = read_rtu_frame reg (sp_buffer sp) (sp_side sp)"
  have long: "MIN_RTU_FRAME \<le> length (sp_buffer sp)"
    using "1.prems" by (auto simp: splitter_take.simps [of reg sp] split: if_splits)
  show ?case
  proof (cases "packet read")
    case None
    then have "splitter_take reg (splitter_discard sp) = (Some p, sp')" and "\<not> incomplete read"
      using "1.prems" long
      by (auto simp: splitter_take.simps [of reg sp] read_def [symmetric] Let_def split: if_splits)
    then have "length (sp_buffer sp') < length (sp_buffer (splitter_discard sp))"
      using "1.IH" [OF long read_def None] by blast
    then show ?thesis by (simp add: splitter_discard_def)
  next
    case (Some q)
    then have "sp_buffer sp' = drop (nat (frame_length read)) (sp_buffer sp)"
      using "1.prems" long
      by (auto simp: splitter_take.simps [of reg sp] read_def [symmetric] Let_def)
    then show ?thesis
      using read_rtu_frame_packet [of reg "sp_buffer sp" "sp_side sp" q] Some long
      by (auto simp: read_def MIN_RTU_FRAME_def)
  qed
qed

function splitter_drain :: "registry \<Rightarrow> ModbusRtuSplitter \<Rightarrow> rtu_adu list \<times> ModbusRtuSplitter" where
  "splitter_drain reg sp =
     (case splitter_take reg sp of
        (None, sp') \<Rightarrow> ([], sp')
      | (Some p, sp') \<Rightarrow> (let (found, sp'') = splitter_drain reg sp' in (p # found, sp'')))"
  by pat_completeness auto
termination
  by (relation "measure (\<lambda>(reg, sp). length (sp_buffer sp))") (auto dest: splitter_take_shorter [OF sym])

declare splitter_drain.simps [simp del]

definition splitter_extend :: "ModbusRtuSplitter \<Rightarrow> bytes \<Rightarrow> ModbusRtuSplitter" where
  "splitter_extend sp data = sp\<lparr>sp_buffer := sp_buffer sp @ data\<rparr>"

definition splitter_push :: "registry \<Rightarrow> ModbusRtuSplitter \<Rightarrow> bytes \<Rightarrow> rtu_adu list \<times> ModbusRtuSplitter" where
  "splitter_push reg sp data = splitter_drain reg (splitter_extend sp data)"

text \<open>The three things a turn of \<open>_take\<close> can do, by the reader's verdict on the held bytes.\<close>

abbreviation splitter_read :: "registry \<Rightarrow> ModbusRtuSplitter \<Rightarrow> RtuRead" where
  "splitter_read reg sp \<equiv> read_rtu_frame reg (sp_buffer sp) (sp_side sp)"

lemma read_complete_long: "\<not> incomplete (read_rtu_frame reg s side) \<Longrightarrow> MIN_RTU_FRAME \<le> length s"
  by (auto simp: read_rtu_frame_def split: if_splits)

lemma splitter_take_packet:
  "packet (splitter_read reg sp) = Some p \<Longrightarrow>
     splitter_take reg sp = (Some p, sp\<lparr>sp_buffer := drop (nat (frame_length (splitter_read reg sp))) (sp_buffer sp)\<rparr>)"
  using read_complete_long [OF read_rtu_frame_packet(1)]
  by (simp add: splitter_take.simps [of reg sp] Let_def)

lemma splitter_take_wait: "incomplete (splitter_read reg sp) \<Longrightarrow> splitter_take reg sp = (None, sp)"
  using read_rtu_frame_packet(1) [of reg "sp_buffer sp" "sp_side sp"]
  by (cases "packet (splitter_read reg sp)") (auto simp: splitter_take.simps [of reg sp] Let_def)

lemma splitter_take_discard:
  "\<not> incomplete (splitter_read reg sp) \<Longrightarrow> packet (splitter_read reg sp) = None \<Longrightarrow>
     splitter_take reg sp = splitter_take reg (splitter_discard sp)"
  using read_complete_long [of reg "sp_buffer sp" "sp_side sp"]
  by (subst splitter_take.simps) (simp add: Let_def)

lemma splitter_take_induct [case_names packet wait discard]:
  assumes "\<And>sp p. packet (splitter_read reg sp) = Some p \<Longrightarrow> P sp"
    and "\<And>sp. incomplete (splitter_read reg sp) \<Longrightarrow> P sp"
    and "\<And>sp. \<not> incomplete (splitter_read reg sp) \<Longrightarrow> packet (splitter_read reg sp) = None \<Longrightarrow>
           P (splitter_discard sp) \<Longrightarrow> P sp"
  shows "P sp"
proof (induction "length (sp_buffer sp)" arbitrary: sp rule: less_induct)
  case less
  show ?case
  proof (cases "incomplete (splitter_read reg sp)")
    case False
    then have "length (sp_buffer (splitter_discard sp)) < length (sp_buffer sp)"
      using read_complete_long [OF False] by (simp add: splitter_discard_def MIN_RTU_FRAME_def)
    with False less assms(1,3) show ?thesis
      by (cases "packet (splitter_read reg sp)") auto
  qed (rule assms(2))
qed

lemma splitter_extend_simps [simp]:
  "sp_side (splitter_extend sp d) = sp_side sp"
  "sp_buffer (splitter_extend sp d) = sp_buffer sp @ d"
  "sp_resyncs (splitter_extend sp d) = sp_resyncs sp"
  by (simp_all add: splitter_extend_def)

lemma splitter_discard_extend:
  "sp_buffer sp \<noteq> [] \<Longrightarrow> splitter_discard (splitter_extend sp d) = splitter_extend (splitter_discard sp) d"
  by (cases sp; cases "sp_buffer sp") (simp_all add: splitter_discard_def splitter_extend_def)

lemma splitter_take_discard_extend:
  assumes "\<not> incomplete (splitter_read reg sp)" and "packet (splitter_read reg sp) = None"
  shows "splitter_take reg (splitter_extend sp d) = splitter_take reg (splitter_extend (splitter_discard sp) d)"
proof -
  have "sp_buffer sp \<noteq> []"
    using read_complete_long [OF assms(1)] by (auto simp: MIN_RTU_FRAME_def)
  then show ?thesis
    using splitter_take_discard [of reg "splitter_extend sp d"] assms
    by (simp add: read_rtu_frame_append splitter_discard_extend)
qed

lemma splitter_take_extend_Some:
  "splitter_take reg sp = (Some p, sp') \<Longrightarrow>
     splitter_take reg (splitter_extend sp d) = (Some p, splitter_extend sp' d)"
proof (induction sp rule: splitter_take_induct [of reg])
  case (packet sp q)
  note facts = read_rtu_frame_packet [OF packet(1)]
  have "splitter_read reg (splitter_extend sp d) = splitter_read reg sp"
    using facts(1) by (simp add: read_rtu_frame_append)
  then show ?case
    using packet facts splitter_take_packet [of reg sp q] splitter_take_packet [of reg "splitter_extend sp d" q]
    by (auto simp: splitter_extend_def)
next
  case (wait sp)
  then show ?case by (simp add: splitter_take_wait)
next
  case (discard sp)
  then show ?case by (simp add: splitter_take_discard splitter_take_discard_extend)
qed

lemma splitter_take_extend_None:
  "splitter_take reg sp = (None, sp') \<Longrightarrow>
     splitter_take reg (splitter_extend sp d) = splitter_take reg (splitter_extend sp' d)"
proof (induction sp rule: splitter_take_induct [of reg])
  case (packet sp q)
  then show ?case by (simp add: splitter_take_packet)
next
  case (wait sp)
  then show ?case by (simp add: splitter_take_wait)
next
  case (discard sp)
  then show ?case by (simp add: splitter_take_discard splitter_take_discard_extend)
qed

section \<open>A loop that can be fed while it runs\<close>

text \<open>
  What \<open>push\<close> relies on from \<open>_take\<close>: an item once found is found whatever arrives behind it,
  and coming back empty-handed loses nothing that more bytes would have made an item of.
\<close>

locale resumable =
  fixes take_next :: "'s \<Rightarrow> 'o option \<times> 's"
    and extend :: "'s \<Rightarrow> bytes \<Rightarrow> 's"
    and drain :: "'s \<Rightarrow> 'o list \<times> 's"
    and held :: "'s \<Rightarrow> nat"
  assumes drain_None: "take_next s = (None, s') \<Longrightarrow> drain s = ([], s')"
    and drain_Some: "take_next s = (Some x, s') \<Longrightarrow> drain s' = (xs, s'') \<Longrightarrow> drain s = (x # xs, s'')"
    and take_shorter: "take_next s = (Some x, s') \<Longrightarrow> held s' < held s"
    and take_extend_Some: "take_next s = (Some x, s') \<Longrightarrow> take_next (extend s d) = (Some x, extend s' d)"
    and take_extend_None: "take_next s = (None, s') \<Longrightarrow> take_next (extend s d) = take_next (extend s' d)"
    and extend_extend: "extend (extend s d) e = extend s (d @ e)"
begin

definition push :: "'s \<Rightarrow> bytes \<Rightarrow> 'o list \<times> 's" where
  "push s d = drain (extend s d)"

lemma drain_cong: "take_next s = take_next t \<Longrightarrow> drain s = drain t"
proof (cases "take_next t")
  case (Pair r t')
  assume same: "take_next s = take_next t"
  show ?thesis
  proof (cases r)
    case None
    with same Pair show ?thesis by (simp add: drain_None)
  next
    case (Some x)
    obtain xs t'' where "drain t' = (xs, t'')" by (cases "drain t'")
    with same Pair Some drain_Some [of s x t' xs t''] drain_Some [of t x t' xs t''] show ?thesis by simp
  qed
qed

lemma drain_extend:
  "drain s = (xs, s') \<Longrightarrow> drain (extend s' d) = (ys, s'') \<Longrightarrow> drain (extend s d) = (xs @ ys, s'')"
proof (induction "held s" arbitrary: s xs rule: less_induct)
  case less
  show ?case
  proof (cases "take_next s")
    case (Pair r t)
    show ?thesis
    proof (cases r)
      case None
      then have "take_next s = (None, t)" using Pair by simp
      then have "xs = []" "s' = t" and "drain (extend s d) = drain (extend t d)"
        using less.prems(1) drain_None [of s t] drain_cong [OF take_extend_None [of s t d]] by simp_all
      then show ?thesis using less.prems(2) by simp
    next
      case (Some x)
      then have take: "take_next s = (Some x, t)" using Pair by simp
      obtain zs t' where zs: "drain t = (zs, t')" by (cases "drain t")
      then have xs: "xs = x # zs" "t' = s'"
        using less.prems(1) drain_Some [OF take zs] by simp_all
      have "drain (extend t d) = (zs @ ys, s'')"
        using less.hyps [OF take_shorter [OF take]] zs xs less.prems(2) by simp
      then show ?thesis
        using drain_Some [OF take_extend_Some [OF take]] xs by simp
    qed
  qed
qed

lemma push_append:
  assumes "push s d = (xs, s')" and "push s' e = (ys, s'')"
  shows "push s (d @ e) = (xs @ ys, s'')"
  using drain_extend [of "extend s d" xs s' e ys s''] assms by (simp add: push_def extend_extend)

end

interpretation splitter: resumable
  "splitter_take reg" splitter_extend "splitter_drain reg" "\<lambda>sp. length (sp_buffer sp)" for reg
proof
  fix sp sp' :: ModbusRtuSplitter and p d
  show "splitter_take reg sp = (Some p, sp') \<Longrightarrow>
    splitter_take reg (splitter_extend sp d) = (Some p, splitter_extend sp' d)"
    by (rule splitter_take_extend_Some)
next
  fix sp sp' :: ModbusRtuSplitter and d
  show "splitter_take reg sp = (None, sp') \<Longrightarrow>
    splitter_take reg (splitter_extend sp d) = splitter_take reg (splitter_extend sp' d)"
    by (rule splitter_take_extend_None)
qed (auto simp: splitter_drain.simps splitter_extend_def dest: splitter_take_shorter)

lemma splitter_push_append:
  assumes "splitter_push reg sp d = (xs, sp')" and "splitter_push reg sp' e = (ys, sp'')"
  shows "splitter_push reg sp (d @ e) = (xs @ ys, sp'')"
  using splitter.push_append [of reg sp d xs sp' e ys sp''] assms
  by (simp add: splitter.push_def splitter_push_def)

fun splitter_push_all :: "registry \<Rightarrow> ModbusRtuSplitter \<Rightarrow> bytes list \<Rightarrow> rtu_adu list \<times> ModbusRtuSplitter" where
  "splitter_push_all reg sp [] = ([], sp)"
| "splitter_push_all reg sp (d # ds) =
     (let (xs, sp') = splitter_push reg sp d; (ys, sp'') = splitter_push_all reg sp' ds in (xs @ ys, sp''))"

lemma splitter_push_all_concat:
  "splitter_push_all reg sp (d # ds) = splitter_push reg sp (concat (d # ds))"
proof (induction ds arbitrary: sp d)
  case Nil
  then show ?case by (simp split: prod.splits)
next
  case (Cons e ds)
  obtain xs sp' where 1: "splitter_push reg sp d = (xs, sp')" by (cases "splitter_push reg sp d")
  obtain ys sp'' where 2: "splitter_push reg sp' (concat (e # ds)) = (ys, sp'')"
    by (cases "splitter_push reg sp' (concat (e # ds))")
  have "splitter_push_all reg sp (d # e # ds) = (xs @ ys, sp'')"
    using 1 2 Cons.IH [of sp' e] by (simp del: splitter_push_all.simps add: splitter_push_all.simps(2) [of reg sp])
  then show ?case using splitter_push_append [OF 1 2] by simp
qed

section \<open>What comes out is what went in\<close>

text \<open>
  \<open>cuts_into s ps n r\<close>: the bytes \<open>s\<close> are, in order, frames that the packets \<open>ps\<close> serialize to and
  whose checksum is right, \<open>n\<close> single bytes between them, and the rest \<open>r\<close>.
\<close>

inductive cuts_into :: "bytes \<Rightarrow> rtu_adu list \<Rightarrow> nat \<Rightarrow> bytes \<Rightarrow> bool" where
  cut_rest: "cuts_into s [] 0 s"
| cut_junk: "cuts_into s ps n r \<Longrightarrow> cuts_into (b # s) ps (Suc n) r"
| cut_frame: "ModbusRtuPacket_serialize p = (Inr f, p) \<Longrightarrow> crc_valid f \<Longrightarrow> cuts_into s ps n r \<Longrightarrow> cuts_into (f @ s) (p # ps) n r"

inductive_cases cut_NilE: "cuts_into s [] n r"

lemma cut_append: "cuts_into s ps m t \<Longrightarrow> cuts_into t qs n r \<Longrightarrow> cuts_into s (ps @ qs) (m + n) r"
  by (induction rule: cuts_into.induct) (auto intro: cuts_into.intros)

lemma cut_length:
  "cuts_into s ps n r \<Longrightarrow> \<exists>fs. map (\<lambda>p. fst (ModbusRtuPacket_serialize p)) ps = map Inr fs \<and>
     length s = length (concat fs) + n + length r"
proof (induction rule: cuts_into.induct)
  case (cut_rest s)
  then show ?case by simp
next
  case (cut_junk s ps n r b)
  then show ?case by auto
next
  case (cut_frame p f s ps n r)
  then obtain fs where "map (\<lambda>p. fst (ModbusRtuPacket_serialize p)) ps = map Inr fs"
    and "length s = length (concat fs) + n + length r" by blast
  with cut_frame.hyps show ?case by (intro exI [of _ "f # fs"]) simp
qed

lemma splitter_take_cut:
  "splitter_take reg sp = (r, sp') \<Longrightarrow>
     \<exists>n. sp_resyncs sp' = sp_resyncs sp + n \<and> sp_side sp' = sp_side sp \<and>
       cuts_into (sp_buffer sp) (case r of None \<Rightarrow> [] | Some p \<Rightarrow> [p]) n (sp_buffer sp')"
proof (induction sp rule: splitter_take_induct [of reg])
  case (packet sp p)
  note facts = read_rtu_frame_packet [OF packet(1)]
  define k where "k = nat (frame_length (splitter_read reg sp))"
  have "cuts_into (take k (sp_buffer sp) @ drop k (sp_buffer sp)) [p] 0 (drop k (sp_buffer sp))"
    using rtu_packet_ser_des [OF facts(4)] by (intro cuts_into.intros) (simp_all add: k_def)
  moreover have "r = Some p" "sp' = sp\<lparr>sp_buffer := drop k (sp_buffer sp)\<rparr>"
    using packet(2) by (simp_all add: splitter_take_packet [OF packet(1)] k_def)
  ultimately show ?case by auto
next
  case (wait sp)
  then show ?case by (auto simp: splitter_take_wait intro: cuts_into.intros)
next
  case (discard sp)
  have "sp_buffer sp \<noteq> []"
    using read_complete_long [OF discard(1)] by (auto simp: MIN_RTU_FRAME_def)
  then obtain b s where b: "sp_buffer sp = b # s" by (cases "sp_buffer sp") auto
  obtain n where "sp_resyncs sp' = sp_resyncs (splitter_discard sp) + n"
    and "sp_side sp' = sp_side (splitter_discard sp)"
    and "cuts_into (sp_buffer (splitter_discard sp)) (case r of None \<Rightarrow> [] | Some p \<Rightarrow> [p]) n (sp_buffer sp')"
    using discard by (auto simp: splitter_take_discard)
  then show ?case
    using b by (intro exI [of _ "Suc n"]) (simp add: splitter_discard_def cut_junk)
qed

lemma splitter_drain_cut:
  "splitter_drain reg sp = (ps, sp') \<Longrightarrow>
     \<exists>n. sp_resyncs sp' = sp_resyncs sp + n \<and> sp_side sp' = sp_side sp \<and> cuts_into (sp_buffer sp) ps n (sp_buffer sp')"
proof (induction reg sp arbitrary: ps rule: splitter_drain.induct)
  case (1 reg sp)
  obtain r t where t: "splitter_take reg sp = (r, t)" by (cases "splitter_take reg sp")
  note first = splitter_take_cut [OF t]
  show ?case
  proof (cases r)
    case None
    then show ?thesis using 1 t first by (simp add: splitter_drain.simps [of reg sp])
  next
    case (Some p)
    obtain qs u where u: "splitter_drain reg t = (qs, u)" by (cases "splitter_drain reg t")
    with 1 t Some have "ps = p # qs" "u = sp'" by (simp_all add: splitter_drain.simps [of reg sp])
    moreover obtain n where "sp_resyncs u = sp_resyncs t + n" "sp_side u = sp_side t"
      and "cuts_into (sp_buffer t) qs n (sp_buffer u)"
      using "1.IH" [OF t [symmetric] Some] u \<open>u = sp'\<close> by auto
    moreover obtain m where "sp_resyncs t = sp_resyncs sp + m" "sp_side t = sp_side sp"
      and "cuts_into (sp_buffer sp) [p] m (sp_buffer t)"
      using first Some by auto
    ultimately show ?thesis
      using cut_append [of "sp_buffer sp" "[p]" m "sp_buffer t" qs n "sp_buffer u"] by auto
  qed
qed

section \<open>Frames that were sent are found\<close>

definition known_on :: "registry \<Rightarrow> RtuSide \<Rightarrow> pdu \<Rightarrow> bool" where
  "known_on reg side q = (if side = REQUEST then known_request reg q else known_response reg q)"

definition sent_sized :: "registry \<Rightarrow> RtuSide \<Rightarrow> rtu_adu \<Rightarrow> bytes \<Rightarrow> bool" where
  "sent_sized reg side self f =
     (fst (ModbusRtuPacket_serialize self) = Inr f \<and> known_on reg side (rtu_pdu self) \<and> sizable (rtu_pdu self))"

lemma rtu_pdu_class_known:
  assumes "dyn_serialize q = Inr b" and "known_on reg side q"
  shows "rtu_pdu_class reg (uint (hd b)) side = dyn_type q"
  using assms(2) dyn_serialize_hd [OF assms(1)]
  by (auto simp: known_on_def known_request_def known_response_def rtu_pdu_class_def split: if_splits)

lemma read_sent:
  assumes "sent_sized reg side self f"
  obtains p where "ModbusRtuPacket_deserialize f True = Inr p"
    and "read_rtu_frame reg (f @ u) side =
      \<lparr>packet = Some p, frame_length = int (length f), incomplete = False, wanted = 0, is_sizable = True\<rparr>"
proof -
  obtain b sid where b: "dyn_serialize (rtu_pdu self) = Inr b" and f: "f = rtu_frame (sid # b)"
    using assms by (auto simp: sent_sized_def ModbusRtuPacket_serialize_eq Let_def split: sum.splits if_splits)
  have hd: "b \<noteq> []" using dyn_serialize_hd [OF b] by simp
  then have "2 \<le> length (sid # b)" by (cases b) simp_all
  then have "crc_valid f" by (simp only: f crc_valid_rtu_frame)
  moreover have len: "length f = length b + 3" by (simp add: f rtu_frame_def)
  moreover have "int (length b) \<le> PY_SSIZE_T_MAX" by (rule dyn_serialize_bound [OF b])
  ultimately obtain p where p: "ModbusRtuPacket_deserialize f True = Inr p"
    using rtu_packet_total [of f] by auto
  define w where "w = [word_of_int (calc_crc16 (sid # b) mod 256), word_of_int (calc_crc16 (sid # b) div 256)] @ u"
  have drop: "drop 1 (f @ u) = b @ w" by (simp add: f rtu_frame_def w_def)
  have "(b @ w) ! 0 = hd b" using hd by (simp add: nth_append hd_conv_nth)
  then have size: "dyn_expected_size (rtu_pdu_class reg (uint ((b @ w) ! 0)) side) (b @ w) = Inr (Some (int (length b)))"
    using assms expected_size_serialized [OF b, of w] rtu_pdu_class_known [OF b, of reg side]
    by (simp add: sent_sized_def)
  have total: "1 + int (length b) + int CRC_SIZE = int (length f)" by (simp add: len CRC_SIZE_def)
  have "\<not> length (f @ u) < MIN_RTU_FRAME" using len hd by (cases b) (simp_all add: MIN_RTU_FRAME_def CRC_SIZE_def)
  then have "read_rtu_frame reg (f @ u) side =
      \<lparr>packet = Some p, frame_length = int (length f), incomplete = False, wanted = 0, is_sizable = True\<rparr>"
    by (simp only: read_rtu_frame_def Let_def drop size total sum.case option.case if_False) (simp add: p)
  with p show thesis by (rule that)
qed

lemma splitter_drain_sent:
  assumes "list_all2 (sent_sized reg side) selves fs"
  shows "\<exists>ps. list_all2 (\<lambda>p f. ModbusRtuPacket_deserialize f True = Inr p) ps fs \<and>
    splitter_drain reg \<lparr>sp_side = side, sp_buffer = concat fs, sp_resyncs = k\<rparr> =
      (ps, \<lparr>sp_side = side, sp_buffer = [], sp_resyncs = k\<rparr>)"
  using assms
proof (induction selves fs rule: list_all2_induct)
  case Nil
  have "splitter_take reg \<lparr>sp_side = side, sp_buffer = [], sp_resyncs = k\<rparr> =
      (None, \<lparr>sp_side = side, sp_buffer = [], sp_resyncs = k\<rparr>)"
    by (simp add: splitter_take.simps MIN_RTU_FRAME_def)
  then show ?case by (simp add: splitter_drain.simps)
next
  case (Cons self selves f fs)
  obtain p where p: "ModbusRtuPacket_deserialize f True = Inr p"
    and r: "read_rtu_frame reg (f @ concat fs) side =
      \<lparr>packet = Some p, frame_length = int (length f), incomplete = False, wanted = 0, is_sizable = True\<rparr>"
    using Cons.hyps(1) by (rule read_sent)
  have "splitter_take reg \<lparr>sp_side = side, sp_buffer = concat (f # fs), sp_resyncs = k\<rparr> =
      (Some p, \<lparr>sp_side = side, sp_buffer = concat fs, sp_resyncs = k\<rparr>)"
    by (subst splitter_take_packet [where p = p]) (simp_all add: r)
  moreover obtain ps where "list_all2 (\<lambda>p f. ModbusRtuPacket_deserialize f True = Inr p) ps fs"
    and "splitter_drain reg \<lparr>sp_side = side, sp_buffer = concat fs, sp_resyncs = k\<rparr> =
      (ps, \<lparr>sp_side = side, sp_buffer = [], sp_resyncs = k\<rparr>)"
    using Cons.IH by blast
  ultimately show ?case
    using p by (intro exI [of _ "p # ps"]) (simp add: splitter_drain.simps [of reg "\<lparr>sp_side = side, sp_buffer = f @ concat fs, sp_resyncs = k\<rparr>"])
qed

text \<open>Held part-way, a sent frame is waited for, and never for more than is left of it.\<close>

lemma read_incomplete:
  "incomplete (read_rtu_frame reg s side) \<Longrightarrow>
     packet (read_rtu_frame reg s side) = None \<and> is_sizable (read_rtu_frame reg s side) \<and>
     0 < wanted (read_rtu_frame reg s side)"
  by (auto simp: read_rtu_frame_def Let_def split: sum.splits option.splits if_splits)

definition head_size :: "registry \<Rightarrow> bytes \<Rightarrow> RtuSide \<Rightarrow> int option pyres" where
  "head_size reg s side = dyn_expected_size (rtu_pdu_class reg (uint (drop 1 s ! 0)) side) (drop 1 s)"

lemma head_size_Some_append:
  "MIN_RTU_FRAME \<le> length u \<Longrightarrow> head_size reg u side = Inr (Some n) \<Longrightarrow> head_size reg (u @ v) side = Inr (Some n)"
  unfolding head_size_def
  by (auto simp: MIN_RTU_FRAME_def CRC_SIZE_def nth_append dest: expected_size_Some_append [where u = v])

lemma read_rtu_frame_sized:
  "MIN_RTU_FRAME \<le> length s \<Longrightarrow> head_size reg s side = Inr (Some n) \<Longrightarrow>
     read_rtu_frame reg s side =
       (if int (length s) < n + 3
        then \<lparr>packet = None, frame_length = 0, incomplete = True, wanted = n + 3 - int (length s), is_sizable = True\<rparr>
        else case ModbusRtuPacket_deserialize (take (nat (n + 3)) s) True of
               Inl _ \<Rightarrow> \<lparr>packet = None, frame_length = 0, incomplete = False, wanted = 0, is_sizable = True\<rparr>
             | Inr p \<Rightarrow> \<lparr>packet = Some p, frame_length = n + 3, incomplete = False, wanted = 0, is_sizable = True\<rparr>)"
  by (simp add: read_rtu_frame_def head_size_def Let_def CRC_SIZE_def add.commute)

lemma read_rtu_frame_unsized:
  "MIN_RTU_FRAME \<le> length s \<Longrightarrow> head_size reg s side = Inr None \<Longrightarrow>
     read_rtu_frame reg s side =
       \<lparr>packet = None, frame_length = 0, incomplete = True, wanted = 1, is_sizable = True\<rparr>"
  "MIN_RTU_FRAME \<le> length s \<Longrightarrow> head_size reg s side = Inl e \<Longrightarrow>
     read_rtu_frame reg s side =
       \<lparr>packet = None, frame_length = 0, incomplete = False, wanted = 0, is_sizable = False\<rparr>"
  by (simp_all add: read_rtu_frame_def head_size_def Let_def)

lemma read_sent_prefix:
  assumes "sent_sized reg side self (u @ v)" and "v \<noteq> []"
  shows "incomplete (read_rtu_frame reg u side) \<and> wanted (read_rtu_frame reg u side) \<le> int (length v)"
proof -
  obtain p where r: "read_rtu_frame reg (u @ v) side =
      \<lparr>packet = Some p, frame_length = int (length (u @ v)), incomplete = False, wanted = 0, is_sizable = True\<rparr>"
    using read_sent [OF assms(1), of "[]"] by auto
  have waits: "incomplete (read_rtu_frame reg u side)"
  proof (rule ccontr)
    assume "\<not> incomplete (read_rtu_frame reg u side)"
    from read_rtu_frame_append [OF this, of v] r
    have "read_rtu_frame reg u side =
      \<lparr>packet = Some p, frame_length = int (length (u @ v)), incomplete = False, wanted = 0, is_sizable = True\<rparr>"
      by simp
    with read_rtu_frame_packet(3) [of reg u side p] assms(2) show False by simp
  qed
  moreover have "wanted (read_rtu_frame reg u side) \<le> int (length v)"
  proof (cases "length u < MIN_RTU_FRAME")
    case True
    have "MIN_RTU_FRAME \<le> length (u @ v)" using r read_complete_long [of reg "u @ v" side] by simp
    then show ?thesis using True by (simp add: read_rtu_frame_def)
  next
    case False
    then have long: "MIN_RTU_FRAME \<le> length u" "MIN_RTU_FRAME \<le> length (u @ v)" by simp_all
    consider e where "head_size reg u side = Inl e" | "head_size reg u side = Inr None"
      | n where "head_size reg u side = Inr (Some n)"
      by (cases "head_size reg u side"; cases "projr (head_size reg u side)") auto
    then show ?thesis
    proof cases
      case 1
      then show ?thesis using read_rtu_frame_unsized(2) [OF long(1)] waits by simp
    next
      case 2
      then show ?thesis using read_rtu_frame_unsized(1) [OF long(1)] assms(2) by (cases v) simp_all
    next
      case (3 n)
      then have "n + 3 = int (length (u @ v))"
        using read_rtu_frame_sized [OF long(2) head_size_Some_append [OF long(1)]] r
        by (auto split: if_splits sum.splits)
      then show ?thesis
        using read_rtu_frame_sized [OF long(1) 3] waits by (auto split: if_splits sum.splits)
    qed
  qed
  ultimately show ?thesis ..
qed

section \<open>How much is ever held\<close>

lemma splitter_take_holds:
  "splitter_take reg sp = (None, sp') \<Longrightarrow> length (sp_buffer sp') < LARGEST_ANNOUNCED_FRAME"
proof (induction sp rule: splitter_take_induct [of reg])
  case (packet sp q)
  then show ?case by (simp add: splitter_take_packet)
next
  case (wait sp)
  then show ?case
    using read_rtu_frame_waits [OF wait(1)] splitter_take_wait [OF wait(1)] by auto
next
  case (discard sp)
  then show ?case by (simp add: splitter_take_discard)
qed

lemma splitter_drain_holds:
  "length (sp_buffer (snd (splitter_drain reg sp))) < LARGEST_ANNOUNCED_FRAME"
proof (induction "length (sp_buffer sp)" arbitrary: sp rule: less_induct)
  case less
  show ?case
  proof (cases "splitter_take reg sp")
    case (Pair r sp')
    then show ?thesis
      using splitter_take_holds [of reg sp sp'] less [of sp'] splitter_take_shorter [of reg sp _ sp']
      by (cases r) (auto simp: splitter_drain.simps [of reg sp] split: prod.splits)
  qed
qed

lemma splitter_push_holds:
  "splitter_pending (snd (splitter_push reg sp data)) < LARGEST_ANNOUNCED_FRAME"
  by (simp add: splitter_push_def splitter_pending_def splitter_drain_holds)

end
