(* ===== verification/Byte_Source.thy ===== *)
theory Byte_Source imports Errors begin

text \<open>
  Reading a fixed number of bytes from something that hands them out as they arrive: the loop
  both transports run (\<open>ModbusTcpStream._recv_exactly\<close> over a socket and
  \<open>ModbusRtuStream._read_exactly\<close> over a port), and the promise of the source it runs over.
\<close>

function read_exactly :: "('s \<Rightarrow> int \<Rightarrow> bytes pyres \<times> 's) \<Rightarrow> 's \<Rightarrow> int \<Rightarrow> bytes pyres \<times> 's" where
  "read_exactly read s pending =
     (if pending > 0
      then case read s pending of
             (Inl e, s') \<Rightarrow> (Inl e, s')
           | (Inr chunk, s') \<Rightarrow>
               if chunk = [] then (Inr [], s')
               else case read_exactly read s' (pending - int (length chunk)) of
                      (Inl e, s'') \<Rightarrow> (Inl e, s'')
                    | (Inr rest, s'') \<Rightarrow> (Inr (chunk @ rest), s'')
      else (Inr [], s))"
  by pat_completeness auto
termination
  by (relation "measure (\<lambda>(read, s, pending). nat pending)") (auto simp flip: length_greater_0_conv)

declare read_exactly.simps [simp del]

lemma read_exactly_done [simp]: "n \<le> 0 \<Longrightarrow> read_exactly read s n = (Inr [], s)"
  by (simp add: read_exactly.simps)

lemma read_exactly_raises:
  assumes "\<And>s n. raises_only P (fst (read s n))"
  shows "raises_only P (fst (read_exactly read s n))"
proof (induction "nat n" arbitrary: s n rule: less_induct)
  case less
  obtain r s' where read: "read s n = (r, s')" by (cases "read s n")
  then have r: "raises_only P r" using assms [of s n] by simp
  show ?case
  proof (cases "0 < n \<and> (\<exists>c. r = Inr c \<and> c \<noteq> [])")
    case True
    then obtain c where c: "0 < n" "r = Inr c" "c \<noteq> []" by blast
    then have "nat (n - int (length c)) < nat n" by simp
    then have "raises_only P (fst (read_exactly read s' (n - int (length c))))" by (rule less)
    then show ?thesis
      using c read
      by (cases "read_exactly read s' (n - int (length c))")
        (auto simp: read_exactly.simps [of read s n] split: sum.splits)
  next
    case False
    then show ?thesis using read r by (auto simp: read_exactly.simps [of read s n] split: sum.splits)
  qed
qed

text \<open>
  \<open>coming s\<close> is what the source still has to give. A read gives between one and the asked
  number of those bytes, for as long as there are any.
\<close>

locale byte_source =
  fixes read :: "'s \<Rightarrow> int \<Rightarrow> bytes pyres \<times> 's" and coming :: "'s \<Rightarrow> bytes"
  assumes read_some: "0 < n \<Longrightarrow> coming s \<noteq> [] \<Longrightarrow>
      \<exists>chunk s'. read s n = (Inr chunk, s') \<and> chunk \<noteq> [] \<and> int (length chunk) \<le> n \<and>
        coming s = chunk @ coming s'"
begin

lemma read_someE:
  assumes "0 < n" and "coming s \<noteq> []"
  obtains chunk s' where "read s n = (Inr chunk, s')" and "chunk \<noteq> []"
    and "int (length chunk) \<le> n" and "coming s = chunk @ coming s'"
  using read_some [OF assms] by blast

text \<open>However the bytes arrive, the ones asked for are read and no others.\<close>

lemma read_exactly_coming:
  "coming s = m @ rest \<Longrightarrow> \<exists>s'. read_exactly read s (int (length m)) = (Inr m, s') \<and> coming s' = rest"
proof (induction m arbitrary: s rule: length_induct)
  case (1 m)
  show ?case
  proof (cases "m = []")
    case True
    then show ?thesis using "1.prems" by simp
  next
    case False
    then have "0 < int (length m)" "coming s \<noteq> []" using "1.prems" by simp_all
    then obtain c s' where read: "read s (int (length m)) = (Inr c, s')"
      and c: "c \<noteq> []" "int (length c) \<le> int (length m)" and split: "coming s = c @ coming s'"
      by (rule read_someE)
    define m' where "m' = drop (length c) m"
    have m: "m = c @ m'" and coming: "coming s' = m' @ rest"
      using split "1.prems" c read_prefix_split [of m rest c "coming s'"] by (simp_all add: m'_def)
    then have shorter: "length m' < length m" using c by simp
    from "1.IH" [rule_format, OF this coming] obtain q where
      "read_exactly read s' (int (length m')) = (Inr m', q)" and "coming q = rest" by blast
    moreover have "0 < int (length c) + int (length m')" using c by (simp add: add_pos_nonneg)
    ultimately show ?thesis
      using read c by (subst read_exactly.simps) (simp add: m)
  qed
qed

end

text \<open>
  A source that ends: once it is \<open>ended\<close>, it says that it has nothing more to give by giving nothing. What a
  source that has not ended does when nothing is coming is not said here.
\<close>

locale ending_source = byte_source +
  fixes ended :: "'s \<Rightarrow> bool"
  assumes read_end: "coming s = [] \<Longrightarrow> ended s \<Longrightarrow> \<exists>s'. read s n = (Inr [], s') \<and> coming s' = []"
    and read_still: "ended (snd (read s n)) = ended s"
begin

lemma read_exactly_end:
  "length (coming s) < n \<Longrightarrow> ended s \<Longrightarrow> \<exists>s'. read_exactly read s (int n) = (Inr (coming s), s') \<and> coming s' = []"
proof (induction n arbitrary: s rule: less_induct)
  case (less n)
  show ?case
  proof (cases "coming s = []")
    case True
    then obtain s' where "read s (int n) = (Inr [], s')" and "coming s' = []"
      using read_end less.prems(2) by blast
    then show ?thesis using True less.prems by (subst read_exactly.simps) simp
  next
    case False
    have "0 < int n" using less.prems by simp
    then obtain c s' where read: "read s (int n) = (Inr c, s')"
      and c: "c \<noteq> []" "int (length c) \<le> int n" and split: "coming s = c @ coming s'"
      using False by (rule read_someE)
    have shorter: "n - length c < n" "length (coming s') < n - length c" "ended s'"
      using less.prems c split read read_still [of s "int n"] by auto
    from less.IH [OF this] obtain q where
      rest: "read_exactly read s' (int (n - length c)) = (Inr (coming s'), q)" and q: "coming q = []" by blast
    have "read_exactly read s' (int n - int (length c)) = (Inr (coming s'), q)"
      using rest c by (simp add: of_nat_diff)
    then show ?thesis
      using read c(1) split q \<open>0 < int n\<close> by (subst read_exactly.simps) simp
  qed
qed

lemma read_exactly_still: "ended (snd (read_exactly read s n)) = ended s"
proof (induction "nat n" arbitrary: s n rule: less_induct)
  case less
  obtain r s' where read: "read s n = (r, s')" by (cases "read s n")
  then have s': "ended s' = ended s" using read_still [of s n] by simp
  have IH: "ended (snd (read_exactly read s' (n - int (length c)))) = ended s" if "0 < n" "c \<noteq> []" for c :: bytes
    using that s' less.hyps [of "n - int (length c)" s'] by (cases c) simp_all
  show ?case
  proof (cases "0 < n \<and> (\<exists>c. r = Inr c \<and> c \<noteq> [])")
    case True
    then obtain c where "0 < n" "r = Inr c" "c \<noteq> []" by blast
    then show ?thesis
      using read IH [of c] by (auto simp: read_exactly.simps [of read s n] split: sum.splits prod.splits)
  qed (use read s' in \<open>auto simp: read_exactly.simps [of read s n] split: sum.splits\<close>)
qed

text \<open>Both outcomes in one: the bytes asked for, or all there were.\<close>

lemma read_exactly_take:
  assumes "n \<le> length (coming s) \<or> ended s"
  shows "\<exists>s'. read_exactly read s (int n) = (Inr (take n (coming s)), s') \<and> coming s' = drop n (coming s) \<and> ended s' = ended s"
proof -
  have "\<exists>s'. read_exactly read s (int n) = (Inr (take n (coming s)), s') \<and> coming s' = drop n (coming s)"
    using assms read_exactly_coming [of s "take n (coming s)" "drop n (coming s)"] read_exactly_end [of s n]
    by (cases "n \<le> length (coming s)") auto
  then show ?thesis using read_exactly_still [of s "int n"] by auto
qed

end

end
