(* ===== verification/Rtu_Stream.thy ===== *)
theory Rtu_Stream imports Rtu_Framing Byte_Source begin

text \<open>
  \<open>ModbusRtuStream\<close> of \<open>src/pyomb/transport/rtu.py\<close>: sending and receiving frames over a port
  the caller opened. The port is not the program's: its two operations are the argument
  \<open>ops\<close> of every definition, and its state is a field of the stream's. What the class documents
  of a port (\<open>BytePort\<close>) is the locale \<open>byte_port\<close>, interpreted on a scripted port at the end.
  A loop that ends only if the line goes quiet is a partial function: \<open>None\<close> is not returning.
\<close>

section \<open>The port and the stream\<close>

record 'p port_ops =
  port_read :: "'p \<Rightarrow> int \<Rightarrow> bytes pyres \<times> 'p"
  port_write :: "'p \<Rightarrow> bytes \<Rightarrow> int pyres \<times> 'p"

record 'p ModbusRtuStream =
  st_port :: 'p
  st_side :: RtuSide
  st_echo :: bool
  st_buffer :: bytes
  st_resyncs :: nat
  st_noise :: nat

definition stream_init :: "'p \<Rightarrow> RtuSide \<Rightarrow> bool \<Rightarrow> 'p ModbusRtuStream" where
  "stream_init p side echo =
     \<lparr>st_port = p, st_side = side, st_echo = echo, st_buffer = [], st_resyncs = 0, st_noise = 0\<rparr>"

section \<open>Reading the port\<close>

text \<open>What \<open>_read\<close> makes of one read of the port: a timeout is silence, any other \<open>OSError\<close> a network error.\<close>

definition port_poll :: "'p port_ops \<Rightarrow> 'p \<Rightarrow> int \<Rightarrow> bytes pyres \<times> 'p" where
  "port_poll ops p n = (case port_read ops p n of (r, p') \<Rightarrow>
     (case r of
        Inl e \<Rightarrow> if e = TimeoutError then Inr [] else if is_OSError e then Inl ModbusNetworkError else Inl e
      | Inr chunk \<Rightarrow> Inr chunk,
      p'))"

definition stream_read :: "'p port_ops \<Rightarrow> 'p ModbusRtuStream \<Rightarrow> int \<Rightarrow> bytes pyres \<times> 'p ModbusRtuStream" where
  "stream_read ops st n = (case port_poll ops (st_port st) n of (r, p) \<Rightarrow> (r, st\<lparr>st_port := p\<rparr>))"

definition stream_read_exactly ::
  "'p port_ops \<Rightarrow> 'p ModbusRtuStream \<Rightarrow> int \<Rightarrow> bytes pyres \<times> 'p ModbusRtuStream" where
  "stream_read_exactly ops st pending =
     (case read_exactly (port_poll ops) (st_port st) pending of (r, p) \<Rightarrow> (r, st\<lparr>st_port := p\<rparr>))"

partial_function (option) stream_drain ::
  "'p port_ops \<Rightarrow> 'p ModbusRtuStream \<Rightarrow> (unit pyres \<times> 'p ModbusRtuStream) option" where
  "stream_drain ops st =
     (case stream_read ops st (int MAX_RTU_FRAME) of (r, st') \<Rightarrow>
        (case r of
           Inl e \<Rightarrow> Some (Inl e, st')
         | Inr chunk \<Rightarrow> if chunk = [] then Some (Inr (), st'\<lparr>st_buffer := []\<rparr>) else stream_drain ops st'))"

section \<open>Sending\<close>

definition stream_send ::
  "'p port_ops \<Rightarrow> 'p ModbusRtuStream \<Rightarrow> bytes \<Rightarrow> (unit pyres \<times> 'p ModbusRtuStream) option" where
  "stream_send ops st message =
     (case port_write ops (st_port st) message of (r, p) \<Rightarrow>
        let st1 = st\<lparr>st_port := p\<rparr>
        in case r of
             Inl e \<Rightarrow> Some (if is_OSError e then Inl ModbusNetworkError else Inl e, st1)
           | Inr written \<Rightarrow>
               if written \<noteq> int (length message) then Some (Inl ModbusNetworkError, st1)
               else if \<not> st_echo st1 then Some (Inr (), st1)
               else (case stream_read_exactly ops st1 (int (length message)) of
                       (Inl e, st2) \<Rightarrow> Some (Inl e, st2)
                     | (Inr heard, st2) \<Rightarrow>
                         if heard = message then Some (Inr (), st2)
                         else (case stream_drain ops st2 of
                                 None \<Rightarrow> None
                               | Some (Inl e, st3) \<Rightarrow> Some (Inl e, st3)
                               | Some (Inr _, st3) \<Rightarrow> Some (Inl ModbusNetworkError, st3))))"

section \<open>Receiving\<close>

definition stream_discard :: "'p ModbusRtuStream \<Rightarrow> 'p ModbusRtuStream" where
  "stream_discard st = st\<lparr>st_buffer := drop 1 (st_buffer st), st_resyncs := st_resyncs st + 1,
     st_noise := st_noise st + 1\<rparr>"

definition stream_take :: "'p ModbusRtuStream \<Rightarrow> int \<Rightarrow> bytes \<times> 'p ModbusRtuStream" where
  "stream_take st n = (take (nat n) (st_buffer st), st\<lparr>st_buffer := drop (nat n) (st_buffer st)\<rparr>)"

text \<open>The scan of \<open>_receive_after_silence\<close> and, once nothing is long enough, its refusal.\<close>

function stream_scan :: "registry \<Rightarrow> 'p ModbusRtuStream \<Rightarrow> bytes pyres \<times> 'p ModbusRtuStream" where
  "stream_scan reg st =
     (if length (st_buffer st) \<ge> MIN_RTU_FRAME
      then let read = read_rtu_frame reg (st_buffer st) (st_side st)
           in case packet read of
                Some _ \<Rightarrow> (case stream_take st (frame_length read) of (frame, st') \<Rightarrow> (Inr frame, st'))
              | None \<Rightarrow> stream_scan reg (stream_discard st)
      else (Inl ModbusPacketError, st\<lparr>st_buffer := []\<rparr>))"
  by pat_completeness auto
termination
  by (relation "measure (\<lambda>(reg, st). length (st_buffer st))")
    (auto simp: stream_discard_def MIN_RTU_FRAME_def)

declare stream_scan.simps [simp del]

definition stream_receive_after_silence ::
  "registry \<Rightarrow> 'p ModbusRtuStream \<Rightarrow> bytes pyres \<times> 'p ModbusRtuStream" where
  "stream_receive_after_silence reg st =
     (if st_buffer st = [] then (Inl ModbusTimeoutError, st) else stream_scan reg st)"

text \<open>The loop of \<open>_receive_by_silence\<close>: read until the port goes quiet or the largest frame is held.\<close>

function stream_fill :: "'p port_ops \<Rightarrow> 'p ModbusRtuStream \<Rightarrow> unit pyres \<times> 'p ModbusRtuStream" where
  "stream_fill ops st =
     (if length (st_buffer st) < MAX_RTU_FRAME
      then case stream_read ops st (int MAX_RTU_FRAME - int (length (st_buffer st))) of
             (Inl e, st') \<Rightarrow> (Inl e, st')
           | (Inr chunk, st') \<Rightarrow>
               if chunk = [] then (Inr (), st')
               else stream_fill ops (st'\<lparr>st_buffer := st_buffer st' @ chunk\<rparr>)
      else (Inr (), st))"
  by pat_completeness auto
termination
  by (relation "measure (\<lambda>(ops, st). MAX_RTU_FRAME - length (st_buffer st))")
    (auto simp: stream_read_def split: prod.splits simp flip: length_greater_0_conv)

declare stream_fill.simps [simp del]

definition stream_receive_by_silence ::
  "registry \<Rightarrow> 'p port_ops \<Rightarrow> 'p ModbusRtuStream \<Rightarrow> bytes pyres \<times> 'p ModbusRtuStream" where
  "stream_receive_by_silence reg ops st =
     (case stream_fill ops st of
        (Inl e, st') \<Rightarrow> (Inl e, st')
      | (Inr _, st') \<Rightarrow>
          (case ModbusRtuPacket_deserialize (st_buffer st') True of
             Inl _ \<Rightarrow> stream_receive_after_silence reg st'
           | Inr _ \<Rightarrow> (case stream_take st' (int (length (st_buffer st'))) of (frame, st'') \<Rightarrow> (Inr frame, st''))))"

partial_function (option) stream_receive_loop ::
  "registry \<Rightarrow> 'p port_ops \<Rightarrow> 'p ModbusRtuStream \<Rightarrow> (bytes pyres \<times> 'p ModbusRtuStream) option" where
  "stream_receive_loop reg ops st =
     (let read = read_rtu_frame reg (st_buffer st) (st_side st)
      in if packet read \<noteq> None
         then (case stream_take st (frame_length read) of (frame, st') \<Rightarrow> Some (Inr frame, st'))
         else if \<not> is_sizable read \<and> st_noise st = 0 then Some (stream_receive_by_silence reg ops st)
         else if \<not> incomplete read then stream_receive_loop reg ops (stream_discard st)
         else case stream_read ops st (wanted read) of (r, st') \<Rightarrow>
           (case r of
              Inl e \<Rightarrow> Some (Inl e, st')
            | Inr chunk \<Rightarrow>
                if chunk = [] then Some (stream_receive_after_silence reg st')
                else stream_receive_loop reg ops (st'\<lparr>st_buffer := st_buffer st' @ chunk\<rparr>)))"

definition stream_receive ::
  "registry \<Rightarrow> 'p port_ops \<Rightarrow> 'p ModbusRtuStream \<Rightarrow> (bytes pyres \<times> 'p ModbusRtuStream) option" where
  "stream_receive reg ops st = stream_receive_loop reg ops (st\<lparr>st_noise := 0\<rparr>)"

section \<open>What is returned is a frame\<close>

text \<open>These hold over any port at all: nothing is assumed of \<open>ops\<close>.\<close>

definition is_frame :: "bytes \<Rightarrow> bool" where
  "is_frame f = (\<exists>p. ModbusRtuPacket_deserialize f True = Inr p)"

lemma stream_scan_frame: "stream_scan reg st = (Inr f, st') \<Longrightarrow> is_frame f"
proof (induction reg st rule: stream_scan.induct)
  case (1 reg st)
  define read where "read = read_rtu_frame reg (st_buffer st) (st_side st)"
  have long: "MIN_RTU_FRAME \<le> length (st_buffer st)"
    using "1.prems" by (auto simp: stream_scan.simps [of reg st] split: if_splits)
  show ?case
  proof (cases "packet read")
    case None
    then have "stream_scan reg (stream_discard st) = (Inr f, st')"
      using "1.prems" long by (simp add: stream_scan.simps [of reg st] read_def [symmetric] Let_def)
    with 1(1) [OF long read_def None] show ?thesis .
  next
    case (Some p)
    then have "f = take (nat (frame_length read)) (st_buffer st)"
      using "1.prems" long
      by (simp add: stream_scan.simps [of reg st] read_def [symmetric] Let_def stream_take_def)
    then show ?thesis
      using read_rtu_frame_packet(4) [of reg "st_buffer st" "st_side st" p] Some
      by (auto simp: is_frame_def read_def)
  qed
qed

lemma stream_after_silence_frame:
  "stream_receive_after_silence reg st = (Inr f, st') \<Longrightarrow> is_frame f"
  by (auto simp: stream_receive_after_silence_def stream_scan_frame split: if_splits)

lemma stream_by_silence_frame:
  "stream_receive_by_silence reg ops st = (Inr f, st') \<Longrightarrow> is_frame f"
  by (auto simp: stream_receive_by_silence_def stream_take_def is_frame_def
      split: prod.splits sum.splits dest: stream_after_silence_frame [unfolded is_frame_def])

text \<open>The turns of the receive loop, as an induction over a call that returned.\<close>

abbreviation stream_head :: "registry \<Rightarrow> 'p ModbusRtuStream \<Rightarrow> RtuRead" where
  "stream_head reg st \<equiv> read_rtu_frame reg (st_buffer st) (st_side st)"

lemma stream_receive_induct [consumes 1, case_names packet silence discard fail quiet more]:
  assumes "stream_receive_loop reg ops st = Some r"
    and "\<And>st p. packet (stream_head reg st) = Some p \<Longrightarrow>
      P st (Inr (take (nat (frame_length (stream_head reg st))) (st_buffer st)),
            st\<lparr>st_buffer := drop (nat (frame_length (stream_head reg st))) (st_buffer st)\<rparr>)"
    and "\<And>st. packet (stream_head reg st) = None \<Longrightarrow> \<not> is_sizable (stream_head reg st) \<Longrightarrow> st_noise st = 0 \<Longrightarrow>
      P st (stream_receive_by_silence reg ops st)"
    and "\<And>st r. packet (stream_head reg st) = None \<Longrightarrow> \<not> incomplete (stream_head reg st) \<Longrightarrow>
      P (stream_discard st) r \<Longrightarrow> P st r"
    and "\<And>st e st'. incomplete (stream_head reg st) \<Longrightarrow>
      stream_read ops st (wanted (stream_head reg st)) = (Inl e, st') \<Longrightarrow> P st (Inl e, st')"
    and "\<And>st st'. incomplete (stream_head reg st) \<Longrightarrow>
      stream_read ops st (wanted (stream_head reg st)) = (Inr [], st') \<Longrightarrow>
      P st (stream_receive_after_silence reg st')"
    and "\<And>st c st' r. incomplete (stream_head reg st) \<Longrightarrow>
      stream_read ops st (wanted (stream_head reg st)) = (Inr c, st') \<Longrightarrow> c \<noteq> [] \<Longrightarrow>
      P (st'\<lparr>st_buffer := st_buffer st' @ c\<rparr>) r \<Longrightarrow> P st r"
  shows "P st r"
  using assms(1)
proof (induction reg\<equiv>reg ops\<equiv>ops st r rule: stream_receive_loop.raw_induct [rotated, consumes 1, case_names turn])
  case (turn loop st r)
  note step = turn(2)
  show ?case
  proof (cases "packet (stream_head reg st)")
    case (Some p)
    then show ?thesis using step assms(2) [OF Some] by (auto simp: Let_def stream_take_def)
  next
    case None
    consider "\<not> is_sizable (stream_head reg st)" "st_noise st = 0"
      | "\<not> (\<not> is_sizable (stream_head reg st) \<and> st_noise st = 0)" "\<not> incomplete (stream_head reg st)"
      | "\<not> (\<not> is_sizable (stream_head reg st) \<and> st_noise st = 0)" "incomplete (stream_head reg st)"
      by (cases "incomplete (stream_head reg st)") auto
    then show ?thesis
    proof cases
      case 1
      then show ?thesis using step None assms(3) [OF None] by (simp add: Let_def)
    next
      case 2
      then have "loop reg ops (stream_discard st) = Some r" using step None by (auto simp: Let_def split: if_splits)
      from turn(1) [OF this] show ?thesis by (rule assms(4) [OF None 2(2)])
    next
      case 3
      obtain m st' where read: "stream_read ops st (wanted (stream_head reg st)) = (m, st')"
        by (cases "stream_read ops st (wanted (stream_head reg st))")
      show ?thesis
      proof (cases m)
        case (Inl e)
        then show ?thesis using step None 3 read assms(5) [of st e st'] by (auto simp: Let_def)
      next
        case (Inr c)
        show ?thesis
        proof (cases "c = []")
          case True
          then show ?thesis using step None 3 read Inr assms(6) [of st st'] by (auto simp: Let_def)
        next
          case False
          then have "loop reg ops (st'\<lparr>st_buffer := st_buffer st' @ c\<rparr>) = Some r"
            using step None 3 read Inr by (auto simp: Let_def)
          from turn(1) [OF this] show ?thesis
            using 3(2) read Inr False by (intro assms(7) [of st c st' r]) simp_all
        qed
      qed
    qed
  qed
qed

lemma stream_receive_loop_frame:
  assumes "stream_receive_loop reg ops st = Some (Inr f, st')"
  shows "is_frame f"
proof -
  have "\<forall>f s. r = (Inr f, s) \<longrightarrow> is_frame f" if "stream_receive_loop reg ops st = Some r" for r
    using that
  proof (induction rule: stream_receive_induct)
    case (packet st p)
    then show ?case
      using read_rtu_frame_packet(4) [of reg "st_buffer st" "st_side st" p] by (auto simp: is_frame_def)
  qed (auto dest: stream_by_silence_frame stream_after_silence_frame)
  then show ?thesis using assms by auto
qed

lemma is_frame_iff: "is_frame f \<Longrightarrow> crc_valid f"
  by (auto simp: is_frame_def dest: rtu_packet_ser_des(2))

section \<open>What reading leaves alone\<close>

text \<open>Receiving does nothing to the port but read it, so whatever a read leaves as it is, receiving does.\<close>

definition reading_keeps :: "'p port_ops \<Rightarrow> ('p \<Rightarrow> 'a) \<Rightarrow> bool" where
  "reading_keeps ops g = (\<forall>p n. g (snd (port_read ops p n)) = g p)"

lemma stream_scan_port: "st_port (snd (stream_scan reg st)) = st_port st"
proof (induction reg st rule: stream_scan.induct)
  case (1 reg st)
  then show ?case
    by (subst stream_scan.simps) (simp add: Let_def stream_take_def stream_discard_def split: option.split)
qed

lemma stream_after_silence_port: "st_port (snd (stream_receive_after_silence reg st)) = st_port st"
  by (simp add: stream_receive_after_silence_def stream_scan_port)

lemma stream_read_keeps: "reading_keeps ops g \<Longrightarrow> g (st_port (snd (stream_read ops st n))) = g (st_port st)"
  by (simp add: stream_read_def port_poll_def reading_keeps_def split: prod.split) (metis snd_conv)

lemma stream_fill_keeps: "reading_keeps ops g \<Longrightarrow> g (st_port (snd (stream_fill ops st))) = g (st_port st)"
proof (induction ops st rule: stream_fill.induct)
  case (1 ops st)
  obtain r st' where read: "stream_read ops st (int MAX_RTU_FRAME - int (length (st_buffer st))) = (r, st')"
    by fastforce
  then have "g (st_port st') = g (st_port st)"
    using stream_read_keeps [OF 1(2), of st "int MAX_RTU_FRAME - int (length (st_buffer st))"] by simp
  then show ?case
    using 1(1) [OF _ read [symmetric]] 1(2) read
    by (subst stream_fill.simps) (auto split: sum.split)
qed

lemma stream_by_silence_keeps:
  assumes "reading_keeps ops g"
  shows "g (st_port (snd (stream_receive_by_silence reg ops st))) = g (st_port st)"
  using stream_fill_keeps [OF assms, of st] 
  by (auto simp: stream_receive_by_silence_def stream_take_def stream_after_silence_port split: prod.splits sum.splits)

lemma stream_receive_keeps:
  assumes "reading_keeps ops g" and "stream_receive reg ops st = Some r"
  shows "g (st_port (snd r)) = g (st_port st)"
proof -
  have "stream_receive_loop reg ops (st\<lparr>st_noise := 0\<rparr>) = Some r" using assms(2) by (simp add: stream_receive_def)
  then have "g (st_port (snd r)) = g (st_port (st\<lparr>st_noise := 0\<rparr>))"
  proof (induction rule: stream_receive_induct)
    case (more st c st' r)
    then show ?case using stream_read_keeps [OF assms(1), of st "wanted (stream_head reg st)"] by simp
  next
    case (quiet st st')
    then show ?case
      using stream_read_keeps [OF assms(1), of st "wanted (stream_head reg st)"] stream_after_silence_port [of reg st'] by simp
  next
    case (fail st e st')
    then show ?case using stream_read_keeps [OF assms(1), of st "wanted (stream_head reg st)"] by simp
  qed (simp_all add: stream_discard_def stream_by_silence_keeps [OF assms(1)])
  then show ?thesis by simp
qed

section \<open>What can be raised\<close>

definition stream_error :: "py_exc \<Rightarrow> bool" where
  "stream_error e = (e = ModbusTimeoutError \<or> e = ModbusPacketError \<or> e = ModbusNetworkError)"

definition port_raises_OSError :: "'p port_ops \<Rightarrow> bool" where
  "port_raises_OSError ops = ((\<forall>p n. raises_only is_OSError (fst (port_read ops p n))) \<and>
     (\<forall>p d. raises_only is_OSError (fst (port_write ops p d))))"

lemma stream_read_raises:
  assumes "port_raises_OSError ops" and "stream_read ops st n = (Inl e, st')"
  shows "stream_error e"
proof -
  have "raises_only is_OSError (fst (port_read ops (st_port st) n))"
    using assms(1) by (simp add: port_raises_OSError_def)
  with assms(2) show ?thesis
    by (auto simp: stream_read_def port_poll_def stream_error_def split: prod.splits sum.splits if_splits)
qed

lemma stream_scan_raises: "stream_scan reg st = (Inl e, st') \<Longrightarrow> e = ModbusPacketError"
proof (induction reg st rule: stream_scan.induct)
  case (1 reg st)
  then show ?case
    by (auto simp: stream_scan.simps [of reg st] Let_def stream_take_def split: if_splits option.splits)
qed

lemma stream_after_silence_raises:
  "stream_receive_after_silence reg st = (Inl e, st') \<Longrightarrow> stream_error e"
  by (auto simp: stream_receive_after_silence_def stream_error_def dest: stream_scan_raises split: if_splits)

lemma stream_fill_raises:
  "port_raises_OSError ops \<Longrightarrow> stream_fill ops st = (Inl e, st') \<Longrightarrow> stream_error e"
proof (induction ops st rule: stream_fill.induct)
  case (1 ops st)
  then show ?case
    by (auto simp: stream_fill.simps [of ops st] split: if_splits prod.splits sum.splits
        dest: stream_read_raises)
qed

lemma stream_by_silence_raises:
  "port_raises_OSError ops \<Longrightarrow> stream_receive_by_silence reg ops st = (Inl e, st') \<Longrightarrow> stream_error e"
  by (auto simp: stream_receive_by_silence_def stream_take_def split: prod.splits sum.splits
      dest: stream_fill_raises stream_after_silence_raises)

lemma stream_receive_loop_raises:
  assumes "port_raises_OSError ops" and "stream_receive_loop reg ops st = Some (Inl e, st')"
  shows "stream_error e"
proof -
  have "\<forall>e s. r = (Inl e, s) \<longrightarrow> stream_error e" if "stream_receive_loop reg ops st = Some r" for r
    using that
  proof (induction rule: stream_receive_induct)
    case (fail st e st')
    then show ?case using assms(1) by (auto dest: stream_read_raises)
  qed (auto dest: stream_by_silence_raises [OF assms(1)] stream_after_silence_raises)
  then show ?thesis using assms(2) by auto
qed

section \<open>Over a port that keeps its documented promise\<close>

text \<open>
  \<open>coming p\<close> is what arrives at the port before it next goes quiet. A read returns between one
  and the asked number of those bytes, and reports the silence once they are gone, by returning
  nothing or by raising its timeout.
\<close>

locale byte_port =
  fixes ops :: "'p port_ops" and coming :: "'p \<Rightarrow> bytes"
  assumes read_some: "0 < n \<Longrightarrow> coming p \<noteq> [] \<Longrightarrow>
      \<exists>chunk p'. port_read ops p n = (Inr chunk, p') \<and> chunk \<noteq> [] \<and> int (length chunk) \<le> n \<and>
        coming p = chunk @ coming p'"
    and read_quiet: "coming p = [] \<Longrightarrow>
      fst (port_read ops p n) = Inr [] \<or> fst (port_read ops p n) = Inl TimeoutError"
begin

lemma poll_some:
  "0 < n \<Longrightarrow> coming p \<noteq> [] \<Longrightarrow>
     \<exists>chunk p'. port_poll ops p n = (Inr chunk, p') \<and> chunk \<noteq> [] \<and> int (length chunk) \<le> n \<and>
       coming p = chunk @ coming p'"
  by (drule (1) read_some) (auto simp: port_poll_def)

end

sublocale byte_port \<subseteq> polled: byte_source "port_poll ops" coming
  by unfold_locales (rule poll_some)

context byte_port begin

lemma stream_read_some:
  assumes "0 < n" and "coming (st_port st) \<noteq> []"
  obtains chunk p' where "stream_read ops st n = (Inr chunk, st\<lparr>st_port := p'\<rparr>)" and "chunk \<noteq> []"
    and "int (length chunk) \<le> n" and "coming (st_port st) = chunk @ coming p'"
  using poll_some [OF assms] by (auto simp: stream_read_def)

lemma stream_read_quiet:
  assumes "coming (st_port st) = []"
  obtains p' where "stream_read ops st n = (Inr [], st\<lparr>st_port := p'\<rparr>)"
  using read_quiet [OF assms, of n]
  by (cases "port_read ops (st_port st) n") (auto simp: stream_read_def port_poll_def)

lemma stream_read_exactly_coming:
  "coming (st_port st) = m @ rest \<Longrightarrow>
     \<exists>p'. stream_read_exactly ops st (int (length m)) = (Inr m, st\<lparr>st_port := p'\<rparr>) \<and> coming p' = rest"
  using polled.read_exactly_coming [of "st_port st" m rest] by (auto simp: stream_read_exactly_def)

text \<open>A sent frame is received as it was sent, and not a byte behind it is touched.\<close>

lemma receive_loop_sent:
  assumes "sent_sized reg (st_side st) self (u @ v)" and "st_buffer st = u" and "coming (st_port st) = v @ rest"
  shows "\<exists>p'. stream_receive_loop reg ops st = Some (Inr (u @ v), st\<lparr>st_port := p', st_buffer := []\<rparr>) \<and>
    coming p' = rest"
  using assms
proof (induction v arbitrary: st u rule: length_induct)
  case (1 v)
  show ?case
  proof (cases "v = []")
    case True
    obtain p where "read_rtu_frame reg (st_buffer st) (st_side st) =
      \<lparr>packet = Some p, frame_length = int (length u), incomplete = False, wanted = 0, is_sizable = True\<rparr>"
      using read_sent [OF "1.prems"(1), of "[]"] True "1.prems"(2) by auto
    then show ?thesis
      using "1.prems" True
      by (intro exI [of _ "st_port st"]) (simp add: stream_receive_loop.simps stream_take_def)
  next
    case False
    note waits = read_sent_prefix [OF "1.prems"(1) False]
    note facts = read_incomplete [of reg u "st_side st"]
    define n where "n = wanted (stream_head reg st)"
    have n: "0 < n" "n \<le> int (length v)" using waits facts "1.prems"(2) by (simp_all add: n_def)
    obtain c p' where read: "stream_read ops st n = (Inr c, st\<lparr>st_port := p'\<rparr>)"
      and c: "c \<noteq> []" "int (length c) \<le> n" and split: "coming (st_port st) = c @ coming p'"
      using n(1) False "1.prems"(3) by (auto elim: stream_read_some [of n st])
    define v' where "v' = drop (length c) v"
    have v: "v = c @ v'" and coming: "coming p' = v' @ rest"
      using split "1.prems"(3) c n read_prefix_split [of v rest c "coming p'"] by (simp_all add: v'_def)
    define st' where "st' = st\<lparr>st_port := p', st_buffer := u @ c\<rparr>"
    have "length v' < length v" using v c by simp
    moreover have "sent_sized reg (st_side st') self ((u @ c) @ v')" using "1.prems"(1) v by (simp add: st'_def)
    moreover have "coming (st_port st') = v' @ rest" "st_buffer st' = u @ c" using coming by (simp_all add: st'_def)
    ultimately obtain q where
      q: "stream_receive_loop reg ops st' = Some (Inr ((u @ c) @ v'), st'\<lparr>st_port := q, st_buffer := []\<rparr>)"
      and "coming q = rest"
      using "1.IH" by blast
    moreover have "stream_receive_loop reg ops st = stream_receive_loop reg ops st'"
      using waits facts read c "1.prems"(2)
      by (subst stream_receive_loop.simps) (simp add: n_def st'_def)
    ultimately show ?thesis by (intro exI [of _ q]) (simp add: st'_def v)
  qed
qed

text \<open>Whatever arrives, \<open>receive\<close> returns: each turn drops a byte or moves some off the line.\<close>

lemma receive_loop_returns: "\<exists>r. stream_receive_loop reg ops st = Some r"
proof (induction "2 * length (coming (st_port st)) + length (st_buffer st)" arbitrary: st rule: less_induct)
  case less
  note loop = stream_receive_loop.simps [of reg ops st]
  show ?case
  proof (cases "packet (stream_head reg st) = None \<and> \<not> (\<not> is_sizable (stream_head reg st) \<and> st_noise st = 0)")
    case False
    then show ?thesis by (subst loop) (auto simp: Let_def split: prod.splits)
  next
    case go: True
    show ?thesis
    proof (cases "incomplete (stream_head reg st)")
      case False
      then have "length (st_buffer (stream_discard st)) < length (st_buffer st)"
        using read_complete_long [OF False] by (simp add: stream_discard_def MIN_RTU_FRAME_def)
      then have "\<exists>r. stream_receive_loop reg ops (stream_discard st) = Some r"
        by (intro less) (simp add: stream_discard_def)
      then show ?thesis using go False by (subst loop) (auto simp: Let_def)
    next
      case inc: True
      note facts = read_incomplete [OF inc]
      show ?thesis
      proof (cases "coming (st_port st) = []")
        case True
        then obtain p' where "stream_read ops st (wanted (stream_head reg st)) = (Inr [], st\<lparr>st_port := p'\<rparr>)"
          by (rule stream_read_quiet)
        then show ?thesis using go facts inc by (subst loop) (auto simp: Let_def)
      next
        case False
        obtain c p' where read: "stream_read ops st (wanted (stream_head reg st)) = (Inr c, st\<lparr>st_port := p'\<rparr>)"
          and "c \<noteq> []" and "coming (st_port st) = c @ coming p'"
          using facts False by (auto elim: stream_read_some [of "wanted (stream_head reg st)" st])
        moreover from this have
          "\<exists>r. stream_receive_loop reg ops (st\<lparr>st_port := p', st_buffer := st_buffer st @ c\<rparr>) = Some r"
          by (intro less) (cases c, auto)
        ultimately show ?thesis using go facts inc
          by (subst loop) (auto simp: Let_def)
      qed
    qed
  qed
qed

text \<open>So does a send: what is on the line before it goes quiet is all that a drain reads.\<close>

lemma stream_drain_returns: "\<exists>r. stream_drain ops st = Some r"
proof (induction "length (coming (st_port st))" arbitrary: st rule: less_induct)
  case less
  show ?case
  proof (cases "coming (st_port st) = []")
    case True
    then obtain p' where "stream_read ops st (int MAX_RTU_FRAME) = (Inr [], st\<lparr>st_port := p'\<rparr>)"
      by (rule stream_read_quiet)
    then show ?thesis by (subst stream_drain.simps) simp
  next
    case False
    have "0 < int MAX_RTU_FRAME" by (simp add: MAX_RTU_FRAME_def)
    from this False obtain c p' where read: "stream_read ops st (int MAX_RTU_FRAME) = (Inr c, st\<lparr>st_port := p'\<rparr>)"
      and c: "c \<noteq> []" "coming (st_port st) = c @ coming p'"
      by (rule stream_read_some)
    then have "\<exists>r. stream_drain ops (st\<lparr>st_port := p'\<rparr>) = Some r" by (intro less) simp
    then show ?thesis using read c by (subst stream_drain.simps) simp
  qed
qed

lemma stream_send_returns: "stream_send ops st m \<noteq> None"
proof -
  have "stream_drain ops st' \<noteq> None" for st'
    using stream_drain_returns [of st'] by auto
  then show ?thesis
    by (simp add: stream_send_def Let_def del: not_None_eq split: prod.splits sum.splits option.splits)
qed

end

section \<open>An RS-485 transceiver that echoes\<close>

text \<open>What is written comes back ahead of whatever the peer says next.\<close>

locale echo_port = byte_port +
  assumes write_echo: "\<exists>p'. port_write ops p m = (Inr (int (length m)), p') \<and> coming p' = m @ coming p"
begin

lemma send_echo:
  assumes "st_echo st"
  shows "\<exists>p'. stream_send ops st m = Some (Inr (), st\<lparr>st_port := p'\<rparr>) \<and> coming p' = coming (st_port st)"
proof -
  obtain p where w: "port_write ops (st_port st) m = (Inr (int (length m)), p)"
    and p: "coming p = m @ coming (st_port st)"
    using write_echo by blast
  obtain p' where r: "stream_read_exactly ops (st\<lparr>st_port := p\<rparr>) (int (length m)) = (Inr m, st\<lparr>st_port := p'\<rparr>)"
    and p': "coming p' = coming (st_port st)"
    using stream_read_exactly_coming [of "st\<lparr>st_port := p\<rparr>" m "coming (st_port st)"] p by auto
  show ?thesis
    using w r p' assms by (intro exI [of _ p']) (simp add: stream_send_def)
qed

end

section \<open>A scripted port\<close>

text \<open>
  The port of the class's example, with silences: a list of chunks in the order they arrive, an
  empty one being a timeout that elapses. It keeps the promise, so the facts above hold over it.
\<close>

type_synonym script = "bytes list"

fun script_read :: "script \<Rightarrow> int \<Rightarrow> bytes pyres \<times> script" where
  "script_read [] n = (Inr [], [])"
| "script_read (c # cs) n =
     (if c = [] then (Inl TimeoutError, cs)
      else if int (length c) \<le> n then (Inr c, cs)
      else (Inr (take (nat n) c), drop (nat n) c # cs))"

definition script_ops :: "script port_ops" where
  "script_ops = \<lparr>port_read = script_read, port_write = (\<lambda>p d. (Inr (int (length d)), p))\<rparr>"

definition echo_ops :: "script port_ops" where
  "echo_ops = \<lparr>port_read = script_read,
     port_write = (\<lambda>p d. (Inr (int (length d)), if d = [] then p else d # p))\<rparr>"

definition script_coming :: "script \<Rightarrow> bytes" where
  "script_coming p = concat (takeWhile (\<lambda>c. c \<noteq> []) p)"

lemma script_coming_Cons:
  "script_coming (c # cs) = (if c = [] then [] else c @ script_coming cs)"
  by (simp add: script_coming_def)

lemma script_read_some:
  assumes "0 < n" and "script_coming p \<noteq> []"
  shows "\<exists>chunk p'. script_read p n = (Inr chunk, p') \<and> chunk \<noteq> [] \<and> int (length chunk) \<le> n \<and>
    script_coming p = chunk @ script_coming p'"
proof (cases p)
  case Nil
  then show ?thesis using assms(2) by (simp add: script_coming_def)
next
  case (Cons c cs)
  then have "c \<noteq> []" using assms(2) by (auto simp: script_coming_Cons)
  show ?thesis
  proof (cases "int (length c) \<le> n")
    case True
    then show ?thesis using Cons \<open>c \<noteq> []\<close> by (simp add: script_coming_Cons)
  next
    case False
    then have "drop (nat n) c \<noteq> []" using assms(1) by simp
    then have "script_coming p = take (nat n) c @ script_coming (drop (nat n) c # cs)"
      using \<open>c \<noteq> []\<close> by (simp only: Cons script_coming_Cons if_False append_assoc [symmetric] append_take_drop_id)
    moreover have "script_read p n = (Inr (take (nat n) c), drop (nat n) c # cs)"
      using Cons False \<open>c \<noteq> []\<close> by simp
    moreover have "take (nat n) c \<noteq> []" "int (length (take (nat n) c)) \<le> n"
      using assms(1) False \<open>c \<noteq> []\<close> by simp_all
    ultimately show ?thesis
      by (intro exI [of _ "take (nat n) c"] exI [of _ "drop (nat n) c # cs"] conjI)
  qed
qed

lemma script_read_quiet:
  "script_coming p = [] \<Longrightarrow> fst (script_read p n) = Inr [] \<or> fst (script_read p n) = Inl TimeoutError"
  by (cases p; cases "hd p = []") (simp_all add: script_coming_Cons)

lemma script_ops_simps [simp]:
  "port_read script_ops = script_read"
  "port_read echo_ops = script_read"
  "port_write script_ops p m = (Inr (int (length m)), p)"
  "port_write echo_ops p m = (Inr (int (length m)), if m = [] then p else m # p)"
  by (simp_all add: script_ops_def echo_ops_def)

interpretation script: byte_port script_ops script_coming
  by unfold_locales (simp_all only: script_ops_simps script_read_quiet, rule script_read_some)

interpretation echo: echo_port echo_ops script_coming
proof unfold_locales
  show "\<exists>p'. port_write echo_ops p m = (Inr (int (length m)), p') \<and> script_coming p' = m @ script_coming p"
    for p :: script and m
    by (simp add: script_coming_Cons)
qed (simp_all only: script_ops_simps script_read_quiet, rule script_read_some)

end
