(* ===== verification/Adu_Tcp.thy ===== *)
theory Adu_Tcp imports Pdu_Sizing begin

text \<open>
  \<open>src/pyomb/adu/tcp.py\<close>: the MBAP header, the check of its length field, and the three TCP
  frame classes. The record of the header's fields is in \<open>Errors\<close>, because the error an
  unparsable request raises carries it. The parser a class was given is the argument \<open>parse\<close>.
\<close>

section \<open>The MBAP header\<close>

definition HEADER_FMT :: struct_fmt where
  "HEADER_FMT = StructFmt Big [UShort, UShort, UShort, UByte] None"

definition HEADER_SIZE :: nat where
  "HEADER_SIZE = 7"

definition ModbusHeader_cls :: packet_class where
  "ModbusHeader_cls = \<lparr>cls_name = ''ModbusHeader'', LIMITS = [(''prot_id'', 0x0000, 0x0000)]\<rparr>"

definition ModbusHeader_attr :: "ModbusHeader \<Rightarrow> getattr" where
  "ModbusHeader_attr self name =
     (if name = ''trans_id'' then Inr (trans_id self)
      else if name = ''prot_id'' then Inr (prot_id self)
      else if name = ''length'' then Inr (hdr_length self)
      else if name = ''unit_id'' then Inr (unit_id self) else Inl AttributeError)"

definition ModbusHeader_len :: "int pyres" where
  "ModbusHeader_len = struct_calcsize HEADER_FMT"

definition ModbusHeader_violations :: "ModbusHeader \<Rightarrow> ModbusViolation list pyres" where
  "ModbusHeader_violations self = packet_violations ModbusHeader_cls (ModbusHeader_attr self) []"

definition ModbusHeader_serialize :: "ModbusHeader \<Rightarrow> bytes pyres" where
  "ModbusHeader_serialize self = except_raise is_StructError ModbusPacketError
     (struct_pack HEADER_FMT [trans_id self, prot_id self, hdr_length self, unit_id self])"

definition ModbusHeader_deserialize :: "bytes \<Rightarrow> ModbusHeader pyres" where
  "ModbusHeader_deserialize stream = bindE
     (except_raise is_StructError ModbusPacketError (struct_unpack HEADER_FMT stream)) (\<lambda>header.
        Inr \<lparr>trans_id = header ! 0, prot_id = header ! 1, hdr_length = header ! 2, unit_id = header ! 3\<rparr>)"

definition validate_mbap_length :: "ModbusHeader \<Rightarrow> bytes \<Rightarrow> unit pyres" where
  "validate_mbap_length header stream =
     (let expected = int HEADER_SIZE + hdr_length header - 1
      in if int (length stream) \<noteq> expected then Inl ModbusPacketError else Inr ())"

section \<open>The frame classes\<close>

record tcp_adu =
  tcp_header :: ModbusHeader
  tcp_pdu :: pdu

definition no_attr :: getattr where
  "no_attr name = Inl AttributeError"

text \<open>\<open>except (AttributeError, ModbusPacketError) as e: raise ModbusPacketError\<close>.\<close>

definition tcp_reraise :: "'a pyres \<Rightarrow> 'a pyres" where
  "tcp_reraise m = except_raise (\<lambda>e. e = AttributeError \<or> is_ModbusPacketError e) ModbusPacketError m"

subsection \<open>\<open>ModbusTcpPacket\<close>\<close>

definition ModbusTcpPacket_cls :: packet_class where
  "ModbusTcpPacket_cls = \<lparr>cls_name = ''ModbusTcpPacket'', LIMITS = []\<rparr>"

definition ModbusTcpPacket_violations :: "tcp_adu \<Rightarrow> ModbusViolation list pyres" where
  "ModbusTcpPacket_violations self = packet_violations ModbusTcpPacket_cls no_attr
     [ModbusHeader_violations (tcp_header self), dyn_violations (tcp_pdu self)]"

definition ModbusTcpPacket_serialize :: "tcp_adu \<Rightarrow> bytes pyres" where
  "ModbusTcpPacket_serialize self = bindE
     (tcp_reraise (bindE (ModbusHeader_serialize (tcp_header self)) (\<lambda>header_bytes.
        bindE (dyn_serialize (tcp_pdu self)) (\<lambda>pdu_bytes. Inr (header_bytes, pdu_bytes)))))
     (\<lambda>(header_bytes, pdu_bytes). Inr (header_bytes @ pdu_bytes))"

definition ModbusTcpPacket_deserialize :: "bytes \<Rightarrow> tcp_adu pyres" where
  "ModbusTcpPacket_deserialize stream = except_raise is_ModbusPacketError ModbusPacketError
     (bindE (ModbusHeader_deserialize (take HEADER_SIZE stream)) (\<lambda>header.
      bindE (validate_mbap_length header stream) (\<lambda>_.
      bindE (ModbusPdu_deserialize (drop HEADER_SIZE stream)) (\<lambda>p.
        Inr \<lparr>tcp_header = header, tcp_pdu = CommonPdu p\<rparr>))))"

subsection \<open>\<open>ModbusTcpRequest\<close>\<close>

definition ModbusTcpRequest_cls :: packet_class where
  "ModbusTcpRequest_cls = \<lparr>cls_name = ''ModbusTcpRequest'', LIMITS = []\<rparr>"

definition ModbusTcpRequest_violations :: "tcp_adu \<Rightarrow> ModbusViolation list pyres" where
  "ModbusTcpRequest_violations self = packet_violations ModbusTcpRequest_cls no_attr
     [ModbusHeader_violations (tcp_header self), dyn_violations (tcp_pdu self)]"

definition ModbusTcpRequest_serialize :: "tcp_adu \<Rightarrow> bytes pyres" where
  "ModbusTcpRequest_serialize self = bindE
     (tcp_reraise (bindE (ModbusHeader_serialize (tcp_header self)) (\<lambda>header_bytes.
        bindE (dyn_serialize (tcp_pdu self)) (\<lambda>pdu_bytes. Inr (header_bytes, pdu_bytes)))))
     (\<lambda>(header_bytes, pdu_bytes). Inr (header_bytes @ pdu_bytes))"

definition ModbusTcpRequest_deserialize :: "(bytes \<Rightarrow> pdu pyres) \<Rightarrow> bytes \<Rightarrow> tcp_adu pyres" where
  "ModbusTcpRequest_deserialize parse stream =
     bindE (except_raise is_ModbusPacketError ModbusPacketError
       (bindE (ModbusHeader_deserialize (take HEADER_SIZE stream)) (\<lambda>header.
        bindE (validate_mbap_length header stream) (\<lambda>_. Inr header)))) (\<lambda>header.
     let pdu_bytes = drop HEADER_SIZE stream
     in bindE (case parse pdu_bytes of
          Inl e \<Rightarrow>
            (if is_ModbusPacketError e
             then if pdu_bytes = [] then Inl ModbusPacketError
                  else Inl (ModbusPduParseError header (uint (pdu_bytes ! 0)))
             else Inl e)
        | Inr p \<Rightarrow> Inr p) (\<lambda>p.
          Inr \<lparr>tcp_header = header, tcp_pdu = p\<rparr>))"

subsection \<open>\<open>ModbusTcpResponse\<close>\<close>

definition ModbusTcpResponse_cls :: packet_class where
  "ModbusTcpResponse_cls = \<lparr>cls_name = ''ModbusTcpResponse'', LIMITS = []\<rparr>"

definition ModbusTcpResponse_violations :: "tcp_adu \<Rightarrow> ModbusViolation list pyres" where
  "ModbusTcpResponse_violations self = packet_violations ModbusTcpResponse_cls no_attr
     [ModbusHeader_violations (tcp_header self), dyn_violations (tcp_pdu self)]"

definition ModbusTcpResponse_serialize :: "tcp_adu \<Rightarrow> bytes pyres" where
  "ModbusTcpResponse_serialize self = bindE
     (tcp_reraise (bindE (ModbusHeader_serialize (tcp_header self)) (\<lambda>header_bytes.
        bindE (dyn_serialize (tcp_pdu self)) (\<lambda>pdu_bytes. Inr (header_bytes, pdu_bytes)))))
     (\<lambda>(header_bytes, pdu_bytes). Inr (header_bytes @ pdu_bytes))"

definition ModbusTcpResponse_deserialize :: "(bytes \<Rightarrow> pdu pyres) \<Rightarrow> bytes \<Rightarrow> tcp_adu pyres" where
  "ModbusTcpResponse_deserialize parse stream = except_raise is_ModbusPacketError ModbusPacketError
     (bindE (ModbusHeader_deserialize (take HEADER_SIZE stream)) (\<lambda>header.
      bindE (validate_mbap_length header stream) (\<lambda>_.
      bindE (parse (drop HEADER_SIZE stream)) (\<lambda>p.
        Inr \<lparr>tcp_header = header, tcp_pdu = p\<rparr>))))"

section \<open>Facts about the header\<close>

lemma header_des_ser: "ModbusHeader_serialize h = Inr s \<Longrightarrow> ModbusHeader_deserialize s = Inr h"
  by (cases h) (auto simp: ModbusHeader_serialize_def ModbusHeader_deserialize_def res_simps
      dest: struct_unpack_pack)

lemma header_ser_len: "ModbusHeader_serialize h = Inr s \<Longrightarrow> ModbusHeader_len = Inr (int (length s))"
  by (auto simp: ModbusHeader_serialize_def ModbusHeader_len_def res_simps dest: struct_pack_length)

lemma header_ser_des: "ModbusHeader_deserialize s = Inr h \<Longrightarrow> ModbusHeader_serialize h = Inr s"
proof -
  assume "ModbusHeader_deserialize s = Inr h"
  then obtain vs where u: "struct_unpack HEADER_FMT s = Inr vs"
    and h: "h = \<lparr>trans_id = vs ! 0, prot_id = vs ! 1, hdr_length = vs ! 2, unit_id = vs ! 3\<rparr>"
    by (auto simp: ModbusHeader_deserialize_def res_simps)
  have "length vs = 4" using u by (auto simp: HEADER_FMT_def struct_unpack.simps res_simps split: if_splits)
  then have "vs = [vs ! 0, vs ! 1, vs ! 2, vs ! 3]"
    by (auto simp: list_eq_iff_nth_eq less_Suc_eq numeral_eq_Suc)
  with struct_pack_unpack [OF u] show ?thesis
    by (simp add: ModbusHeader_serialize_def h)
qed

interpretation header_codec: sized_codec
  ModbusHeader_serialize ModbusHeader_deserialize "\<lambda>_. True" "\<lambda>_. ModbusHeader_len"
  by unfold_locales (auto dest: header_des_ser header_ser_len)

interpretation header_codec: transparent_codec
  ModbusHeader_serialize ModbusHeader_deserialize "\<lambda>_. True"
  by unfold_locales (auto dest: header_ser_des)

lemma header_ser_size: "ModbusHeader_serialize h = Inr s \<Longrightarrow> length s = HEADER_SIZE"
  by (drule header_ser_len) (auto simp: ModbusHeader_len_def HEADER_FMT_def HEADER_SIZE_def split: if_splits)

lemma header_serialize_Inr_iff:
  "(\<exists>s. ModbusHeader_serialize h = Inr s) \<longleftrightarrow>
     fits UShort (trans_id h) \<and> fits UShort (prot_id h) \<and> fits UShort (hdr_length h) \<and> fits UByte (unit_id h)"
  using pack_codes_Inr_iff [of Big "[UShort, UShort, UShort, UByte]" "[trans_id h, prot_id h, hdr_length h, unit_id h]"]
  by (auto simp: ModbusHeader_serialize_def HEADER_FMT_def struct_pack.simps PY_SSIZE_T_MAX_def res_simps)

lemma header_deserialize_Inr_iff: "(\<exists>h. ModbusHeader_deserialize s = Inr h) \<longleftrightarrow> length s = HEADER_SIZE"
  by (auto simp: ModbusHeader_deserialize_def HEADER_FMT_def HEADER_SIZE_def struct_unpack.simps
      PY_SSIZE_T_MAX_def res_simps split: if_splits)

lemma header_serialize_raises: "raises_only is_ModbusPacketError (ModbusHeader_serialize h)"
  unfolding ModbusHeader_serialize_def by (intro raises_intros)

lemma header_deserialize_raises: "raises_only is_ModbusPacketError (ModbusHeader_deserialize s)"
  unfolding ModbusHeader_deserialize_def by (intro raises_only_bindE raises_intros) simp

section \<open>Facts about the frames\<close>



lemma tcp_reraise_Inr [res_simps]: "tcp_reraise m = Inr x \<longleftrightarrow> m = Inr x"
  by (simp add: tcp_reraise_def res_simps)

lemma ModbusTcpPacket_serialize_Inr:
  "ModbusTcpPacket_serialize self = Inr s \<longleftrightarrow>
     (\<exists>h p. ModbusHeader_serialize (tcp_header self) = Inr h \<and> dyn_serialize (tcp_pdu self) = Inr p \<and> s = h @ p)"
  by (auto simp: ModbusTcpPacket_serialize_def res_simps)

lemma ModbusTcpRequest_serialize_same: "ModbusTcpRequest_serialize = ModbusTcpPacket_serialize"
  by (rule ext) (simp add: ModbusTcpRequest_serialize_def ModbusTcpPacket_serialize_def)

lemma ModbusTcpResponse_serialize_same: "ModbusTcpResponse_serialize = ModbusTcpPacket_serialize"
  by (rule ext) (simp add: ModbusTcpResponse_serialize_def ModbusTcpPacket_serialize_def)

lemmas tcp_serialize_eqs =
  ModbusTcpPacket_serialize_Inr ModbusTcpRequest_serialize_same ModbusTcpResponse_serialize_same

lemma tcp_serialize_raises: "raises_only is_ModbusPacketError (ModbusTcpPacket_serialize self)"
  unfolding ModbusTcpPacket_serialize_def tcp_reraise_def
  by (intro raises_only_bindE raises_only_except_raise [where Q = is_ModbusPacketError]
      header_serialize_raises dyn_serialize_raises) (auto split: prod.splits)

text \<open>The length field counts the unit identifier and the PDU.\<close>

definition length_agrees :: "tcp_adu \<Rightarrow> bool" where
  "length_agrees self = (dyn_len (tcp_pdu self) = Inr (hdr_length (tcp_header self) - 1))"

lemma mbap_length_ok:
  assumes "dyn_serialize (tcp_pdu self) = Inr p" and "length h = HEADER_SIZE"
  shows "validate_mbap_length (tcp_header self) (h @ p) = Inr () \<longleftrightarrow> length_agrees self"
  using assms dyn_ser_len [OF assms(1)]
  by (auto simp: validate_mbap_length_def length_agrees_def Let_def)

lemma validate_mbap_length_refuses:
  "validate_mbap_length h s \<noteq> Inr () \<Longrightarrow> validate_mbap_length h s = Inl ModbusPacketError"
  by (auto simp: validate_mbap_length_def Let_def)

text \<open>The header of a frame whose boundary can be trusted.\<close>

definition framed_header :: "bytes \<Rightarrow> ModbusHeader option" where
  "framed_header s = (case ModbusHeader_deserialize (take HEADER_SIZE s) of
     Inl _ \<Rightarrow> None
   | Inr h \<Rightarrow> if validate_mbap_length h s = Inr () then Some h else None)"

context pdu_parser begin

lemma tcp_request_des_ser:
  assumes "ModbusTcpRequest_serialize self = Inr s" and "length_agrees self" and "known (tcp_pdu self)"
  shows "ModbusTcpRequest_deserialize parse s = Inr self"
proof -
  obtain h p where h: "ModbusHeader_serialize (tcp_header self) = Inr h"
    and p: "dyn_serialize (tcp_pdu self) = Inr p" and s: "s = h @ p"
    using assms(1) by (auto simp: tcp_serialize_eqs)
  note len = header_ser_size [OF h]
  then have "validate_mbap_length (tcp_header self) s = Inr ()"
    using assms(2) by (simp add: s mbap_length_ok [OF p])
  then show ?thesis
    using len header_des_ser [OF h] des_ser [OF assms(3) p]
    by (simp add: ModbusTcpRequest_deserialize_def s)
qed

lemma tcp_response_des_ser:
  assumes "ModbusTcpResponse_serialize self = Inr s" and "length_agrees self" and "known (tcp_pdu self)"
  shows "ModbusTcpResponse_deserialize parse s = Inr self"
proof -
  obtain h p where h: "ModbusHeader_serialize (tcp_header self) = Inr h"
    and p: "dyn_serialize (tcp_pdu self) = Inr p" and s: "s = h @ p"
    using assms(1) by (auto simp: tcp_serialize_eqs)
  note len = header_ser_size [OF h]
  then have "validate_mbap_length (tcp_header self) s = Inr ()"
    using assms(2) by (simp add: s mbap_length_ok [OF p])
  then show ?thesis
    using len header_des_ser [OF h] des_ser [OF assms(3) p]
    by (simp add: ModbusTcpResponse_deserialize_def s)
qed

lemma tcp_request_deserialize_eq:
  "ModbusTcpRequest_deserialize parse s = (case framed_header s of
     None \<Rightarrow> Inl ModbusPacketError
   | Some h \<Rightarrow> (case parse (drop HEADER_SIZE s) of
       Inr p \<Rightarrow> Inr \<lparr>tcp_header = h, tcp_pdu = p\<rparr>
     | Inl e \<Rightarrow> if length s = HEADER_SIZE then Inl ModbusPacketError
               else Inl (ModbusPduParseError h (uint (s ! HEADER_SIZE)))))"
proof (cases "framed_header s")
  case None
  then show ?thesis
    using header_deserialize_raises [of "take HEADER_SIZE s"]
    by (auto simp: ModbusTcpRequest_deserialize_def framed_header_def validate_mbap_length_refuses
        split: sum.splits if_splits)
next
  case (Some h)
  then have h: "ModbusHeader_deserialize (take HEADER_SIZE s) = Inr h" "validate_mbap_length h s = Inr ()"
    by (auto simp: framed_header_def split: sum.splits if_splits)
  then have "HEADER_SIZE \<le> length s"
    using header_deserialize_Inr_iff [of "take HEADER_SIZE s"] by auto
  then show ?thesis
    using h Some parse_error [of "drop HEADER_SIZE s"]
    by (cases "parse (drop HEADER_SIZE s)") (auto simp: ModbusTcpRequest_deserialize_def nth_drop)
qed

end

text \<open>The generic frame is transparent.\<close>

fun opaque :: "tcp_adu \<Rightarrow> bool" where
  "opaque self = (length_agrees self \<and>
     (case tcp_pdu self of CommonPdu p \<Rightarrow> common_class_of p = ModbusPdu_t | _ \<Rightarrow> False))"

lemma tcp_packet_des_ser:
  assumes "ModbusTcpPacket_serialize self = Inr s" and "opaque self"
  shows "ModbusTcpPacket_deserialize s = Inr self"
proof -
  obtain h p where h: "ModbusHeader_serialize (tcp_header self) = Inr h"
    and p: "dyn_serialize (tcp_pdu self) = Inr p" and s: "s = h @ p"
    using assms(1) by (auto simp: tcp_serialize_eqs)
  obtain q where q: "tcp_pdu self = CommonPdu q" "common_class_of q = ModbusPdu_t"
    using assms(2) by (auto split: pdu.splits)
  note len = header_ser_size [OF h]
  then have "validate_mbap_length (tcp_header self) s = Inr ()"
    using assms(2) by (simp add: s mbap_length_ok [OF p])
  moreover have "ModbusPdu_deserialize p = Inr q"
    using p q common_des_ser [of q p] by simp
  ultimately show ?thesis
    using len header_des_ser [OF h] q by (cases self) (simp add: ModbusTcpPacket_deserialize_def s)
qed

lemma tcp_packet_ser_des:
  assumes "ModbusTcpPacket_deserialize s = Inr self"
  shows "opaque self \<and> ModbusTcpPacket_serialize self = Inr s"
proof -
  obtain h p where h: "ModbusHeader_deserialize (take HEADER_SIZE s) = Inr h"
    and v: "validate_mbap_length h s = Inr ()" and p: "ModbusPdu_deserialize (drop HEADER_SIZE s) = Inr p"
    and self: "self = \<lparr>tcp_header = h, tcp_pdu = CommonPdu p\<rparr>"
    using assms by (auto simp: ModbusTcpPacket_deserialize_def res_simps)
  have cls: "common_class_of p = ModbusPdu_t" and ser: "dyn_serialize (CommonPdu p) = Inr (drop HEADER_SIZE s)"
    using p common_deserialize_class [of ModbusPdu_t] common_ser_des [of ModbusPdu_t] by simp_all
  have len: "length (take HEADER_SIZE s) = HEADER_SIZE"
    using header_ser_size [OF header_ser_des [OF h]] .
  have "validate_mbap_length (tcp_header self) (take HEADER_SIZE s @ drop HEADER_SIZE s) = Inr ()"
    using v by (simp add: self)
  then have "length_agrees self"
    using mbap_length_ok [of self, OF _ len] ser by (simp add: self)
  moreover have "ModbusTcpPacket_serialize self = Inr s"
    using header_ser_des [OF h] ser by (auto simp: ModbusTcpPacket_serialize_Inr self)
  ultimately show ?thesis using cls by (simp add: self)
qed

interpretation tcp_packet_codec: transparent_codec
  ModbusTcpPacket_serialize ModbusTcpPacket_deserialize opaque
  by unfold_locales (auto simp: tcp_packet_ser_des simp del: opaque.simps dest: tcp_packet_des_ser)

end
