(* ===== verification/Tcp_Stream.thy ===== *)
theory Tcp_Stream imports Adu_Tcp Byte_Source begin

text \<open>
  \<open>src/pyomb/transport/stream.py\<close>: the fragmenter and the TCP stream. The socket belongs to the
  operating system: its operations are the argument \<open>ops\<close> and its state a field of the stream.
  \<open>None\<close> is not returning: a \<open>recv\<close> that waits for bytes that never come, as one without a time-out does,
  and a read loop that a bad fragment size keeps going for ever. What a connected socket promises is the
  locale \<open>blocking_socket\<close>, with \<open>byte_socket\<close> for one whose peer closes behind what it sends; both are
  interpreted on scripted connections at the end.
\<close>

section \<open>Fragmentation and reassembly\<close>

definition get_message_length :: "bytes \<Rightarrow> int pyres" where
  "get_message_length message =
     bindE (ModbusHeader_deserialize (take HEADER_SIZE message)) (\<lambda>header.
       Inr (int HEADER_SIZE + hdr_length header - 1))"

function frag_chunks :: "nat \<Rightarrow> bytes \<Rightarrow> bytes list" where
  "frag_chunks frag_size pdu =
     (if pdu = [] \<or> frag_size = 0 then [] else take frag_size pdu # frag_chunks frag_size (drop frag_size pdu))"
  by pat_completeness auto
termination
  by (relation "measure (\<lambda>(n, pdu). length pdu)") auto

declare frag_chunks.simps [simp del]

text \<open>\<open>while pdu\<close> is entered with a positive fragment size only: the two guards ahead of it return.\<close>

definition fragmenter_fragment :: "bytes \<Rightarrow> int \<Rightarrow> bytes list pyres" where
  "fragmenter_fragment message frag_size =
     (if frag_size < 0 then Inl ModbusPacketError
      else if frag_size = 0 then Inr [message]
      else Inr (take HEADER_SIZE message # frag_chunks (nat frag_size) (drop HEADER_SIZE message)))"

definition fragmenter_assemble :: "bytes list \<Rightarrow> bytes" where
  "fragmenter_assemble fragments = concat fragments"

record fragmenter =
  fragment :: "bytes \<Rightarrow> int \<Rightarrow> bytes list pyres"
  assemble :: "bytes list \<Rightarrow> bytes"

definition ModbusFragmenter :: fragmenter where
  "ModbusFragmenter = \<lparr>fragment = fragmenter_fragment, assemble = fragmenter_assemble\<rparr>"

section \<open>The stream\<close>

record 's sock_ops =
  sock_recv :: "'s \<Rightarrow> int \<Rightarrow> (bytes pyres \<times> 's) option"   \<comment> \<open>\<open>None\<close>: it blocks for good\<close>
  sock_send :: "'s \<Rightarrow> bytes \<Rightarrow> int pyres \<times> 's"
  sock_nodelay :: "'s \<Rightarrow> unit pyres \<times> 's"

record 's ModbusTcpStream =
  ts_sock :: 's
  ts_fragmenter :: fragmenter
  ts_frag_delay :: int
  ts_frag_size :: int
  ts_burst :: bool

text \<open>
  \<open>time.sleep\<close>: a negative duration is \<open>ValueError\<close>. The delay is a number of clock ticks here;
  nothing but its sign reaches the caller.
\<close>

definition sleep :: "int \<Rightarrow> unit pyres" where
  "sleep delay = (if delay < 0 then Inl ValueError else Inr ())"

text \<open>The \<open>for\<close> loop of \<open>send\<close>: what \<open>sock.send\<close> returns is not looked at.\<close>

fun send_fragments :: "'s sock_ops \<Rightarrow> int \<Rightarrow> bytes list \<Rightarrow> 's \<Rightarrow> unit pyres \<times> 's" where
  "send_fragments ops delay [] s = (Inr (), s)"
| "send_fragments ops delay (f # fs) s =
     (case sock_send ops s f of
        (Inl e, s') \<Rightarrow> (Inl e, s')
      | (Inr _, s') \<Rightarrow>
          (case sleep delay of
             Inl e \<Rightarrow> (Inl e, s')
           | Inr _ \<Rightarrow> send_fragments ops delay fs s'))"

text \<open>\<open>except ModbusBaseError: raise\<close>, then \<open>except OSError as e: raise ModbusNetworkError\<close>.\<close>

definition network_reraise :: "'a pyres \<Rightarrow> 'a pyres" where
  "network_reraise m = except_raise (\<lambda>e. \<not> is_ModbusBaseError e \<and> is_OSError e) ModbusNetworkError m"

definition tcp_send_body :: "'s sock_ops \<Rightarrow> 's ModbusTcpStream \<Rightarrow> bytes \<Rightarrow> unit pyres \<times> 's" where
  "tcp_send_body ops st message =
     (case (if ts_burst st then sock_nodelay ops (ts_sock st) else (Inr (), ts_sock st)) of
        (Inl e, s) \<Rightarrow> (Inl e, s)
      | (Inr _, s) \<Rightarrow>
          (case fragment (ts_fragmenter st) message (ts_frag_size st) of
             Inl e \<Rightarrow> (Inl e, s)
           | Inr fragments \<Rightarrow> send_fragments ops (ts_frag_delay st) fragments s))"

definition tcp_send :: "'s sock_ops \<Rightarrow> 's ModbusTcpStream \<Rightarrow> bytes \<Rightarrow> unit pyres \<times> 's ModbusTcpStream" where
  "tcp_send ops st message =
     (case tcp_send_body ops st message of (r, s) \<Rightarrow> (network_reraise r, st\<lparr>ts_sock := s\<rparr>))"

function tcp_recv_exactly :: "'s sock_ops \<Rightarrow> 's \<Rightarrow> int \<Rightarrow> (bytes pyres \<times> 's) option" where
  "tcp_recv_exactly ops s pending =
     (if pending > 0
      then case sock_recv ops s pending of
             None \<Rightarrow> None
           | Some (Inl e, s') \<Rightarrow> Some (Inl e, s')
           | Some (Inr chunk, s') \<Rightarrow>
               if chunk = [] then Some (Inr [], s')
               else case tcp_recv_exactly ops s' (pending - int (length chunk)) of
                      None \<Rightarrow> None
                    | Some (Inl e, s'') \<Rightarrow> Some (Inl e, s'')
                    | Some (Inr rest, s'') \<Rightarrow> Some (Inr (chunk @ rest), s'')
      else Some (Inr [], s))"
  by pat_completeness auto
termination
  by (relation "measure (\<lambda>(ops, s, pending). nat pending)") (auto simp flip: length_greater_0_conv)

declare tcp_recv_exactly.simps [simp del]

lemma tcp_recv_exactly_none [simp]: "n \<le> 0 \<Longrightarrow> tcp_recv_exactly ops s n = Some (Inr [], s)"
  by (simp add: tcp_recv_exactly.simps)

definition tcp_receive_header :: "'s sock_ops \<Rightarrow> 's \<Rightarrow> (bytes pyres \<times> 's) option" where
  "tcp_receive_header ops s =
     (case tcp_recv_exactly ops s (int HEADER_SIZE) of
        None \<Rightarrow> None
      | Some (Inl e, s') \<Rightarrow> Some (Inl e, s')
      | Some (Inr header_bytes, s') \<Rightarrow>
          if header_bytes = [] then Some (Inr [], s')
          else if length header_bytes < HEADER_SIZE then Some (Inl ModbusNetworkError, s')
          else Some (Inr header_bytes, s'))"

definition tcp_pdu_length :: "bytes \<Rightarrow> int pyres" where
  "tcp_pdu_length header_bytes =
     bindE (ModbusHeader_deserialize header_bytes) (\<lambda>header.
       let pdu_length = hdr_length header - 1
       in if pdu_length < 0 then Inl ModbusPacketError else Inr pdu_length)"

partial_function (option) tcp_receive_pdu_loop ::
  "'s sock_ops \<Rightarrow> int \<Rightarrow> bytes list \<Rightarrow> int \<Rightarrow> 's \<Rightarrow> (bytes list pyres \<times> 's) option" where
  "tcp_receive_pdu_loop ops frag_size fragments pending s =
     (if pending > 0
      then let chunk_size = (if frag_size \<noteq> 0 then min frag_size pending else pending)
           in case tcp_recv_exactly ops s chunk_size of
                None \<Rightarrow> None
              | Some (r, s') \<Rightarrow>
                (case r of
                   Inl e \<Rightarrow> Some (Inl e, s')
                 | Inr chunk \<Rightarrow>
                     if int (length chunk) < chunk_size then Some (Inl ModbusNetworkError, s')
                     else tcp_receive_pdu_loop ops frag_size (fragments @ [chunk]) (pending - int (length chunk)) s')
      else Some (Inr fragments, s))"

definition tcp_receive_pdu :: "'s sock_ops \<Rightarrow> int \<Rightarrow> int \<Rightarrow> 's \<Rightarrow> (bytes list pyres \<times> 's) option" where
  "tcp_receive_pdu ops frag_size pdu_length s = tcp_receive_pdu_loop ops frag_size [] pdu_length s"

definition tcp_receive_body :: "'s sock_ops \<Rightarrow> 's ModbusTcpStream \<Rightarrow> (bytes pyres \<times> 's) option" where
  "tcp_receive_body ops st =
     (case tcp_receive_header ops (ts_sock st) of
        None \<Rightarrow> None
      | Some (r, s) \<Rightarrow>
        (case r of
           Inl e \<Rightarrow> Some (Inl e, s)
         | Inr header_bytes \<Rightarrow>
             if header_bytes = [] then Some (Inr [], s)
             else (case tcp_pdu_length header_bytes of
                     Inl e \<Rightarrow> Some (Inl e, s)
                   | Inr pdu_length \<Rightarrow>
                       (case tcp_receive_pdu ops (ts_frag_size st) pdu_length s of
                          None \<Rightarrow> None
                        | Some (r', s') \<Rightarrow>
                            Some (bindE r' (\<lambda>fragments.
                              Inr (assemble (ts_fragmenter st) (header_bytes # fragments))), s')))))"

definition tcp_receive :: "'s sock_ops \<Rightarrow> 's ModbusTcpStream \<Rightarrow> (bytes pyres \<times> 's ModbusTcpStream) option" where
  "tcp_receive ops st =
     (case tcp_receive_body ops st of
        None \<Rightarrow> None
      | Some (r, s) \<Rightarrow> Some (network_reraise r, st\<lparr>ts_sock := s\<rparr>))"

section \<open>Facts about the fragmenter\<close>

lemma frag_chunks_concat: "0 < n \<Longrightarrow> concat (frag_chunks n pdu) = pdu"
  by (induction n pdu rule: frag_chunks.induct) (subst frag_chunks.simps, auto)

lemma frag_chunks_sizes:
  "f \<in> set (frag_chunks n pdu) \<Longrightarrow> f \<noteq> [] \<and> length f \<le> n"
proof (induction n pdu rule: frag_chunks.induct)
  case (1 n pdu)
  then show ?case by (subst (asm) (2) frag_chunks.simps) (auto split: if_splits)
qed

lemma fragment_assemble:
  "fragmenter_fragment message n = Inr fs \<Longrightarrow> fragmenter_assemble fs = message"
  by (auto simp: fragmenter_fragment_def fragmenter_assemble_def frag_chunks_concat split: if_splits)

lemma fragment_total: "0 \<le> n \<Longrightarrow> \<exists>fs. fragmenter_fragment message n = Inr fs"
  by (auto simp: fragmenter_fragment_def)

text \<open>What the stream asks of a fragmenter (\<open>ModbusFragmenterAbc\<close>).\<close>

locale fragmentation =
  fixes fr :: fragmenter
  assumes fragment_ok: "0 \<le> n \<Longrightarrow> \<exists>fs. fragment fr m n = Inr fs \<and> concat fs = m"
    and fragment_refuses: "n < 0 \<Longrightarrow> fragment fr m n = Inl ModbusPacketError"
    and assemble_ok: "assemble fr fs = concat fs"
begin

lemma assemble_fragment: "fragment fr m n = Inr fs \<Longrightarrow> assemble fr fs = m"
  using fragment_ok [of n m] fragment_refuses [of n m] by (cases "0 \<le> n") (auto simp: assemble_ok)

end

interpretation fragmenter: fragmentation ModbusFragmenter
  by unfold_locales
    (auto simp: ModbusFragmenter_def fragmenter_assemble_def fragmenter_fragment_def frag_chunks_concat)

lemma ModbusFragmenter_assemble [simp]: "assemble ModbusFragmenter = concat"
  by (rule ext) (simp add: ModbusFragmenter_def fragmenter_assemble_def)

section \<open>What receive returns, over a connected socket\<close>

text \<open>
  The contract: what is received is a function of the bytes the peer sends before it closes. It is
  stated on those bytes, where the length field is the fifth and sixth byte and counts what follows it.
\<close>

definition announced :: "bytes \<Rightarrow> nat" where
  "announced s = 256 * unat (s ! 4) + unat (s ! 5)"

definition receive_spec :: "bytes \<Rightarrow> bytes pyres \<times> bytes" where
  "receive_spec s =
     (if s = [] then (Inr [], [])
      else if length s < 7 then (Inl ModbusNetworkError, [])
      else if announced s = 0 then (Inl ModbusPacketError, drop 7 s)
      else if length s < 6 + announced s then (Inl ModbusNetworkError, [])
      else (Inr (take (6 + announced s) s), drop (6 + announced s) s))"

lemma header_length_field:
  assumes "length s = 7"
  shows "\<exists>h. ModbusHeader_deserialize s = Inr h \<and> hdr_length h = int (announced s)"
proof -
  obtain a b c d e f g where "s = [a, b, c, d, e, f, g]"
    using assms by (auto simp: numeral_eq_Suc length_Suc_conv)
  then show ?thesis
    by (simp add: ModbusHeader_deserialize_def HEADER_FMT_def struct_unpack.simps res_simps announced_def PY_SSIZE_T_MAX_def)
qed

lemma tcp_pdu_length_bytes:
  "length s = 7 \<Longrightarrow>
    tcp_pdu_length s = (if announced s = 0 then Inl ModbusPacketError else Inr (int (announced s) - 1))"
  using header_length_field [of s] by (auto simp: tcp_pdu_length_def Let_def)

text \<open>The same, in the terms \<open>receive\<close> reads its header in.\<close>

lemma receive_spec_header:
  "receive_spec s =
     (if s = [] then (Inr [], [])
      else if length s < HEADER_SIZE then (Inl ModbusNetworkError, [])
      else case tcp_pdu_length (take HEADER_SIZE s) of
             Inl e \<Rightarrow> (Inl e, drop HEADER_SIZE s)
           | Inr n \<Rightarrow>
               if int (length s) < int HEADER_SIZE + n then (Inl ModbusNetworkError, [])
               else (Inr (take (HEADER_SIZE + nat n) s), drop (HEADER_SIZE + nat n) s))"
proof (cases "length s < 7")
  case True
  then show ?thesis by (simp add: receive_spec_def HEADER_SIZE_def)
next
  case False
  have "tcp_pdu_length (take 7 s) =
      (if announced s = 0 then Inl ModbusPacketError else Inr (int (announced s) - 1))"
    using False tcp_pdu_length_bytes [of "take 7 s"] by (simp add: announced_def)
  moreover have "announced s = 0 \<or> take (7 + nat (int (announced s) - 1)) s = take (6 + announced s) s \<and>
      drop (7 + nat (int (announced s) - 1)) s = drop (6 + announced s) s"
    by (cases "announced s") simp_all
  moreover have "int (length s) < 7 + (int (announced s) - 1) \<longleftrightarrow> length s < 6 + announced s"
    by linarith
  ultimately show ?thesis using False
    by (elim disjE conjE) (simp_all add: receive_spec_def HEADER_SIZE_def)
qed

lemma receive_spec_message:
  assumes "tcp_pdu_length (take HEADER_SIZE m) = Inr n" and "length m = HEADER_SIZE + nat n" and "0 < n"
  shows "receive_spec (m @ rest) = (Inr m, rest)"
  using assms by (simp add: receive_spec_header HEADER_SIZE_def)

lemma tcp_pdu_length_raises: "raises_only is_ModbusPacketError (tcp_pdu_length s)"
  unfolding tcp_pdu_length_def
  by (intro raises_only_bindE header_deserialize_raises) (simp add: Let_def)

lemma tcp_pdu_length_Inr: "tcp_pdu_length s = Inr n \<Longrightarrow> 0 \<le> n"
  by (auto simp: tcp_pdu_length_def res_simps Let_def split: if_splits)

lemma network_reraise_simps [simp]:
  "network_reraise (Inr x) = Inr x"
  "is_ModbusBaseError e \<Longrightarrow> network_reraise (Inl e) = Inl e"
  by (simp_all add: network_reraise_def)

text \<open>Enough has come for \<open>receive\<close> to return, whatever comes after it: a frame, or a header that announces none.\<close>

definition decided :: "bytes \<Rightarrow> bool" where
  "decided s = (7 \<le> length s \<and> (announced s = 0 \<or> 6 + announced s \<le> length s))"

lemma decided_Nil [simp]: "\<not> decided []"
  by (simp add: decided_def)

lemma announced_take [simp]: "announced (take 7 s) = announced s"
  by (simp add: announced_def)

lemma decided_pdu:
  assumes "decided s" and "tcp_pdu_length (take HEADER_SIZE s) = Inr n"
  shows "nat n \<le> length (drop HEADER_SIZE s)"
  using assms tcp_pdu_length_bytes [of "take 7 s"]
  by (auto simp: decided_def HEADER_SIZE_def split: if_splits)

text \<open>A read that blocks gives nothing a reader of bytes could use.\<close>

definition socket_read :: "'s sock_ops \<Rightarrow> 's \<Rightarrow> int \<Rightarrow> bytes pyres \<times> 's" where
  "socket_read ops s n = (case sock_recv ops s n of None \<Rightarrow> (Inl OSError, s) | Some x \<Rightarrow> x)"

lemma socket_read_Inr [simp]: "socket_read ops s n = (Inr c, s') \<longleftrightarrow> sock_recv ops s n = Some (Inr c, s')"
  by (simp add: socket_read_def split: option.split)

lemma tcp_recv_exactly_read:
  "read_exactly (socket_read ops) s n = (Inr m, s') \<Longrightarrow> tcp_recv_exactly ops s n = Some (Inr m, s')"
proof (induction "nat n" arbitrary: s n m rule: less_induct)
  case less
  show ?case
  proof (cases "0 < n")
    case True
    obtain c t where read: "sock_recv ops s n = Some (Inr c, t)"
      using less.prems True
      by (auto simp: read_exactly.simps [of "socket_read ops" s n] split: prod.splits sum.splits)
    have IH: "tcp_recv_exactly ops t (n - int (length c)) = Some (Inr m', s')"
      if "c \<noteq> []" "read_exactly (socket_read ops) t (n - int (length c)) = (Inr m', s')" for m'
      using that True by (intro less.hyps) (cases c; simp)+
    have "socket_read ops s n = (Inr c, t)" using read by simp
    then show ?thesis
      using less.prems True read IH
      by (auto simp: read_exactly.simps [of "socket_read ops" s n] tcp_recv_exactly.simps [of ops s n]
          split: if_splits prod.splits sum.splits)
  qed (use less.prems in simp)
qed

text \<open>A socket that gives what is coming, whatever it does when nothing is: enough for whole frames.\<close>

locale frame_source = byte_source "socket_read ops" inbox
  for ops :: "'s sock_ops" and inbox :: "'s \<Rightarrow> bytes"
begin

lemma recv_exactly_enough:
  assumes "n \<le> length (inbox s)"
  shows "\<exists>t. tcp_recv_exactly ops s (int n) = Some (Inr (take n (inbox s)), t) \<and> inbox t = drop n (inbox s)"
  using read_exactly_coming [of s "take n (inbox s)" "drop n (inbox s)"] assms tcp_recv_exactly_read [of ops s "int n"] by fastforce

lemma receive_pdu_enough:
  "0 \<le> frag_size \<Longrightarrow> k \<le> length (inbox s) \<Longrightarrow>
     \<exists>s' fs. inbox s' = drop k (inbox s) \<and> concat fs = take k (inbox s) \<and>
       tcp_receive_pdu_loop ops frag_size acc (int k) s = Some (Inr (acc @ fs), s')"
proof (induction k arbitrary: acc s rule: less_induct)
  case (less k)
  note loop = tcp_receive_pdu_loop.simps [of ops frag_size acc "int k" s]
  show ?case
  proof (cases "k = 0")
    case True
    then show ?thesis using loop by (intro exI [of _ s] exI [of _ "[]"]) simp
  next
    case False
    define n where "n = (if frag_size \<noteq> 0 then min (nat frag_size) k else k)"
    have n: "0 < n" "n \<le> k" using False less.prems by (auto simp: n_def)
    have size: "(if frag_size \<noteq> 0 then min frag_size (int k) else int k) = int n"
      using less.prems by (auto simp: n_def)
    have n_in: "n \<le> length (inbox s)" using n less.prems by simp
    obtain t where t: "tcp_recv_exactly ops s (int n) = Some (Inr (take n (inbox s)), t)"
      and rest: "inbox t = drop n (inbox s)"
      using recv_exactly_enough [OF n_in] by blast
    have "k - n < k" "k - n \<le> length (inbox t)" using n rest less.prems by simp_all
    from less.IH [OF this(1) less.prems(1) this(2), of "acc @ [take n (inbox s)]"] obtain u fs where
      u: "inbox u = drop (k - n) (inbox t)" "concat fs = take (k - n) (inbox t)"
      and tail: "tcp_receive_pdu_loop ops frag_size (acc @ [take n (inbox s)]) (int (k - n)) t =
        Some (Inr ((acc @ [take n (inbox s)]) @ fs), u)"
      by blast
    have "tcp_receive_pdu_loop ops frag_size acc (int k) s = Some (Inr (acc @ take n (inbox s) # fs), u)"
      using loop tail False n_in t n by (simp add: size Let_def of_nat_diff)
    moreover have "concat (take n (inbox s) # fs) = take k (inbox s)"
      using rest n u(2) by (simp flip: take_add)
    ultimately show ?thesis using u(1) rest n by (intro exI [of _ u] exI [of _ "take n (inbox s) # fs"]) simp
  qed
qed

text \<open>A whole frame is received, whatever follows it.\<close>

lemma receive_frame:
  assumes "receive_spec (inbox (ts_sock st)) = (Inr m, rest)" and "m \<noteq> []"
    and "0 \<le> ts_frag_size st" and "assemble (ts_fragmenter st) = concat"
  shows "\<exists>s'. tcp_receive ops st = Some (Inr m, st\<lparr>ts_sock := s'\<rparr>) \<and> inbox s' = rest"
proof -
  define b where "b = inbox (ts_sock st)"
  have nz: "HEADER_SIZE \<noteq> 0" by (simp add: HEADER_SIZE_def)
  have ne: "b \<noteq> []" and long: "HEADER_SIZE \<le> length b"
    using assms(1,2) by (auto simp: b_def receive_spec_header split: if_splits)
  obtain n where n: "tcp_pdu_length (take HEADER_SIZE b) = Inr n"
    using assms(1) ne long by (cases "tcp_pdu_length (take HEADER_SIZE b)") (auto simp: receive_spec_header simp flip: b_def)
  have n0: "n = int (nat n)" using tcp_pdu_length_Inr [OF n] by simp
  have enough: "nat n \<le> length (drop HEADER_SIZE b)" and m: "m = take (HEADER_SIZE + nat n) b" "rest = drop (HEADER_SIZE + nat n) b"
    using assms(1) ne long n n0 by (auto simp: receive_spec_header add.commute simp flip: b_def split: if_splits)
  obtain s where hdr: "tcp_recv_exactly ops (ts_sock st) (int HEADER_SIZE) = Some (Inr (take HEADER_SIZE b), s)"
    and s: "inbox s = drop HEADER_SIZE b"
    using recv_exactly_enough [of HEADER_SIZE "ts_sock st"] long by (auto simp flip: b_def)
  obtain s' fs where s': "inbox s' = drop (nat n) (inbox s)" and fs: "concat fs = take (nat n) (inbox s)"
    and pdu: "tcp_receive_pdu_loop ops (ts_frag_size st) [] (int (nat n)) s = Some (Inr ([] @ fs), s')"
    using receive_pdu_enough [OF assms(3)] enough s by metis
  have "tcp_receive_pdu ops (ts_frag_size st) n s = Some (Inr fs, s')"
    using pdu n0 by (simp add: tcp_receive_pdu_def)
  then show ?thesis
    using hdr s s' fs n ne long nz m assms(4)
    by (intro exI [of _ s'])
      (simp add: tcp_receive_def tcp_receive_body_def tcp_receive_header_def take_add add.commute)
qed

end

text \<open>
  One without a time-out, as every socket the server accepts: once its peer has hung up, a read past the
  last byte says so; while the peer stays and sends nothing more, such a read never returns.
\<close>

locale blocking_socket = frame_source ops inbox + ending_source "socket_read ops" inbox hung_up
  for ops :: "'s sock_ops" and inbox :: "'s \<Rightarrow> bytes" and hung_up :: "'s \<Rightarrow> bool" +
  assumes recv_waits: "inbox s = [] \<Longrightarrow> \<not> hung_up s \<Longrightarrow> 0 < n \<Longrightarrow> sock_recv ops s n = None"
begin

lemma recv_exactly_take:
  assumes "n \<le> length (inbox s) \<or> hung_up s"
  shows "\<exists>s'. tcp_recv_exactly ops s (int n) = Some (Inr (take n (inbox s)), s') \<and> inbox s' = drop n (inbox s) \<and>
    hung_up s' = hung_up s"
  using read_exactly_take [OF assms] tcp_recv_exactly_read [of ops s "int n"] by blast

lemma recv_exactly_waits:
  "length (inbox s) < n \<Longrightarrow> \<not> hung_up s \<Longrightarrow> tcp_recv_exactly ops s (int n) = None"
proof (induction n arbitrary: s rule: less_induct)
  case (less n)
  have n: "0 < int n" using less.prems(1) by simp
  show ?case
  proof (cases "inbox s = []")
    case True
    then show ?thesis using recv_waits less.prems(2) n by (simp add: tcp_recv_exactly.simps [of ops s "int n"])
  next
    case False
    obtain c t where read: "socket_read ops s (int n) = (Inr c, t)" and c: "c \<noteq> []" "int (length c) \<le> int n"
      and split: "inbox s = c @ inbox t"
      using read_someE [OF n False] .
    have "hung_up t = hung_up s" using read_still [of s "int n"] unfolding read by simp
    then have "n - length c < n" "length (inbox t) < n - length c" "\<not> hung_up t"
      using less.prems c split by auto
    from less.IH [OF this] show ?thesis
      using read c n by (simp add: tcp_recv_exactly.simps [of ops s "int n"] of_nat_diff)
  qed
qed

lemma receive_header_spec:
  assumes "HEADER_SIZE \<le> length (inbox s) \<or> hung_up s"
  obtains s' where "inbox s' = drop HEADER_SIZE (inbox s)" and "hung_up s' = hung_up s"
    and "tcp_receive_header ops s =
      Some (if inbox s = [] then Inr [] else if length (inbox s) < HEADER_SIZE then Inl ModbusNetworkError
       else Inr (take HEADER_SIZE (inbox s)), s')"
proof -
  obtain s' where "tcp_recv_exactly ops s (int HEADER_SIZE) = Some (Inr (take HEADER_SIZE (inbox s)), s')"
    and rest: "inbox s' = drop HEADER_SIZE (inbox s)" "hung_up s' = hung_up s"
    using recv_exactly_take [OF assms] by blast
  moreover have "HEADER_SIZE \<noteq> 0" by (simp add: HEADER_SIZE_def)
  ultimately have "tcp_receive_header ops s =
      Some (if inbox s = [] then Inr [] else if length (inbox s) < HEADER_SIZE then Inl ModbusNetworkError
       else Inr (take HEADER_SIZE (inbox s)), s')"
    by (simp add: tcp_receive_header_def)
  with rest show thesis by (rule that)
qed

text \<open>A PDU that does not come to its end: cut off where the peer has hung up, waited for where it has not.\<close>

lemma receive_pdu_short:
  "0 \<le> frag_size \<Longrightarrow> length (inbox s) < k \<Longrightarrow>
     \<exists>s'. inbox s' = [] \<and> tcp_receive_pdu_loop ops frag_size acc (int k) s =
       (if hung_up s then Some (Inl ModbusNetworkError, s') else None)"
proof (induction k arbitrary: acc s rule: less_induct)
  case (less k)
  define n where "n = (if frag_size \<noteq> 0 then min (nat frag_size) k else k)"
  have n: "0 < n" "n \<le> k" using less.prems by (auto simp: n_def)
  have size: "(if frag_size \<noteq> 0 then min frag_size (int k) else int k) = int n"
    using less.prems by (auto simp: n_def)
  note loop = tcp_receive_pdu_loop.simps [of ops frag_size acc "int k" s]
  show ?case
  proof (cases "n \<le> length (inbox s) \<or> hung_up s")
    case True
    then obtain t where t: "tcp_recv_exactly ops s (int n) = Some (Inr (take n (inbox s)), t)"
      and rest: "inbox t = drop n (inbox s)" "hung_up t = hung_up s"
      using recv_exactly_take [of n s] by blast
    show ?thesis
    proof (cases "n \<le> length (inbox s)")
      case True
      then have "k - n < k" "length (inbox t) < k - n" using n rest less.prems by simp_all
      from less.IH [OF this(1) less.prems(1) this(2), of "acc @ [take n (inbox s)]"] show ?thesis
        using loop True t rest n by (simp add: size Let_def of_nat_diff)
    next
      case False
      then have "hung_up s" and "tcp_receive_pdu_loop ops frag_size acc (int k) s = Some (Inl ModbusNetworkError, t)"
        using loop t n \<open>n \<le> length (inbox s) \<or> hung_up s\<close> by (simp_all add: size Let_def)
      then show ?thesis using False rest by (intro exI [of _ t]) simp
    qed
  next
    case False
    then have blocked: "tcp_recv_exactly ops s (int n) = None" by (intro recv_exactly_waits) simp_all
    obtain s' where "inbox s' = []"
      using recv_exactly_enough [of "length (inbox s)" s] by auto
    then show ?thesis using loop False blocked n by (auto simp: size Let_def)
  qed
qed

lemma receive_pdu_spec:
  assumes "0 \<le> frag_size" and "k \<le> length (inbox s) \<or> hung_up s"
  shows "\<exists>s'. inbox s' = drop k (inbox s) \<and>
    (if k \<le> length (inbox s)
     then \<exists>fs. concat fs = take k (inbox s) \<and>
       tcp_receive_pdu_loop ops frag_size acc (int k) s = Some (Inr (acc @ fs), s')
     else tcp_receive_pdu_loop ops frag_size acc (int k) s = Some (Inl ModbusNetworkError, s'))"
proof (cases "k \<le> length (inbox s)")
  case True
  with receive_pdu_enough [OF assms(1) this, of acc] show ?thesis by auto
next
  case False
  then have "length (inbox s) < k" by simp
  from receive_pdu_short [OF assms(1) this, of acc] show ?thesis using False assms(2) by auto
qed

text \<open>The stream refines the contract, whatever the sizes the bytes arrive or are asked for in.\<close>

lemma receive_in_time:
  assumes "0 \<le> ts_frag_size st" and "assemble (ts_fragmenter st) = concat"
    and "hung_up (ts_sock st) \<or> decided (inbox (ts_sock st))"
  shows "\<exists>s'. tcp_receive ops st = Some (fst (receive_spec (inbox (ts_sock st))), st\<lparr>ts_sock := s'\<rparr>) \<and>
    inbox s' = snd (receive_spec (inbox (ts_sock st)))"
proof -
  define b where "b = inbox (ts_sock st)"
  have "HEADER_SIZE \<le> length b \<or> hung_up (ts_sock st)"
    using assms(3) by (auto simp: b_def decided_def HEADER_SIZE_def)
  then obtain s where s: "inbox s = drop HEADER_SIZE b" "hung_up s = hung_up (ts_sock st)"
    and hdr: "tcp_receive_header ops (ts_sock st) =
      Some (if b = [] then Inr [] else if length b < HEADER_SIZE then Inl ModbusNetworkError
       else Inr (take HEADER_SIZE b), s)"
    unfolding b_def by (rule receive_header_spec)
  have nz: "HEADER_SIZE \<noteq> 0" by (simp add: HEADER_SIZE_def)
  consider "b = []" | "b \<noteq> []" "length b < HEADER_SIZE" | e where "HEADER_SIZE \<le> length b" "tcp_pdu_length (take HEADER_SIZE b) = Inl e"
    | n where "HEADER_SIZE \<le> length b" "tcp_pdu_length (take HEADER_SIZE b) = Inr n"
    by (cases "length b < HEADER_SIZE"; cases "tcp_pdu_length (take HEADER_SIZE b)") auto
  then show ?thesis
  proof cases
    case 1
    then show ?thesis
      using hdr s by (intro exI [of _ s]) (simp add: tcp_receive_def tcp_receive_body_def receive_spec_header flip: b_def)
  next
    case 2
    then show ?thesis
      using hdr s by (intro exI [of _ s])
        (simp add: tcp_receive_def tcp_receive_body_def receive_spec_header network_reraise_def is_ModbusBaseError_def flip: b_def)
  next
    case (3 e)
    moreover from this nz have "b \<noteq> []" by auto
    moreover have "is_ModbusPacketError e" using 3 tcp_pdu_length_raises [of "take HEADER_SIZE b"] by simp
    ultimately show ?thesis
      using hdr s nz by (intro exI [of _ s])
        (simp add: tcp_receive_def tcp_receive_body_def receive_spec_header is_ModbusBaseError_intros flip: b_def)
  next
    case (4 n)
    then have ne: "b \<noteq> []" and n: "n = int (nat n)" using nz tcp_pdu_length_Inr by auto
    have "nat n \<le> length (inbox s) \<or> hung_up s"
      using assms(3) decided_pdu [OF _ 4(2)] s by (auto simp flip: b_def)
    then obtain s' where rest: "inbox s' = drop (nat n) (inbox s)"
      and pdu: "if nat n \<le> length (inbox s)
        then \<exists>fs. concat fs = take (nat n) (inbox s) \<and>
          tcp_receive_pdu_loop ops (ts_frag_size st) [] (int (nat n)) s = Some (Inr ([] @ fs), s')
        else tcp_receive_pdu_loop ops (ts_frag_size st) [] (int (nat n)) s = Some (Inl ModbusNetworkError, s')"
      using receive_pdu_spec [OF assms(1)] by blast
    show ?thesis
    proof (cases "nat n \<le> length (inbox s)")
      case True
      with pdu n obtain fs where "concat fs = take (nat n) (inbox s)"
        and "tcp_receive_pdu ops (ts_frag_size st) n s = Some (Inr fs, s')"
        by (auto simp: tcp_receive_pdu_def)
      moreover have "take HEADER_SIZE b @ take (nat n) (drop HEADER_SIZE b) = take (HEADER_SIZE + nat n) b"
        by (simp add: take_add)
      ultimately show ?thesis
        using 4 ne hdr nz rest s True assms(2) n
        by (intro exI [of _ s'])
          (auto simp: tcp_receive_def tcp_receive_body_def receive_spec_header add.commute simp flip: b_def)
    next
      case False
      with pdu n have "tcp_receive_pdu ops (ts_frag_size st) n s = Some (Inl ModbusNetworkError, s')"
        by (simp add: tcp_receive_pdu_def)
      moreover have "int (length b) < int HEADER_SIZE + n" using False s n 4 by simp
      ultimately show ?thesis
        using 4 ne hdr nz rest s False
        by (intro exI [of _ s'])
          (simp add: tcp_receive_def tcp_receive_body_def receive_spec_header network_reraise_def
            is_ModbusBaseError_def flip: b_def)
    qed
  qed
qed

text \<open>And where not enough has come and the peer stays, it does not return.\<close>

lemma receive_stalls:
  assumes "0 \<le> ts_frag_size st" and "\<not> hung_up (ts_sock st)" and "\<not> decided (inbox (ts_sock st))"
  shows "tcp_receive ops st = None"
proof (cases "HEADER_SIZE \<le> length (inbox (ts_sock st))")
  case False
  then have "tcp_recv_exactly ops (ts_sock st) (int HEADER_SIZE) = None"
    using recv_exactly_waits assms(2) by simp
  then show ?thesis by (simp add: tcp_receive_def tcp_receive_body_def tcp_receive_header_def)
next
  case True
  define b where "b = inbox (ts_sock st)"
  have ne: "take HEADER_SIZE b \<noteq> []" "7 \<le> length b" using True by (auto simp: b_def HEADER_SIZE_def)
  have enough: "HEADER_SIZE \<le> length (inbox (ts_sock st)) \<or> hung_up (ts_sock st)" using True ..
  obtain s where s: "inbox s = drop HEADER_SIZE b" "hung_up s = hung_up (ts_sock st)"
    and "tcp_receive_header ops (ts_sock st) = Some (if b = [] then Inr []
      else if length b < HEADER_SIZE then Inl ModbusNetworkError else Inr (take HEADER_SIZE b), s)"
    unfolding b_def by (rule receive_header_spec [OF enough])
  then have hdr: "tcp_receive_header ops (ts_sock st) = Some (Inr (take HEADER_SIZE b), s)"
    using True ne by (auto simp: b_def)
  have b: "announced b \<noteq> 0" "length b < 6 + announced b"
    using assms(3) ne by (auto simp: decided_def simp flip: b_def)
  have len: "tcp_pdu_length (take HEADER_SIZE b) = Inr (int (announced b - 1))"
    using tcp_pdu_length_bytes [of "take 7 b"] ne(2) b(1) by (simp add: HEADER_SIZE_def of_nat_diff)
  have "length (inbox s) < announced b - 1" using s b ne(2) by (simp add: HEADER_SIZE_def)
  then have "tcp_receive_pdu ops (ts_frag_size st) (int (announced b - 1)) s = None"
    using receive_pdu_short [OF assms(1), of s "announced b - 1" "[]"] s(2) assms(2) by (auto simp: tcp_receive_pdu_def)
  then show ?thesis using hdr len ne(1) by (simp add: tcp_receive_def tcp_receive_body_def)
qed

end

text \<open>What a socket without a time-out must not be read in: not all of a frame has come, and the peer stays.\<close>

definition stalled :: "('s \<Rightarrow> bytes) \<Rightarrow> ('s \<Rightarrow> bool) \<Rightarrow> 's \<Rightarrow> bool" where
  "stalled inbox hung_up s = (\<not> hung_up s \<and> \<not> decided (inbox s))"

text \<open>One whose peer closes when nothing more is coming.\<close>

locale byte_socket = frame_source ops inbox + ending_source "socket_read ops" inbox "\<lambda>_. True"
  for ops :: "'s sock_ops" and inbox :: "'s \<Rightarrow> bytes"

sublocale byte_socket \<subseteq> closing: blocking_socket ops inbox "\<lambda>_. True"
  by unfold_locales simp

context byte_socket begin

lemma receive_refines:
  assumes "0 \<le> ts_frag_size st" and "assemble (ts_fragmenter st) = concat"
  shows "\<exists>s'. tcp_receive ops st = Some (fst (receive_spec (inbox (ts_sock st))), st\<lparr>ts_sock := s'\<rparr>) \<and>
    inbox s' = snd (receive_spec (inbox (ts_sock st)))"
  using closing.receive_in_time [OF assms] by simp

end

text \<open>
  A negative fragment size is refused by \<open>send\<close> and never noticed by \<open>receive\<close>: each turn asks
  for fewer than no bytes, gets none, and has as many still to come as before.
\<close>

lemma receive_pdu_hangs:
  assumes "frag_size < 0" and "0 < pdu_length"
  shows "tcp_receive_pdu ops frag_size pdu_length s = None"
proof -
  have "tcp_receive_pdu_loop ops frag_size acc pdu_length s = Some r \<Longrightarrow>
      frag_size < 0 \<longrightarrow> 0 < pdu_length \<longrightarrow> False" for ops :: "'a sock_ops" and acc s r and frag_size pdu_length :: int
    by (induction rule: tcp_receive_pdu_loop.raw_induct [rotated, consumes 1]) (auto simp: Let_def split: if_splits)
  with assms show ?thesis
    by (cases "tcp_receive_pdu_loop ops frag_size [] pdu_length s") (auto simp: tcp_receive_pdu_def)
qed

text \<open>So a header that announces a PDU is the last thing such a stream receives.\<close>

lemma receive_hangs:
  assumes "frame_source ops inbox" and "ts_frag_size st < 0"
    and "7 \<le> length (inbox (ts_sock st))" and "1 < announced (inbox (ts_sock st))"
  shows "tcp_receive ops st = None"
proof -
  define b where "b = inbox (ts_sock st)"
  have b: "7 \<le> length b" "take HEADER_SIZE b \<noteq> []" using assms(3) by (auto simp: b_def HEADER_SIZE_def)
  obtain s where "tcp_recv_exactly ops (ts_sock st) (int HEADER_SIZE) = Some (Inr (take HEADER_SIZE b), s)"
    using frame_source.recv_exactly_enough [OF assms(1), of HEADER_SIZE "ts_sock st"] b(1) by (auto simp: b_def HEADER_SIZE_def)
  then have hdr: "tcp_receive_header ops (ts_sock st) = Some (Inr (take HEADER_SIZE b), s)"
    using b by (simp add: tcp_receive_header_def HEADER_SIZE_def)
  have "tcp_pdu_length (take HEADER_SIZE b) = Inr (int (announced b) - 1)"
    using tcp_pdu_length_bytes [of "take 7 b"] b(1) assms(4) by (simp add: HEADER_SIZE_def b_def)
  moreover have "tcp_receive_pdu ops (ts_frag_size st) (int (announced b) - 1) s = None"
    using assms(4) by (intro receive_pdu_hangs [OF assms(2)]) (simp add: b_def)
  ultimately show ?thesis using hdr b(2) by (simp add: tcp_receive_def tcp_receive_body_def)
qed

section \<open>What receiving leaves alone\<close>

text \<open>What every read keeps, receiving keeps: it does nothing to the socket but read from it.\<close>

definition recv_keeps :: "'s sock_ops \<Rightarrow> ('s \<Rightarrow> bool) \<Rightarrow> bool" where
  "recv_keeps ops I \<longleftrightarrow> (\<forall>s n r s'. I s \<longrightarrow> sock_recv ops s n = Some (r, s') \<longrightarrow> I s')"

lemma recv_exactly_keeps:
  assumes "tcp_recv_exactly ops s n = Some (r, s')" and "recv_keeps ops I" and "I s"
  shows "I s'"
  using assms(1,3)
proof (induction "nat n" arbitrary: s n r rule: less_induct)
  case less
  have read: "I t" if "sock_recv ops s n = Some (q, t)" for q t
    using that assms(2) less.prems(2) unfolding recv_keeps_def by blast
  have IH: "I s'" if "0 < n" "c \<noteq> []" "tcp_recv_exactly ops t (n - int (length c)) = Some (q, s')" "I t" for c :: bytes and q t
    using that by (intro less.hyps [of "n - int (length c)" t q]) (cases c; simp)+
  show ?case
    using less.prems read IH
    by (auto simp: tcp_recv_exactly.simps [of ops s n] split: if_splits option.splits sum.splits)
qed

lemma receive_pdu_loop_keeps:
  assumes "tcp_receive_pdu_loop ops frag_size acc n s = Some r" and "recv_keeps ops I" and "I s"
  shows "I (snd r)"
proof -
  have "tcp_receive_pdu_loop ops frag_size acc n s = Some r \<Longrightarrow> recv_keeps ops I \<longrightarrow> I s \<longrightarrow> I (snd r)"
    for ops and frag_size acc n s r
    by (induction rule: tcp_receive_pdu_loop.raw_induct [rotated, consumes 1])
      (auto simp: Let_def split: if_splits option.splits prod.splits sum.splits dest: recv_exactly_keeps)
  then show ?thesis using assms by blast
qed

lemma tcp_receive_keeps:
  assumes "tcp_receive ops st = Some (r, st')" and "recv_keeps ops I" and "I (ts_sock st)"
  shows "I (ts_sock st')"
proof -
  obtain q s where hdr: "tcp_receive_header ops (ts_sock st) = Some (q, s)"
    using assms(1) by (auto simp: tcp_receive_def tcp_receive_body_def split: option.splits)
  then have "I s"
    using recv_exactly_keeps [OF _ assms(2,3)]
    by (auto simp: tcp_receive_header_def split: option.splits sum.splits if_splits)
  then have "I (snd x)" if "tcp_receive_pdu ops (ts_frag_size st) n s = Some x" for n x
    using receive_pdu_loop_keeps [OF _ assms(2)] that by (auto simp: tcp_receive_pdu_def)
  with \<open>I s\<close> show ?thesis
    using assms(1) hdr
    by (auto simp: tcp_receive_def tcp_receive_body_def split: option.splits prod.splits sum.splits if_splits)
qed

section \<open>What send puts on the wire\<close>

text \<open>A socket that takes every byte it is given, which is what \<open>send\<close> counts on.\<close>

locale greedy_socket =
  fixes ops :: "'s sock_ops" and outbox :: "'s \<Rightarrow> bytes"
  assumes send_all: "\<exists>s'. sock_send ops s m = (Inr (int (length m)), s') \<and> outbox s' = outbox s @ m"
    and nodelay_ok: "\<exists>s'. sock_nodelay ops s = (Inr (), s') \<and> outbox s' = outbox s"
begin

lemma send_fragments_all:
  "0 \<le> delay \<Longrightarrow> \<exists>s'. send_fragments ops delay fs s = (Inr (), s') \<and> outbox s' = outbox s @ concat fs"
proof (induction fs arbitrary: s)
  case (Cons f fs)
  obtain t where t: "sock_send ops s f = (Inr (int (length f)), t)" and out: "outbox t = outbox s @ f"
    using send_all by blast
  obtain u where "send_fragments ops delay fs t = (Inr (), u)" and "outbox u = outbox t @ concat fs"
    using Cons by blast
  with t out Cons.prems show ?case by (intro exI [of _ u]) (simp add: sleep_def)
qed simp

lemma tcp_send_all:
  assumes "0 \<le> ts_frag_delay st" and "fragment (ts_fragmenter st) m (ts_frag_size st) = Inr fs" and "concat fs = m"
  shows "\<exists>s'. tcp_send ops st m = (Inr (), st\<lparr>ts_sock := s'\<rparr>) \<and> outbox s' = outbox (ts_sock st) @ m"
proof -
  obtain s where s: "(if ts_burst st then sock_nodelay ops (ts_sock st) else (Inr (), ts_sock st)) = (Inr (), s)"
    and out: "outbox s = outbox (ts_sock st)"
    using nodelay_ok [of "ts_sock st"] by (cases "ts_burst st") auto
  obtain t where "send_fragments ops (ts_frag_delay st) fs s = (Inr (), t)" and "outbox t = outbox s @ concat fs"
    using send_fragments_all [OF assms(1)] by blast
  then show ?thesis
    using assms out by (intro exI [of _ t]) (simp add: tcp_send_def tcp_send_body_def s)
qed

end

text \<open>And what every write keeps, sending keeps.\<close>

definition send_keeps :: "'s sock_ops \<Rightarrow> ('s \<Rightarrow> bool) \<Rightarrow> bool" where
  "send_keeps ops I \<longleftrightarrow> (\<forall>s. I s \<longrightarrow> I (snd (sock_nodelay ops s)) \<and> (\<forall>m. I (snd (sock_send ops s m))))"

lemma send_fragments_keeps: "send_keeps ops I \<Longrightarrow> I s \<Longrightarrow> I (snd (send_fragments ops delay fs s))"
proof (induction fs arbitrary: s)
  case (Cons f fs)
  have "I (snd (sock_send ops s f))" using Cons.prems by (simp add: send_keeps_def)
  with Cons show ?case by (auto split: prod.splits sum.splits)
qed simp

lemma tcp_send_keeps:
  assumes "send_keeps ops I" and "I (ts_sock st)"
  shows "I (ts_sock (snd (tcp_send ops st m)))"
proof -
  have "I (snd (sock_nodelay ops (ts_sock st)))" using assms by (simp add: send_keeps_def)
  then show ?thesis
    using assms send_fragments_keeps [OF assms(1)]
    by (auto simp: tcp_send_def tcp_send_body_def split: prod.splits sum.splits) (metis snd_conv)+
qed

section \<open>A scripted connection\<close>

text \<open>
  One end of a connection: the chunks the peer's bytes arrive in before it closes, what was
  written, and the most bytes one \<open>send\<close> takes (the room in the kernel's buffer).
\<close>

record conn =
  cn_in :: "bytes list"
  cn_out :: bytes
  cn_room :: nat

fun conn_recv :: "conn \<Rightarrow> int \<Rightarrow> bytes pyres \<times> conn" where
  "conn_recv s n = (case dropWhile (\<lambda>c. c = []) (cn_in s) of
     [] \<Rightarrow> (Inr [], s\<lparr>cn_in := []\<rparr>)
   | c # cs \<Rightarrow> (Inr (take (nat n) c), s\<lparr>cn_in := drop (nat n) c # cs\<rparr>))"

definition conn_ops :: "conn sock_ops" where
  "conn_ops = \<lparr>sock_recv = (\<lambda>s n. Some (conn_recv s n)),
     sock_send = (\<lambda>s m. (Inr (int (length m)), s\<lparr>cn_out := cn_out s @ m\<rparr>)),
     sock_nodelay = (\<lambda>s. (Inr (), s))\<rparr>"

text \<open>The same connection where one \<open>send\<close> takes what there is room for, as \<open>socket.send\<close> documents.\<close>

definition partial_ops :: "conn sock_ops" where
  "partial_ops = conn_ops\<lparr>sock_send := (\<lambda>s m.
     (Inr (int (min (cn_room s) (length m))), s\<lparr>cn_out := cn_out s @ take (cn_room s) m\<rparr>))\<rparr>"

definition conn_inbox :: "conn \<Rightarrow> bytes" where
  "conn_inbox s = concat (cn_in s)"

lemma concat_dropWhile_Nil: "concat (dropWhile (\<lambda>c. c = []) cs) = concat cs"
  by (induction cs) simp_all

lemma conn_ops_simps [simp]:
  "sock_recv conn_ops s n = Some (conn_recv s n)" "socket_read conn_ops = conn_recv"
  "sock_send conn_ops s m = (Inr (int (length m)), s\<lparr>cn_out := cn_out s @ m\<rparr>)"
  "sock_nodelay conn_ops s = (Inr (), s)"
  by (simp_all add: conn_ops_def socket_read_def fun_eq_iff del: conn_recv.simps)

lemma conn_recv_some:
  assumes "0 < n" and "conn_inbox s \<noteq> []"
  shows "\<exists>chunk s'. conn_recv s n = (Inr chunk, s') \<and> chunk \<noteq> [] \<and> int (length chunk) \<le> n \<and>
    conn_inbox s = chunk @ conn_inbox s'"
proof (cases "dropWhile (\<lambda>c. c = []) (cn_in s)")
  case Nil
  then have "conn_inbox s = []"
    using concat_dropWhile_Nil [of "cn_in s"] by (simp add: conn_inbox_def)
  with assms(2) show ?thesis by simp
next
  case (Cons c cs)
  then have "c \<noteq> []" using hd_dropWhile [of "\<lambda>c. c = []" "cn_in s"] by auto
  moreover have "conn_inbox s = c @ concat cs"
    using concat_dropWhile_Nil [of "cn_in s"] Cons by (simp add: conn_inbox_def)
  then have "conn_inbox s = take (nat n) c @ conn_inbox (s\<lparr>cn_in := drop (nat n) c # cs\<rparr>)"
    by (simp add: conn_inbox_def flip: append_assoc)
  ultimately show ?thesis
    using Cons assms(1) by (intro exI [of _ "take (nat n) c"] exI [of _ "s\<lparr>cn_in := drop (nat n) c # cs\<rparr>"]) simp
qed

lemma conn_recv_end:
  assumes "conn_inbox s = []"
  shows "conn_recv s n = (Inr [], s\<lparr>cn_in := []\<rparr>)"
proof -
  have "dropWhile (\<lambda>c. c = []) (cn_in s) = []" using assms by (auto simp: conn_inbox_def)
  then show ?thesis by (simp only: conn_recv.simps list.case)
qed

interpretation conn: byte_socket conn_ops conn_inbox
proof unfold_locales
  show "\<exists>s'. socket_read conn_ops s n = (Inr [], s') \<and> conn_inbox s' = []" if "conn_inbox s = []" for s n
    using conn_recv_end [OF that] by (simp only: conn_ops_simps) (simp add: conn_inbox_def)
qed (simp_all only: conn_ops_simps, rule conn_recv_some)

interpretation conn_out: greedy_socket conn_ops cn_out
  by unfold_locales simp_all

section \<open>A connection whose peer may stay\<close>

text \<open>The same connection behind a peer that does not hang up, for as long as \<open>oc_open\<close> holds.\<close>

record open_conn =
  oc_conn :: conn
  oc_open :: bool

definition oc_inbox :: "open_conn \<Rightarrow> bytes" where
  "oc_inbox s = conn_inbox (oc_conn s)"

definition oc_outbox :: "open_conn \<Rightarrow> bytes" where
  "oc_outbox s = cn_out (oc_conn s)"

definition oc_hung_up :: "open_conn \<Rightarrow> bool" where
  "oc_hung_up s = (\<not> oc_open s)"

definition oc_ops :: "open_conn sock_ops" where
  "oc_ops = \<lparr>sock_recv = (\<lambda>s n. if oc_open s \<and> oc_inbox s = [] then None
       else case conn_recv (oc_conn s) n of (r, c) \<Rightarrow> Some (r, s\<lparr>oc_conn := c\<rparr>)),
     sock_send = (\<lambda>s m. (Inr (int (length m)), s\<lparr>oc_conn := (oc_conn s)\<lparr>cn_out := oc_outbox s @ m\<rparr>\<rparr>)),
     sock_nodelay = (\<lambda>s. (Inr (), s))\<rparr>"

lemma oc_ops_simps [simp]:
  "sock_recv oc_ops s n = (if oc_open s \<and> oc_inbox s = [] then None
     else case conn_recv (oc_conn s) n of (r, c) \<Rightarrow> Some (r, s\<lparr>oc_conn := c\<rparr>))"
  "sock_send oc_ops s m = (Inr (int (length m)), s\<lparr>oc_conn := (oc_conn s)\<lparr>cn_out := oc_outbox s @ m\<rparr>\<rparr>)"
  "sock_nodelay oc_ops s = (Inr (), s)"
  by (simp_all add: oc_ops_def)

interpretation oc: blocking_socket oc_ops oc_inbox oc_hung_up
proof unfold_locales
  show "\<exists>chunk s'. socket_read oc_ops s n = (Inr chunk, s') \<and> chunk \<noteq> [] \<and> int (length chunk) \<le> n \<and>
      oc_inbox s = chunk @ oc_inbox s'" if some: "0 < n" "oc_inbox s \<noteq> []" for s n
  proof -
    obtain chunk c where "conn_recv (oc_conn s) n = (Inr chunk, c)" "chunk \<noteq> []" "int (length chunk) \<le> n"
      "conn_inbox (oc_conn s) = chunk @ conn_inbox c"
      using conn_recv_some [OF some(1), of "oc_conn s"] some(2) unfolding oc_inbox_def by blast
    then show ?thesis
      using some(2) by (intro exI [of _ chunk] exI [of _ "s\<lparr>oc_conn := c\<rparr>"]) (simp add: oc_inbox_def del: conn_recv.simps)
  qed
  show "\<exists>s'. socket_read oc_ops s n = (Inr [], s') \<and> oc_inbox s' = []" if "oc_inbox s = []" "oc_hung_up s" for s n
    using conn_recv_end [of "oc_conn s" n] that
    by (simp add: oc_inbox_def oc_hung_up_def conn_inbox_def del: conn_recv.simps)
  show "oc_hung_up (snd (socket_read oc_ops s n)) = oc_hung_up s" for s n
    by (simp add: socket_read_def oc_hung_up_def del: conn_recv.simps split: prod.split)
qed (simp add: oc_hung_up_def)

interpretation oc_out: greedy_socket oc_ops oc_outbox
  by unfold_locales (simp_all add: oc_outbox_def)

end
