(* ===== verification/Server_Response.thy ===== *)
theory Server_Response imports Tcp_Stream begin

text \<open>
  The answering half of \<open>src/pyomb/simulators/server.py\<close>: the response factory, \<open>on_data\<close> and
  \<open>answer\<close>. A caller's data handler and the socket are arguments; the registry is the parser's
  state. A factory reads one or two fields of the request, so it takes those fields.
\<close>

section \<open>\<open>ResponseFactory\<close>\<close>

definition create_fc1_rsp :: "int \<Rightarrow> int \<Rightarrow> bits_pdu" where
  "create_fc1_rsp quantity coil_value =
     (let byte_count = (quantity + 7) div 8; values = replicate (nat byte_count) coil_value
      in ModbusResponseFC1 byte_count values)"

definition create_fc2_rsp :: "int \<Rightarrow> int \<Rightarrow> bits_pdu" where
  "create_fc2_rsp quantity input_value =
     (let byte_count = (quantity + 7) div 8; values = replicate (nat byte_count) input_value
      in ModbusResponseFC2 byte_count values)"

definition create_fc3_rsp :: "int \<Rightarrow> int \<Rightarrow> registers_pdu" where
  "create_fc3_rsp quantity register_value =
     (let byte_count = 2 * quantity; register_values = replicate (nat quantity) register_value
      in ModbusResponseFC3 byte_count register_values)"

definition create_fc4_rsp :: "int \<Rightarrow> int \<Rightarrow> registers_pdu" where
  "create_fc4_rsp quantity register_value =
     (let byte_count = 2 * quantity; register_values = replicate (nat quantity) register_value
      in ModbusResponseFC4 byte_count register_values)"

definition create_fc5_rsp :: "int \<Rightarrow> int \<Rightarrow> bits_pdu" where
  "create_fc5_rsp output_address output_value = ModbusResponseFC5 output_address output_value"

definition create_fc6_rsp :: "int \<Rightarrow> int \<Rightarrow> registers_pdu" where
  "create_fc6_rsp output_address output_value = ModbusResponseFC6 output_address output_value"

definition create_fc7_rsp :: "int \<Rightarrow> diagnostics_pdu" where
  "create_fc7_rsp status_code = ModbusResponseFC7 status_code"

definition create_fc15_rsp :: "int \<Rightarrow> int \<Rightarrow> bits_pdu" where
  "create_fc15_rsp start_addr quantity = ModbusResponseFC15 start_addr quantity"

definition create_fc16_rsp :: "int \<Rightarrow> int \<Rightarrow> registers_pdu" where
  "create_fc16_rsp start_addr quantity = ModbusResponseFC16 start_addr quantity"

definition create_fc22_rsp :: "int \<Rightarrow> int \<Rightarrow> int \<Rightarrow> registers_pdu" where
  "create_fc22_rsp ref_addr and_mask or_mask = ModbusResponseFC22 ref_addr and_mask or_mask"

definition create_fc23_rsp :: "int \<Rightarrow> int \<Rightarrow> registers_pdu" where
  "create_fc23_rsp read_quantity v =
     (let byte_count = 2 * read_quantity; data = replicate (nat read_quantity) v
      in ModbusResponseFC23 byte_count data)"

definition create_fc43_rsp :: "int \<Rightarrow> int list \<Rightarrow> encapsulated_pdu" where
  "create_fc43_rsp mei_type mei_data = ModbusResponseFC43 mei_type mei_data"

definition create_err_rsp :: "int \<Rightarrow> common_pdu" where
  "create_err_rsp request_fc = ModbusError request_fc OMB_EXCEPTION_SLAVE_DEVICE_FAILURE"

section \<open>Answering a request\<close>

definition pdu_fc :: "pdu \<Rightarrow> int" where
  "pdu_fc p = self_fc (dyn_self p)"

text \<open>The branches of \<open>on_data\<close>, with each factory's default argument.\<close>

fun response_pdu :: "pdu \<Rightarrow> pdu" where
  "response_pdu (BitsPdu (ModbusRequestFC1 start_addr quantity)) = BitsPdu (create_fc1_rsp quantity 0xFF)"
| "response_pdu (BitsPdu (ModbusRequestFC2 start_addr quantity)) = BitsPdu (create_fc2_rsp quantity 0xFF)"
| "response_pdu (RegistersPdu (ModbusRequestFC3 start_addr quantity)) = RegistersPdu (create_fc3_rsp quantity 0xFFFF)"
| "response_pdu (RegistersPdu (ModbusRequestFC4 start_addr quantity)) = RegistersPdu (create_fc4_rsp quantity 0xFFFF)"
| "response_pdu (BitsPdu (ModbusRequestFC5 output_address output_value)) =
     BitsPdu (create_fc5_rsp output_address output_value)"
| "response_pdu (RegistersPdu (ModbusRequestFC6 output_address output_value)) =
     RegistersPdu (create_fc6_rsp output_address output_value)"
| "response_pdu (DiagnosticsPdu ModbusRequestFC7) = DiagnosticsPdu (create_fc7_rsp 0)"
| "response_pdu (BitsPdu (ModbusRequestFC15 start_addr quantity byte_count values)) =
     BitsPdu (create_fc15_rsp start_addr quantity)"
| "response_pdu (RegistersPdu (ModbusRequestFC16 start_addr quantity byte_count values)) =
     RegistersPdu (create_fc16_rsp start_addr quantity)"
| "response_pdu (RegistersPdu (ModbusRequestFC22 ref_addr and_mask or_mask)) =
     RegistersPdu (create_fc22_rsp ref_addr and_mask or_mask)"
| "response_pdu (RegistersPdu (ModbusRequestFC23 ra read_quantity wa wq wc wv)) =
     RegistersPdu (create_fc23_rsp read_quantity 0xFFFF)"
| "response_pdu (EncapsulatedPdu (ModbusRequestFC43 mei_type mei_data)) =
     EncapsulatedPdu (create_fc43_rsp mei_type mei_data)"
| "response_pdu p = CommonPdu (create_err_rsp (pdu_fc p))"

definition answer :: "'s sock_ops \<Rightarrow> ModbusHeader \<Rightarrow> pdu \<Rightarrow> 's \<Rightarrow> unit pyres \<times> 's" where
  "answer ops request_header rsp conn =
     (case dyn_len rsp of
        Inl e \<Rightarrow> (Inl e, conn)
      | Inr n \<Rightarrow>
          (let response_header = \<lparr>trans_id = trans_id request_header, prot_id = prot_id request_header,
                 hdr_length = n + 1, unit_id = unit_id request_header\<rparr>;
               response = \<lparr>tcp_header = response_header, tcp_pdu = rsp\<rparr>;
               sender = \<lparr>ts_sock = conn, ts_fragmenter = ModbusFragmenter, ts_frag_delay = 0,
                         ts_frag_size = 0, ts_burst = False\<rparr>
           in case ModbusTcpResponse_serialize response of
                Inl e \<Rightarrow> (Inl e, conn)
              | Inr message \<Rightarrow>
                  (case tcp_send ops sender message of (r, sender') \<Rightarrow> (r, ts_sock sender'))))"

type_synonym 's data_handler = "ModbusHeader \<Rightarrow> tcp_adu \<Rightarrow> 's \<Rightarrow> bool pyres \<times> 's"

record 's on_data_config =
  cfg_handler :: "'s data_handler option"
  cfg_delay :: int
  cfg_fail :: bool

definition on_data ::
  "registry \<Rightarrow> 's sock_ops \<Rightarrow> 's on_data_config \<Rightarrow> bytes \<Rightarrow> 's \<Rightarrow> unit pyres \<times> 's" where
  "on_data reg ops cfg data conn =
     (case ModbusTcpRequest_deserialize (parse_request reg) data of
        Inl (ModbusPduParseError header fc) \<Rightarrow>
          answer ops header (CommonPdu (ModbusError fc OMB_EXCEPTION_ILLEGAL_DATA_VALUE)) conn
      | Inl e \<Rightarrow> (Inl e, conn)
      | Inr request \<Rightarrow>
          (case (case cfg_handler cfg of
                   None \<Rightarrow> (Inr True, conn)
                 | Some handler \<Rightarrow> handler (tcp_header request) request conn) of
             (Inl e, conn1) \<Rightarrow> (Inl e, conn1)
           | (Inr rslt_ok, conn1) \<Rightarrow>
               (case sleep (cfg_delay cfg) of
                  Inl e \<Rightarrow> (Inl e, conn1)
                | Inr _ \<Rightarrow>
                    (let rsp = (if cfg_fail cfg \<or> \<not> rslt_ok
                                then CommonPdu (create_err_rsp (pdu_fc (tcp_pdu request)))
                                else response_pdu (tcp_pdu request))
                     in case answer ops (tcp_header request) rsp conn1 of (r, conn2) \<Rightarrow>
                          (except_raise is_ModbusBaseError ModbusSlaveDeviceFailureError r, conn2)))))"

section \<open>Every conforming request can be answered\<close>

lemma pdu_violations_none:
  "pdu_violations self = Inr [] \<longleftrightarrow>
     (\<forall>(field, low, high)\<in>set (LIMITS (self_class self)). \<exists>v. int_attr self field = Inr v \<and> low \<le> v \<and> v \<le> high)"
  by (simp add: pdu_violations_def packet_violations_none)

lemma error_serializes:
  "0 \<le> fc \<Longrightarrow> fc < 0x80 \<Longrightarrow> \<exists>r. dyn_serialize (CommonPdu (create_err_rsp fc)) = Inr r"
  by (simp add: create_err_rsp_def ModbusError_serialize_iff fits_def code_max_def exception_codes)

lemma read_bits_serializes:
  assumes "1 \<le> quantity" and "quantity \<le> 0x07D0"
  shows "\<exists>r. dyn_serialize (BitsPdu (create_fc1_rsp quantity 0xFF)) = Inr r"
    and "\<exists>r. dyn_serialize (BitsPdu (create_fc2_rsp quantity 0xFF)) = Inr r"
proof -
  have "0 \<le> (quantity + 7) div 8" "(quantity + 7) div 8 \<le> 255" using assms by linarith+
  then show "\<exists>r. dyn_serialize (BitsPdu (create_fc1_rsp quantity 0xFF)) = Inr r"
    and "\<exists>r. dyn_serialize (BitsPdu (create_fc2_rsp quantity 0xFF)) = Inr r"
    by (simp_all add: create_fc1_rsp_def create_fc2_rsp_def Let_def bits_serialize_eqs serialize_reraise
        pack_format_Inr_iff list_all2_replicate fits_def code_max_def PY_SSIZE_T_MAX_def)
qed

lemma read_registers_serializes:
  assumes "1 \<le> quantity" and "quantity \<le> 0x7D"
  shows "\<exists>r. dyn_serialize (RegistersPdu (create_fc3_rsp quantity 0xFFFF)) = Inr r"
    and "\<exists>r. dyn_serialize (RegistersPdu (create_fc4_rsp quantity 0xFFFF)) = Inr r"
    and "\<exists>r. dyn_serialize (RegistersPdu (create_fc23_rsp quantity 0xFFFF)) = Inr r"
  using assms
  by (simp_all add: create_fc3_rsp_def create_fc4_rsp_def create_fc23_rsp_def Let_def registers_serialize_eqs
      serialize_reraise pack_format_Inr_iff list_all2_replicate fits_def code_max_def PY_SSIZE_T_MAX_def)

lemma bits_response_serializes:
  assumes "bits_serialize p = Inr b" and "bits_violations p = Inr []"
    and "pdu_is_request (bits_decl (bits_class_of p))"
  shows "\<exists>r. dyn_serialize (response_pdu (BitsPdu p)) = Inr r"
proof (cases p)
  case (ModbusRequestFC1 a q)
  then have "1 \<le> q" "q \<le> 0x07D0"
    using assms(2) by (simp_all add: pdu_violations_none pdu_defs int_attr_def)
  then show ?thesis using read_bits_serializes(1) by (simp add: ModbusRequestFC1)
next
  case (ModbusRequestFC2 a q)
  then have "1 \<le> q" "q \<le> 0x07D0"
    using assms(2) by (simp_all add: pdu_violations_none pdu_defs int_attr_def)
  then show ?thesis using read_bits_serializes(2) by (simp add: ModbusRequestFC2)
next
  case (ModbusRequestFC5 a v)
  then show ?thesis
    using assms(1) by (auto simp: create_fc5_rsp_def bits_serialize_eqs)
next
  case (ModbusRequestFC15 a q c vs)
  then have "fits UShort a" "fits UShort q"
    using assms(1) pack_format_Inr_iff [of Big "[UByte, UShort, UShort, UByte]" UByte "int (length vs)" "0x0F # a # q # c # vs"]
    by (auto simp: bits_serialize_eqs res_simps)
  then show ?thesis
    by (simp add: ModbusRequestFC15 create_fc15_rsp_def bits_serialize_eqs serialize_reraise pack_raw_Inr_iff
        PY_SSIZE_T_MAX_def fits_def code_max_def)
qed (use assms(3) in \<open>simp_all add: bits_cls_defs pdu_is_request_def\<close>)

lemma registers_response_serializes:
  assumes "registers_serialize p = Inr b" and "registers_violations p = Inr []"
    and "pdu_is_request (registers_decl (registers_class_of p))"
  shows "\<exists>r. dyn_serialize (response_pdu (RegistersPdu p)) = Inr r"
proof (cases p)
  case (ModbusRequestFC3 a q)
  then have "1 \<le> q" "q \<le> 0x7D"
    using assms(2) by (simp_all add: pdu_violations_none pdu_defs int_attr_def)
  then show ?thesis using read_registers_serializes(1) by (simp add: ModbusRequestFC3)
next
  case (ModbusRequestFC4 a q)
  then have "1 \<le> q" "q \<le> 0x7D"
    using assms(2) by (simp_all add: pdu_violations_none pdu_defs int_attr_def)
  then show ?thesis using read_registers_serializes(2) by (simp add: ModbusRequestFC4)
next
  case (ModbusRequestFC6 a v)
  then show ?thesis using assms(1) by (auto simp: create_fc6_rsp_def registers_serialize_eqs)
next
  case (ModbusRequestFC16 a q c vs)
  then have "fits UShort a" "fits UShort q"
    using assms(1) pack_format_Inr_iff [of Big "[UByte, UShort, UShort, UByte]" UShort "int (length vs)" "0x10 # a # q # c # vs"]
    by (auto simp: registers_serialize_eqs res_simps)
  then show ?thesis
    by (simp add: ModbusRequestFC16 create_fc16_rsp_def registers_serialize_eqs serialize_reraise pack_raw_Inr_iff
        PY_SSIZE_T_MAX_def fits_def code_max_def)
next
  case (ModbusRequestFC22 a m1 m2)
  then show ?thesis using assms(1) by (auto simp: create_fc22_rsp_def registers_serialize_eqs)
next
  case (ModbusRequestFC23 ra q wa wq wc wv)
  then have "pdu_violations (ModbusRequestFC23_self ra q wa wq wc wv) = Inr []"
    using assms(2) by (auto simp: ModbusRequestFC23_violations_def Let_def res_simps)
  then have "1 \<le> q" "q \<le> 0x7D"
    by (simp_all add: pdu_violations_none pdu_defs int_attr_def)
  then show ?thesis using read_registers_serializes(3) by (simp add: ModbusRequestFC23)
qed (use assms(3) in \<open>simp_all add: registers_cls_defs pdu_is_request_def\<close>)

text \<open>
  The requests a server can answer: an in-specification request class, or anything it reads
  generically, and a function code that leaves room for the error mask.
\<close>

definition answerable :: "pdu \<Rightarrow> bool" where
  "answerable q = (dyn_violations q = Inr [] \<and> 0 \<le> pdu_fc q \<and> pdu_fc q < 0x80 \<and>
     (dyn_type q = ModbusPdu_type \<or> pdu_is_request (dyn_decl (dyn_type q))))"

lemma response_serializes:
  assumes "dyn_serialize q = Inr b" and "answerable q"
  shows "\<exists>r. dyn_serialize (response_pdu q) = Inr r"
proof (cases q)
  case (CommonPdu p)
  then show ?thesis using assms error_serializes by (cases p) (simp_all add: answerable_def del: dyn_serialize.simps)
next
  case (BitsPdu p)
  then show ?thesis using assms bits_response_serializes by (auto simp: answerable_def)
next
  case (RegistersPdu p)
  then show ?thesis using assms registers_response_serializes by (auto simp: answerable_def)
next
  case (DiagnosticsPdu p)
  have "\<exists>r. dyn_serialize (DiagnosticsPdu (create_fc7_rsp 0)) = Inr r"
    by (simp add: create_fc7_rsp_def diagnostics_serialize_eqs serialize_reraise pack_raw_Inr_iff
        PY_SSIZE_T_MAX_def fits_def code_max_def)
  then show ?thesis
    using assms DiagnosticsPdu error_serializes [of "pdu_fc q"]
    by (cases p) (auto simp: answerable_def simp del: dyn_serialize.simps)
next
  case (EncapsulatedPdu p)
  then show ?thesis
    using assms error_serializes [of "pdu_fc q"]
    by (cases p) (auto simp: answerable_def create_fc43_rsp_def encapsulated_serialize_eqs)
qed

text \<open>A response is no longer than the request it echoes, or than the largest read there is.\<close>

lemma fixed_length: "struct_pack (fmt_raw (PduFormat e cs None)) vs = Inr s \<Longrightarrow> length s = codes_size cs"
  by (auto simp: fmt_raw.simps dest!: struct_pack_length split: if_splits)

lemma error_length: "dyn_serialize (CommonPdu (create_err_rsp fc)) = Inr r \<Longrightarrow> length r = 2"
  by (auto simp: create_err_rsp_def ModbusError_serialize_iff)

lemma bits_response_length:
  assumes "bits_serialize p = Inr b" and "bits_violations p = Inr []"
    and "pdu_is_request (bits_decl (bits_class_of p))"
    and "dyn_serialize (response_pdu (BitsPdu p)) = Inr r"
  shows "length r \<le> 252"
proof (cases p)
  case (ModbusRequestFC1 a q)
  then have "1 \<le> q" "q \<le> 0x07D0"
    using assms(2) by (simp_all add: pdu_violations_none pdu_defs int_attr_def)
  then show ?thesis
    using assms(4) by (auto simp: ModbusRequestFC1 create_fc1_rsp_def Let_def bits_serialize_eqs res_simps
        dest!: struct_pack_repeat(3))
next
  case (ModbusRequestFC2 a q)
  then have "1 \<le> q" "q \<le> 0x07D0"
    using assms(2) by (simp_all add: pdu_violations_none pdu_defs int_attr_def)
  then show ?thesis
    using assms(4) by (auto simp: ModbusRequestFC2 create_fc2_rsp_def Let_def bits_serialize_eqs res_simps
        dest!: struct_pack_repeat(3))
qed (use assms(3,4) in \<open>auto simp: bits_cls_defs pdu_is_request_def create_fc5_rsp_def create_fc15_rsp_def
    bits_serialize_eqs res_simps dest!: fixed_length\<close>)

lemma registers_response_length:
  assumes "registers_serialize p = Inr b" and "registers_violations p = Inr []"
    and "pdu_is_request (registers_decl (registers_class_of p))"
    and "dyn_serialize (response_pdu (RegistersPdu p)) = Inr r"
  shows "length r \<le> 252"
proof (cases p)
  case (ModbusRequestFC3 a q)
  then have "1 \<le> q" "q \<le> 0x7D"
    using assms(2) by (simp_all add: pdu_violations_none pdu_defs int_attr_def)
  then show ?thesis
    using assms(4) by (auto simp: ModbusRequestFC3 create_fc3_rsp_def Let_def registers_serialize_eqs res_simps
        dest!: struct_pack_repeat(3))
next
  case (ModbusRequestFC4 a q)
  then have "1 \<le> q" "q \<le> 0x7D"
    using assms(2) by (simp_all add: pdu_violations_none pdu_defs int_attr_def)
  then show ?thesis
    using assms(4) by (auto simp: ModbusRequestFC4 create_fc4_rsp_def Let_def registers_serialize_eqs res_simps
        dest!: struct_pack_repeat(3))
next
  case (ModbusRequestFC23 ra q wa wq wc wv)
  then have "pdu_violations (ModbusRequestFC23_self ra q wa wq wc wv) = Inr []"
    using assms(2) by (auto simp: ModbusRequestFC23_violations_def Let_def res_simps)
  then have "1 \<le> q" "q \<le> 0x7D"
    by (simp_all add: pdu_violations_none pdu_defs int_attr_def)
  then show ?thesis
    using assms(4) by (auto simp: ModbusRequestFC23 create_fc23_rsp_def Let_def registers_serialize_eqs res_simps
        dest!: struct_pack_repeat(3))
qed (use assms(3,4) in \<open>auto simp: registers_cls_defs pdu_is_request_def create_fc6_rsp_def create_fc16_rsp_def
    create_fc22_rsp_def registers_serialize_eqs res_simps dest!: fixed_length\<close>)

lemma response_length:
  assumes "dyn_serialize q = Inr b" and "answerable q" and "dyn_serialize (response_pdu q) = Inr r"
  shows "length r \<le> max 252 (length b)"
proof (cases q)
  case (CommonPdu p)
  then show ?thesis using assms(3) error_length [of "pdu_fc q" r] by (cases p) (simp_all del: dyn_serialize.simps)
next
  case (BitsPdu p)
  then show ?thesis using assms bits_response_length [of p b r] by (simp add: answerable_def)
next
  case (RegistersPdu p)
  then show ?thesis using assms registers_response_length [of p b r] by (simp add: answerable_def)
next
  case (DiagnosticsPdu p)
  have "length r = 2" if "dyn_serialize (DiagnosticsPdu (create_fc7_rsp 0)) = Inr r"
    using that by (auto simp: create_fc7_rsp_def diagnostics_serialize_eqs res_simps dest!: fixed_length)
  then show ?thesis
    using assms(3) DiagnosticsPdu error_length [of "pdu_fc q" r]
    by (cases p) (simp_all del: dyn_serialize.simps)
next
  case (EncapsulatedPdu p)
  show ?thesis
  proof (cases p)
    case (ModbusRequestFC43 t d)
    then show ?thesis
      using assms(1,3) by (simp add: EncapsulatedPdu create_fc43_rsp_def encapsulated_serialize_eqs)
  next
    case (ModbusResponseFC43 t d)
    then show ?thesis
      using assms(3) EncapsulatedPdu error_length [of "pdu_fc q" r] by (simp del: dyn_serialize.simps)
  qed
qed

text \<open>The client's parser knows every response this server makes.\<close>

lemma response_known:
  assumes "answerable q"
  shows "known_response default_registry (response_pdu q)"
proof -
  have err: "known_response default_registry (CommonPdu (create_err_rsp (pdu_fc q)))"
    using assms by (simp add: answerable_def known_response_def create_err_rsp_def ERROR_MASK_def)
  have reg: "known_response default_registry p" if "\<forall>c. dyn_type p \<noteq> CommonT c"
    and "\<not> pdu_is_request (dyn_decl (dyn_type p))" for p
    using that by (intro registered_known_response) (simp_all add: registrations_all)
  show ?thesis
    by (cases q rule: response_pdu.cases)
      (use err in \<open>auto intro!: reg simp: pdu_is_request_def create_fc1_rsp_def create_fc2_rsp_def create_fc3_rsp_def
        create_fc4_rsp_def create_fc5_rsp_def create_fc6_rsp_def create_fc7_rsp_def create_fc15_rsp_def
        create_fc16_rsp_def create_fc22_rsp_def create_fc23_rsp_def create_fc43_rsp_def Let_def
        bits_cls_defs registers_cls_defs diagnostics_cls_defs encapsulated_cls_defs\<close>)
qed

section \<open>What goes back on the wire\<close>

definition response_header :: "ModbusHeader \<Rightarrow> int \<Rightarrow> ModbusHeader" where
  "response_header h n = \<lparr>trans_id = trans_id h, prot_id = prot_id h, hdr_length = n + 1, unit_id = unit_id h\<rparr>"

definition response_size :: "pdu \<Rightarrow> int" where
  "response_size q = (case dyn_serialize (response_pdu q) of Inl _ \<Rightarrow> 0 | Inr r \<Rightarrow> int (length r))"

lemma framed_header_facts:
  assumes "framed_header s = Some h"
  shows "ModbusHeader_serialize h = Inr (take HEADER_SIZE s)" and "int (length s) = int HEADER_SIZE + hdr_length h - 1"
    and "0 \<le> n \<Longrightarrow> n \<le> 65534 \<Longrightarrow> \<exists>hb. ModbusHeader_serialize (response_header h n) = Inr hb"
    and "hdr_length h \<le> 65535"
proof -
  have h: "ModbusHeader_deserialize (take HEADER_SIZE s) = Inr h" and v: "validate_mbap_length h s = Inr ()"
    using assms by (auto simp: framed_header_def split: sum.splits if_splits)
  show ser: "ModbusHeader_serialize h = Inr (take HEADER_SIZE s)" by (rule header_ser_des [OF h])
  show "int (length s) = int HEADER_SIZE + hdr_length h - 1"
    using v by (simp add: validate_mbap_length_def Let_def split: if_splits)
  have fits: "fits UShort (trans_id h)" "fits UShort (prot_id h)" "fits UShort (hdr_length h)" "fits UByte (unit_id h)"
    using ser header_serialize_Inr_iff [of h] by blast+
  then show "hdr_length h \<le> 65535" by (simp add: fits_def code_max_def)
  assume "0 \<le> n" "n \<le> 65534"
  with fits show "\<exists>hb. ModbusHeader_serialize (response_header h n) = Inr hb"
    by (simp add: header_serialize_Inr_iff response_header_def fits_def code_max_def)
qed

context greedy_socket begin

lemma answer_sends:
  assumes "dyn_serialize rsp = Inr r" and "ModbusHeader_serialize (response_header h (int (length r))) = Inr hb"
  shows "\<exists>s'. answer ops h rsp conn = (Inr (), s') \<and> outbox s' = outbox conn @ hb @ r"
proof -
  define st where "st = \<lparr>ts_sock = conn, ts_fragmenter = ModbusFragmenter, ts_frag_delay = 0,
    ts_frag_size = 0, ts_burst = False\<rparr>"
  have "fragment (ts_fragmenter st) (hb @ r) (ts_frag_size st) = Inr [hb @ r]"
    by (simp add: st_def ModbusFragmenter_def fragmenter_fragment_def)
  then obtain s' where "tcp_send ops st (hb @ r) = (Inr (), st\<lparr>ts_sock := s'\<rparr>)"
    and "outbox s' = outbox conn @ hb @ r"
    using tcp_send_all [of st "hb @ r" "[hb @ r]"] by (auto simp: st_def)
  moreover have "ModbusTcpResponse_serialize
      \<lparr>tcp_header = response_header h (int (length r)), tcp_pdu = rsp\<rparr> = Inr (hb @ r)"
    using assms by (simp add: ModbusTcpResponse_serialize_same ModbusTcpPacket_serialize_Inr)
  ultimately show ?thesis
    using dyn_ser_len [OF assms(1)]
    by (intro exI [of _ s']) (simp add: answer_def Let_def response_header_def st_def)
qed

text \<open>
  A conforming request is answered, once, with a response that decodes as the one made for it and declares
  its size.
\<close>

lemma on_data_answers_sized:
  assumes "framed_header data = Some h" and "parse_request default_registry (drop HEADER_SIZE data) = Inr q"
    and "answerable q" and "cfg_handler cfg = None" and "0 \<le> cfg_delay cfg" and "\<not> cfg_fail cfg"
  shows "\<exists>s' m. on_data default_registry ops cfg data conn = (Inr (), s') \<and> outbox s' = outbox conn @ m \<and>
    ModbusTcpResponse_deserialize (parse_response default_registry) m =
      Inr \<lparr>tcp_header = response_header h (response_size q), tcp_pdu = response_pdu q\<rparr>"
proof -
  have b: "dyn_serialize q = Inr (drop HEADER_SIZE data)"
    using parse_request_exact [OF registry_ok_default assms(2)] .
  obtain r where r: "dyn_serialize (response_pdu q) = Inr r"
    using response_serializes [OF b assms(3)] by blast
  note facts = framed_header_facts [OF assms(1)]
  have "length r \<le> max 252 (length data - HEADER_SIZE)"
    using response_length [OF b assms(3) r] by simp
  then have "int (length r) \<le> 65534" using facts(2,4) by (simp add: max_def split: if_splits)
  then obtain hb where hb: "ModbusHeader_serialize (response_header h (int (length r))) = Inr hb"
    using facts(3) [of "int (length r)"] by auto
  obtain s' where s': "answer ops h (response_pdu q) conn = (Inr (), s')" "outbox s' = outbox conn @ hb @ r"
    using answer_sends [OF r hb] by blast
  have "ModbusTcpRequest_deserialize (parse_request default_registry) data = Inr \<lparr>tcp_header = h, tcp_pdu = q\<rparr>"
    using assms(1,2) by (simp add: request_parser.tcp_request_deserialize_eq)
  then have "on_data default_registry ops cfg data conn = (Inr (), s')"
    using assms(4-6) s'(1) by (simp add: on_data_def sleep_def Let_def)
  moreover have "ModbusTcpResponse_deserialize (parse_response default_registry) (hb @ r) =
      Inr \<lparr>tcp_header = response_header h (int (length r)), tcp_pdu = response_pdu q\<rparr>"
  proof (rule response_parser.tcp_response_des_ser)
    show "ModbusTcpResponse_serialize \<lparr>tcp_header = response_header h (int (length r)), tcp_pdu = response_pdu q\<rparr> = Inr (hb @ r)"
      using hb r by (simp add: ModbusTcpResponse_serialize_same ModbusTcpPacket_serialize_Inr)
  qed (use response_known [OF assms(3)] dyn_ser_len [OF r] in \<open>simp_all add: length_agrees_def response_header_def\<close>)
  moreover have "response_size q = int (length r)" using r by (simp add: response_size_def)
  ultimately show ?thesis using s'(2) by auto
qed

lemma on_data_answers:
  assumes "framed_header data = Some h" and "parse_request default_registry (drop HEADER_SIZE data) = Inr q"
    and "answerable q" and "cfg_handler cfg = None" and "0 \<le> cfg_delay cfg" and "\<not> cfg_fail cfg"
  shows "\<exists>s' m n. on_data default_registry ops cfg data conn = (Inr (), s') \<and> outbox s' = outbox conn @ m \<and>
    ModbusTcpResponse_deserialize (parse_response default_registry) m =
      Inr \<lparr>tcp_header = response_header h n, tcp_pdu = response_pdu q\<rparr>"
  using on_data_answers_sized [OF assms] by blast

text \<open>A request whose PDU alone cannot be read is told so, with the function code it carried.\<close>

lemma on_data_unparsable:
  assumes "framed_header data = Some h" and "parse_request reg (drop HEADER_SIZE data) = Inl e"
    and "length data \<noteq> HEADER_SIZE" and "uint (data ! HEADER_SIZE) < 0x80"
  shows "\<exists>s' m. on_data reg ops cfg data conn = (Inr (), s') \<and> outbox s' = outbox conn @ m \<and>
    ModbusTcpResponse_deserialize (parse_response reg) m = Inr \<lparr>tcp_header = response_header h 2,
      tcp_pdu = CommonPdu (ModbusError (uint (data ! HEADER_SIZE)) OMB_EXCEPTION_ILLEGAL_DATA_VALUE)\<rparr>"
proof -
  define fc where "fc = uint (data ! HEADER_SIZE)"
  define rsp where "rsp = CommonPdu (ModbusError fc OMB_EXCEPTION_ILLEGAL_DATA_VALUE)"
  have fc: "0 \<le> fc" "fc < 0x80" using assms(4) by (simp_all add: fc_def)
  have r: "dyn_serialize rsp = Inr [word_of_int (fc + 128), 3]"
    using fc by (simp add: rsp_def ModbusError_serialize_iff fits_def code_max_def exception_codes)
  obtain hb where hb: "ModbusHeader_serialize (response_header h 2) = Inr hb"
    using framed_header_facts(3) [OF assms(1), of 2] by auto
  obtain s' where s': "answer ops h rsp conn = (Inr (), s')" "outbox s' = outbox conn @ hb @ [word_of_int (fc + 128), 3]"
    using answer_sends [OF r, of h hb conn] hb by auto
  have "ModbusTcpRequest_deserialize (parse_request reg) data = Inl (ModbusPduParseError h fc)"
    using assms(1-3) by (simp add: request_parser.tcp_request_deserialize_eq fc_def)
  then have "on_data reg ops cfg data conn = (Inr (), s')"
    using s'(1) by (simp add: on_data_def rsp_def)
  moreover have "ModbusTcpResponse_deserialize (parse_response reg) (hb @ [word_of_int (fc + 128), 3]) =
      Inr \<lparr>tcp_header = response_header h 2, tcp_pdu = rsp\<rparr>"
  proof (rule response_parser.tcp_response_des_ser)
    show "ModbusTcpResponse_serialize \<lparr>tcp_header = response_header h 2, tcp_pdu = rsp\<rparr> =
        Inr (hb @ [word_of_int (fc + 128), 3])"
      using hb r by (simp add: ModbusTcpResponse_serialize_same ModbusTcpPacket_serialize_Inr)
  qed (use fc dyn_ser_len [OF r] in \<open>simp_all add: length_agrees_def response_header_def rsp_def known_response_def ERROR_MASK_def\<close>)
  ultimately show ?thesis using s'(2) unfolding rsp_def fc_def by blast
qed

end

text \<open>Without a data handler nothing is done to a connection but write to it.\<close>

lemma answer_keeps: "send_keeps ops I \<Longrightarrow> I conn \<Longrightarrow> I (snd (answer ops h rsp conn))"
  using tcp_send_keeps [of ops I "\<lparr>ts_sock = conn, ts_fragmenter = ModbusFragmenter, ts_frag_delay = 0, ts_frag_size = 0, ts_burst = False\<rparr>"]
  by (auto simp: answer_def Let_def split: sum.split prod.split) (metis snd_conv)

lemma on_data_keeps:
  assumes "send_keeps ops I" and "I conn" and "cfg_handler cfg = None"
  shows "I (snd (on_data reg ops cfg data conn))"
proof -
  have "I (snd (answer ops h rsp conn))" for h rsp using assms(1,2) by (rule answer_keeps)
  then show ?thesis
    using assms(2,3) unfolding on_data_def
    by (auto simp: Let_def split: sum.split py_exc.split prod.split) (metis snd_conv)+
qed

text \<open>Nothing is written for a frame whose boundary is in doubt.\<close>

lemma on_data_doubtful:
  assumes "framed_header data = None"
  shows "on_data reg ops cfg data conn = (Inl ModbusPacketError, conn)"
  using assms by (simp add: on_data_def request_parser.tcp_request_deserialize_eq)

end
