(* ===== verification/Tls.thy ===== *)
theory Tls imports Errors begin

text \<open>
  \<open>src/pyomb/transport/tls.py\<close>: the settings a caller may weaken, the context they build and the
  report of what was weakened. An \<open>ssl.SSLContext\<close> is the record of the attributes the code sets,
  with the two rules of the \<open>ssl\<close> module that make the order of the assignments matter: no
  \<open>CERT_NONE\<close> while host names are checked, and checking host names turns \<open>CERT_NONE\<close> back into
  \<open>CERT_REQUIRED\<close>. Reading certificate files and cipher strings is OpenSSL's: \<open>ssl_io\<close>.
\<close>

unbundle bit_operations_syntax

section \<open>A caller's choice\<close>

datatype 'a choice = UNSET | Chosen 'a

fun resolved :: "'a choice \<Rightarrow> 'a \<Rightarrow> 'a" where
  "resolved UNSET fallback = fallback"
| "resolved (Chosen x) fallback = x"

datatype TlsRole = CLIENT | SERVER

datatype VerifyMode = CERT_NONE | CERT_OPTIONAL | CERT_REQUIRED

definition PROTOCOL_TLS :: int where
  "PROTOCOL_TLS = 2"
definition PROTOCOL_TLS_CLIENT :: int where
  "PROTOCOL_TLS_CLIENT = 16"
definition PROTOCOL_TLS_SERVER :: int where
  "PROTOCOL_TLS_SERVER = 17"

record RoleDefaults =
  rd_protocol :: int
  rd_verify_hostname :: bool

fun ROLE_DEFAULTS :: "TlsRole \<Rightarrow> RoleDefaults" where
  "ROLE_DEFAULTS CLIENT = \<lparr>rd_protocol = PROTOCOL_TLS_CLIENT, rd_verify_hostname = True\<rparr>"
| "ROLE_DEFAULTS SERVER = \<lparr>rd_protocol = PROTOCOL_TLS_SERVER, rd_verify_hostname = False\<rparr>"

record TlsSettings =
  tls_cert :: string
  tls_key :: string
  tls_ca_chain :: string
  tls_protocol :: "int choice"
  tls_ciphers :: "string option choice"
  tls_verify_mode :: "VerifyMode choice"
  tls_verify_hostname :: "bool choice"
  tls_options :: "int choice"

section \<open>The context\<close>

text \<open>\<open>ssl.TLSVersion\<close>, in order; \<open>MINIMUM_SUPPORTED\<close> is what a new context may come with.\<close>

datatype TLSVersion = MINIMUM_SUPPORTED | TLSv1 | TLSv1_1 | TLSv1_2 | TLSv1_3

fun version_rank :: "TLSVersion \<Rightarrow> nat" where
  "version_rank MINIMUM_SUPPORTED = 0"
| "version_rank TLSv1 = 1"
| "version_rank TLSv1_1 = 2"
| "version_rank TLSv1_2 = 3"
| "version_rank TLSv1_3 = 4"

lemma version_rank_inj: "version_rank v = version_rank w \<Longrightarrow> v = w"
  by (cases v; cases w) simp_all

instantiation TLSVersion :: linorder
begin

definition less_eq_TLSVersion :: "TLSVersion \<Rightarrow> TLSVersion \<Rightarrow> bool" where
  "v \<le> w \<longleftrightarrow> version_rank v \<le> version_rank w"

definition less_TLSVersion :: "TLSVersion \<Rightarrow> TLSVersion \<Rightarrow> bool" where
  "v < w \<longleftrightarrow> version_rank v < version_rank w"

instance
  by standard (auto simp: less_eq_TLSVersion_def less_TLSVersion_def version_rank_inj)

end

record SSLContext =
  ctx_protocol :: int
  ctx_ciphers :: "string option"               \<comment> \<open>\<open>None\<close>: the interpreter's suite\<close>
  ctx_check_hostname :: bool
  ctx_verify_mode :: VerifyMode
  ctx_options :: int
  ctx_minimum_version :: TLSVersion

record ssl_io =
  new_context :: "int \<Rightarrow> SSLContext pyres"
  load_cert_chain :: "string \<Rightarrow> string \<Rightarrow> unit pyres"
  load_verify_locations :: "string \<Rightarrow> unit pyres"
  check_ciphers :: "string \<Rightarrow> unit pyres"
  OP_ALL :: int

definition set_check_hostname :: "bool \<Rightarrow> SSLContext \<Rightarrow> SSLContext" where
  "set_check_hostname b c =
     c\<lparr>ctx_check_hostname := b,
       ctx_verify_mode := (if b \<and> ctx_verify_mode c = CERT_NONE then CERT_REQUIRED else ctx_verify_mode c)\<rparr>"

definition set_verify_mode :: "VerifyMode \<Rightarrow> SSLContext \<Rightarrow> SSLContext pyres" where
  "set_verify_mode mode c =
     (if mode = CERT_NONE \<and> ctx_check_hostname c then Inl ValueError else Inr (c\<lparr>ctx_verify_mode := mode\<rparr>))"

text \<open>A context of one fixed version refuses a range.\<close>

definition set_minimum_version :: "TLSVersion \<Rightarrow> SSLContext \<Rightarrow> SSLContext pyres" where
  "set_minimum_version v c =
     (if ctx_protocol c \<in> {PROTOCOL_TLS, PROTOCOL_TLS_CLIENT, PROTOCOL_TLS_SERVER}
      then Inr (c\<lparr>ctx_minimum_version := v\<rparr>) else Inl ValueError)"

definition MINIMUM_VERSION :: TLSVersion where
  "MINIMUM_VERSION = TLSv1_2"

definition tls_context :: "ssl_io \<Rightarrow> TlsSettings \<Rightarrow> TlsRole \<Rightarrow> SSLContext pyres" where
  "tls_context io self role =
     (let defaults = ROLE_DEFAULTS role;
          protocol = resolved (tls_protocol self) (rd_protocol defaults);
          ciphers = resolved (tls_ciphers self) None;
          verify_mode = resolved (tls_verify_mode self) CERT_REQUIRED;
          verify_hostname = resolved (tls_verify_hostname self) (rd_verify_hostname defaults);
          options = resolved (tls_options self) (OP_ALL io)
      in bindE (new_context io protocol) (\<lambda>ctx.
         bindE (load_cert_chain io (tls_cert self) (tls_key self)) (\<lambda>_.
         bindE (load_verify_locations io (tls_ca_chain self)) (\<lambda>_.
         bindE (case ciphers of
                  None \<Rightarrow> Inr ctx
                | Some suite \<Rightarrow> bindE (check_ciphers io suite) (\<lambda>_. Inr (ctx\<lparr>ctx_ciphers := Some suite\<rparr>))) (\<lambda>ctx.
         bindE (set_verify_mode verify_mode (set_check_hostname False ctx)) (\<lambda>ctx.
           let ctx = set_check_hostname verify_hostname ctx;
               ctx = ctx\<lparr>ctx_options := ctx_options ctx OR options\<rparr>
           in set_minimum_version MINIMUM_VERSION ctx))))))"

section \<open>The report\<close>

datatype relaxation = CustomCiphers string | PeerPolicy VerifyMode | HostnameCheckingOff

definition relaxations :: "TlsSettings \<Rightarrow> TlsRole \<Rightarrow> relaxation list" where
  "relaxations self role =
     (let defaults = ROLE_DEFAULTS role;
          ciphers = resolved (tls_ciphers self) None;
          weakened = (case ciphers of None \<Rightarrow> [] | Some suite \<Rightarrow> [CustomCiphers suite]);
          verify_mode = resolved (tls_verify_mode self) CERT_REQUIRED;
          weakened = (if verify_mode \<noteq> CERT_REQUIRED then weakened @ [PeerPolicy verify_mode] else weakened);
          verify_hostname = resolved (tls_verify_hostname self) (rd_verify_hostname defaults)
      in if rd_verify_hostname defaults \<and> \<not> verify_hostname then weakened @ [HostnameCheckingOff] else weakened)"

section \<open>The port\<close>

definition PLAINTEXT_PORT :: int where
  "PLAINTEXT_PORT = 502"

definition ENCRYPTED_PORT :: int where
  "ENCRYPTED_PORT = 802"

definition simulator_port :: "TlsSettings option \<Rightarrow> int \<Rightarrow> int" where
  "simulator_port tls port = (case tls of
     None \<Rightarrow> port
   | Some _ \<Rightarrow> if port = PLAINTEXT_PORT then ENCRYPTED_PORT else port)"

section \<open>What a context carries\<close>

text \<open>The packaged constructor gives back a context of the protocol asked for, with no custom suite.\<close>

definition ssl_io_ok :: "ssl_io \<Rightarrow> bool" where
  "ssl_io_ok io = (\<forall>p c. new_context io p = Inr c \<longrightarrow> ctx_protocol c = p \<and> ctx_ciphers c = None)"

lemma tls_context_Inr:
  assumes "tls_context io self role = Inr c" and "ssl_io_ok io"
  shows "ctx_minimum_version c = MINIMUM_VERSION"
    and "ctx_ciphers c = resolved (tls_ciphers self) None"
    and "ctx_check_hostname c = resolved (tls_verify_hostname self) (rd_verify_hostname (ROLE_DEFAULTS role))"
    and "ctx_verify_mode c =
      (if ctx_check_hostname c \<and> resolved (tls_verify_mode self) CERT_REQUIRED = CERT_NONE then CERT_REQUIRED
       else resolved (tls_verify_mode self) CERT_REQUIRED)"
    and "ctx_options c OR resolved (tls_options self) (OP_ALL io) = ctx_options c"
  using assms
  by (auto simp: tls_context_def Let_def res_simps set_check_hostname_def set_verify_mode_def set_minimum_version_def
      ssl_io_ok_def or.assoc split: if_splits option.splits)

text \<open>The floor is the specification's, and no setting lies below it.\<close>

lemma tls_context_floor:
  "tls_context io self role = Inr c \<Longrightarrow> ssl_io_ok io \<Longrightarrow> TLSv1_2 \<le> ctx_minimum_version c"
  by (simp add: tls_context_Inr(1) MINIMUM_VERSION_def)

text \<open>Certificates are never left unchecked on a context that checks host names.\<close>

lemma relaxations_Nil_context:
  assumes "tls_context io self role = Inr c" and "ssl_io_ok io" and "relaxations self role = []"
  shows "ctx_ciphers c = None \<and> ctx_verify_mode c = CERT_REQUIRED \<and>
    (rd_verify_hostname (ROLE_DEFAULTS role) \<longrightarrow> ctx_check_hostname c)"
proof -
  have "resolved (tls_ciphers self) None = None" "resolved (tls_verify_mode self) CERT_REQUIRED = CERT_REQUIRED"
    "rd_verify_hostname (ROLE_DEFAULTS role) \<longrightarrow>
       resolved (tls_verify_hostname self) (rd_verify_hostname (ROLE_DEFAULTS role))"
    using assms(3) by (auto simp: relaxations_def Let_def split: if_splits option.splits)
  then show ?thesis using tls_context_Inr [OF assms(1,2)] by simp
qed

text \<open>Ciphers and host names are reported exactly when the context carries them.\<close>

lemma relaxations_exact:
  assumes "tls_context io self role = Inr c" and "ssl_io_ok io"
  shows "CustomCiphers s \<in> set (relaxations self role) \<longleftrightarrow> ctx_ciphers c = Some s"
    and "HostnameCheckingOff \<in> set (relaxations self role) \<longleftrightarrow>
      rd_verify_hostname (ROLE_DEFAULTS role) \<and> \<not> ctx_check_hostname c"
    and "PeerPolicy m \<in> set (relaxations self role) \<longleftrightarrow>
      m \<noteq> CERT_REQUIRED \<and> resolved (tls_verify_mode self) CERT_REQUIRED = m"
  unfolding tls_context_Inr [OF assms]
  by (auto simp: relaxations_def Let_def split: option.splits)

text \<open>A policy of \<open>CERT_NONE\<close> is reported and not carried while host names are checked.\<close>

lemma relaxations_overstated:
  assumes "tls_context io self role = Inr c" and "ssl_io_ok io"
    and "resolved (tls_verify_mode self) CERT_REQUIRED = CERT_NONE" and "ctx_check_hostname c"
  shows "PeerPolicy CERT_NONE \<in> set (relaxations self role) \<and> ctx_verify_mode c = CERT_REQUIRED"
  using relaxations_exact(3) [OF assms(1,2)] tls_context_Inr(4) [OF assms(1,2)] assms(3,4) by simp

end
