(* ===== verification/Client.thy ===== *)
theory Client imports Server_Response Tls begin

text \<open>
  \<open>src/pyomb/simulators/client.py\<close>: the request factory and the exchange, that is the
  transaction identifiers, \<open>send_request\<close>, \<open>wait_response\<close> and \<open>request\<close>. What the client does with
  its socket otherwise is \<open>Client_Socket\<close>. A client that holds none hands \<open>None\<close> to the stream, which
  makes a socket of its own (\<open>fresh\<close>), as the source does.
\<close>

section \<open>\<open>RequestFactory\<close>\<close>

definition create_fc1_req :: "int \<Rightarrow> int \<Rightarrow> bits_pdu" where
  "create_fc1_req read_address read_count = ModbusRequestFC1 read_address read_count"

definition create_fc2_req :: "int \<Rightarrow> int \<Rightarrow> bits_pdu" where
  "create_fc2_req read_address read_count = ModbusRequestFC2 read_address read_count"

definition create_fc3_req :: "int \<Rightarrow> int \<Rightarrow> registers_pdu" where
  "create_fc3_req read_address read_count = ModbusRequestFC3 read_address read_count"

definition create_fc4_req :: "int \<Rightarrow> int \<Rightarrow> registers_pdu" where
  "create_fc4_req read_address read_count = ModbusRequestFC4 read_address read_count"

definition create_fc5_req :: "int \<Rightarrow> int \<Rightarrow> bits_pdu" where
  "create_fc5_req write_address v = ModbusRequestFC5 write_address v"

definition create_fc6_req :: "int \<Rightarrow> int \<Rightarrow> registers_pdu" where
  "create_fc6_req write_address v = ModbusRequestFC6 write_address v"

definition create_fc7_req :: diagnostics_pdu where
  "create_fc7_req = ModbusRequestFC7"

text \<open>\<open>values[i]\<close> for \<open>i\<close> in \<open>range(byte_count)\<close>: a sequence shorter than that is \<open>IndexError\<close>.\<close>

definition create_fc15_req :: "int \<Rightarrow> int \<Rightarrow> int list \<Rightarrow> bits_pdu pyres" where
  "create_fc15_req write_address write_count vs =
     (let byte_count = (write_count + 7) div 8
      in if int (length vs) < byte_count then Inl IndexError
         else Inr (ModbusRequestFC15 write_address write_count byte_count (take (nat byte_count) vs)))"

definition create_fc16_req :: "int \<Rightarrow> int \<Rightarrow> int list \<Rightarrow> registers_pdu" where
  "create_fc16_req write_address write_count vs =
     (let byte_count = 2 * write_count in ModbusRequestFC16 write_address write_count byte_count vs)"

definition create_fc22_req :: "int \<Rightarrow> int \<Rightarrow> int \<Rightarrow> registers_pdu" where
  "create_fc22_req write_address and_mask or_mask = ModbusRequestFC22 write_address and_mask or_mask"

definition create_fc23_req :: "int \<Rightarrow> int \<Rightarrow> int \<Rightarrow> int \<Rightarrow> int list \<Rightarrow> registers_pdu" where
  "create_fc23_req read_addr read_count write_addr write_count write_values =
     (let byte_count = 2 * write_count
      in ModbusRequestFC23 read_addr read_count write_addr write_count byte_count write_values)"

definition create_fc43_req :: "int \<Rightarrow> int list \<Rightarrow> encapsulated_pdu" where
  "create_fc43_req mei_type mei_data = ModbusRequestFC43 mei_type mei_data"

section \<open>The PDU \<open>send_request\<close> builds\<close>

datatype py_values = One int | Many "int list"

record request_args =
  rq_fc :: int
  rq_read_address :: int
  rq_read_count :: int
  rq_write_address :: int
  rq_write_count :: int
  rq_values :: py_values
  rq_and_mask :: int
  rq_or_mask :: int

text \<open>
  The \<open>try\<close> at the head of the method: a single write takes the first of a sequence, a multiple
  write makes a sequence of a single value.
\<close>

definition normalize_values :: "int \<Rightarrow> py_values \<Rightarrow> py_values pyres" where
  "normalize_values fc vs = (case vs of
     Many xs \<Rightarrow>
       if fc \<in> {5, 6} then (case take 1 xs of [] \<Rightarrow> Inl ModbusIllegalDataValueError | x # _ \<Rightarrow> Inr (One x))
       else Inr vs
   | One x \<Rightarrow> if fc \<in> {15, 16, 23} then Inr (Many [x]) else Inr vs)"

fun the_one :: "py_values \<Rightarrow> int" where
  "the_one (One x) = x"
| "the_one (Many xs) = hd xs"

fun the_many :: "py_values \<Rightarrow> int list" where
  "the_many (Many xs) = xs"
| "the_many (One x) = [x]"

definition client_pdu :: "request_args \<Rightarrow> pdu pyres" where
  "client_pdu a =
     bindE (normalize_values (rq_fc a) (rq_values a)) (\<lambda>vs.
       let fc = rq_fc a in
       if fc = 1 then Inr (BitsPdu (create_fc1_req (rq_read_address a) (rq_read_count a)))
       else if fc = 2 then Inr (BitsPdu (create_fc2_req (rq_read_address a) (rq_read_count a)))
       else if fc = 3 then Inr (RegistersPdu (create_fc3_req (rq_read_address a) (rq_read_count a)))
       else if fc = 4 then Inr (RegistersPdu (create_fc4_req (rq_read_address a) (rq_read_count a)))
       else if fc = 5 then Inr (BitsPdu (create_fc5_req (rq_write_address a) (the_one vs)))
       else if fc = 6 then Inr (RegistersPdu (create_fc6_req (rq_write_address a) (the_one vs)))
       else if fc = 7 then Inr (DiagnosticsPdu create_fc7_req)
       else if fc = 15 then
         bindE (create_fc15_req (rq_write_address a) (rq_write_count a) (the_many vs)) (\<lambda>p. Inr (BitsPdu p))
       else if fc = 16 then
         Inr (RegistersPdu (create_fc16_req (rq_write_address a) (rq_write_count a) (the_many vs)))
       else if fc = 22 then
         Inr (RegistersPdu (create_fc22_req (rq_write_address a) (rq_and_mask a) (rq_or_mask a)))
       else if fc = 23 then
         Inr (RegistersPdu (create_fc23_req (rq_read_address a) (rq_read_count a)
           (rq_write_address a) (rq_write_count a) (the_many vs)))
       else if fc = 43 then Inr (EncapsulatedPdu (create_fc43_req 0x0E [1, 2, 3, 4, 5, 6, 7, 8, 9, 10]))
       else Inl (ModbusIllegalFunctionError fc))"

section \<open>The exchange\<close>

definition TRANS_ID_MODULO :: int where
  "TRANS_ID_MODULO = 0x10000"

definition MAX_STALE_RESPONSES :: nat where
  "MAX_STALE_RESPONSES = 8"

record 's ModbusClientSimulator =
  cl_timeout :: "int option"
  cl_host :: string
  cl_port :: int
  cl_unit_id :: int
  cl_frag_size :: int
  cl_frag_delay :: int
  cl_next_trans_id :: int
  cl_pending_trans_id :: "int option"
  cl_tls :: "TlsSettings option"
  cl_crypto :: "SSLContext option"          \<comment> \<open>an attribute only a secure client has\<close>
  cl_sock :: "'s option"

definition take_trans_id :: "'s ModbusClientSimulator \<Rightarrow> int \<times> 's ModbusClientSimulator" where
  "take_trans_id self =
     (let tid = cl_next_trans_id self
      in (tid, self\<lparr>cl_next_trans_id := (tid + 1) mod TRANS_ID_MODULO, cl_pending_trans_id := Some tid\<rparr>))"

text \<open>
  \<open>sock or socket.socket(...)\<close>: the stream's socket. One made by the stream is not kept.
\<close>

definition stream_sock :: "'s \<Rightarrow> 's ModbusClientSimulator \<Rightarrow> 's" where
  "stream_sock fresh self = (case cl_sock self of None \<Rightarrow> fresh | Some s \<Rightarrow> s)"

definition keep_sock :: "'s ModbusClientSimulator \<Rightarrow> 's \<Rightarrow> 's ModbusClientSimulator" where
  "keep_sock self s = self\<lparr>cl_sock := (case cl_sock self of None \<Rightarrow> None | Some _ \<Rightarrow> Some s)\<rparr>"

definition send_request ::
  "'s sock_ops \<Rightarrow> 's \<Rightarrow> 's ModbusClientSimulator \<Rightarrow> request_args \<Rightarrow> unit pyres \<times> 's ModbusClientSimulator" where
  "send_request ops fresh self a =
     (case client_pdu a of
        Inl e \<Rightarrow> (Inl e, self)
      | Inr p \<Rightarrow>
          (case take_trans_id self of (tid, self1) \<Rightarrow>
             (case dyn_len p of
                Inl e \<Rightarrow> (Inl e, self1)
              | Inr n \<Rightarrow>
                  (let header = \<lparr>trans_id = tid, prot_id = 0, hdr_length = n + 1, unit_id = cl_unit_id self1\<rparr>;
                       request = \<lparr>tcp_header = header, tcp_pdu = p\<rparr>;
                       sender = \<lparr>ts_sock = stream_sock fresh self1, ts_fragmenter = ModbusFragmenter,
                                 ts_frag_delay = cl_frag_delay self1, ts_frag_size = cl_frag_size self1,
                                 ts_burst = False\<rparr>
                   in case ModbusTcpRequest_serialize request of
                        Inl e \<Rightarrow> (Inl e, self1)
                      | Inr message \<Rightarrow>
                          (case tcp_send ops sender message of (r, sender') \<Rightarrow>
                             (r, keep_sock self1 (ts_sock sender')))))))"

text \<open>
  The \<open>for\<close> loop of \<open>wait_response\<close>, \<open>n\<close> reads from its end; \<open>(None, None)\<close> is the value \<open>None\<close>.
\<close>

fun wait_loop ::
  "registry \<Rightarrow> 's sock_ops \<Rightarrow> nat \<Rightarrow> 's ModbusTcpStream \<Rightarrow> 's ModbusClientSimulator \<Rightarrow>
     ((ModbusHeader \<times> pdu) option pyres \<times> 's ModbusTcpStream \<times> 's ModbusClientSimulator) option" where
  "wait_loop reg ops 0 stream self = Some (Inl ModbusNetworkError, stream, self)"
| "wait_loop reg ops (Suc n) stream self =
     (case tcp_receive ops stream of
        None \<Rightarrow> None
      | Some (Inl e, stream') \<Rightarrow> Some (Inl e, stream', self)
      | Some (Inr data, stream') \<Rightarrow>
          if data = [] then Some (Inr None, stream', self)
          else (case ModbusTcpResponse_deserialize (parse_response reg) data of
                  Inl e \<Rightarrow> Some (Inl e, stream', self)
                | Inr response \<Rightarrow>
                    if cl_pending_trans_id self = None
                    then Some (Inr (Some (tcp_header response, tcp_pdu response)), stream', self)
                    else if cl_pending_trans_id self = Some (trans_id (tcp_header response))
                    then Some (Inr (Some (tcp_header response, tcp_pdu response)), stream',
                               self\<lparr>cl_pending_trans_id := None\<rparr>)
                    else wait_loop reg ops n stream' self))"

text \<open>The stream of \<open>wait_response\<close>: whole reads, the packaged fragmenter.\<close>

abbreviation response_stream :: "'s \<Rightarrow> 's ModbusTcpStream" where
  "response_stream s \<equiv> \<lparr>ts_sock = s, ts_fragmenter = ModbusFragmenter, ts_frag_delay = 0,
     ts_frag_size = 0, ts_burst = False\<rparr>"

definition wait_response ::
  "registry \<Rightarrow> 's sock_ops \<Rightarrow> 's \<Rightarrow> 's ModbusClientSimulator \<Rightarrow>
     ((ModbusHeader \<times> pdu) option pyres \<times> 's ModbusClientSimulator) option" where
  "wait_response reg ops fresh self =
     (case wait_loop reg ops (MAX_STALE_RESPONSES + 1) (response_stream (stream_sock fresh self)) self of
        None \<Rightarrow> None
      | Some (r, stream', self') \<Rightarrow> Some (r, keep_sock self' (ts_sock stream')))"

definition client_request ::
  "registry \<Rightarrow> 's sock_ops \<Rightarrow> 's \<Rightarrow> 's ModbusClientSimulator \<Rightarrow> request_args \<Rightarrow>
     ((ModbusHeader \<times> pdu) option pyres \<times> 's ModbusClientSimulator) option" where
  "client_request reg ops fresh self a =
     (case send_request ops fresh self a of
        (Inl e, self') \<Rightarrow> Some (Inl e, self')
      | (Inr _, self') \<Rightarrow> wait_response reg ops fresh self')"

section \<open>Transaction identifiers\<close>

definition trans_id_ok :: "'s ModbusClientSimulator \<Rightarrow> bool" where
  "trans_id_ok self = (0 \<le> cl_next_trans_id self \<and> cl_next_trans_id self < TRANS_ID_MODULO)"

text \<open>The identifiers \<open>n\<close> calls of \<open>_take_trans_id\<close> hand out, in order.\<close>

fun take_trans_ids :: "nat \<Rightarrow> 's ModbusClientSimulator \<Rightarrow> int list" where
  "take_trans_ids 0 self = []"
| "take_trans_ids (Suc n) self = (case take_trans_id self of (tid, self') \<Rightarrow> tid # take_trans_ids n self')"

lemma take_trans_ids_eq:
  "trans_id_ok self \<Longrightarrow>
     take_trans_ids n self = map (\<lambda>i. (cl_next_trans_id self + int i) mod TRANS_ID_MODULO) [0..<n]"
proof (induction n arbitrary: self)
  case (Suc n)
  define self' where "self' = snd (take_trans_id self)"
  have next': "cl_next_trans_id self' = (cl_next_trans_id self + 1) mod TRANS_ID_MODULO"
    by (simp add: self'_def take_trans_id_def Let_def)
  then have "trans_id_ok self'" by (simp add: trans_id_ok_def TRANS_ID_MODULO_def)
  then have "take_trans_ids n self' =
      map (\<lambda>i. (cl_next_trans_id self + int (Suc i)) mod TRANS_ID_MODULO) [0..<n]"
    by (simp add: Suc.IH next' mod_simps ac_simps)
  then show ?case
    using Suc.prems unfolding upt_conv_Cons [OF zero_less_Suc] map_Suc_upt [symmetric]
    by (simp add: self'_def take_trans_id_def Let_def trans_id_ok_def)
qed simp

lemma take_trans_ids_distinct:
  assumes "trans_id_ok self" and "int n \<le> TRANS_ID_MODULO"
  shows "distinct (take_trans_ids n self)"
proof -
  have "inj_on (\<lambda>i. (cl_next_trans_id self + int i) mod TRANS_ID_MODULO) {0..<n}"
  proof (rule inj_onI)
    fix i j
    assume *: "i \<in> {0..<n}" "j \<in> {0..<n}"
      and "(cl_next_trans_id self + int i) mod TRANS_ID_MODULO = (cl_next_trans_id self + int j) mod TRANS_ID_MODULO"
    then have "TRANS_ID_MODULO dvd int i - int j"
      by (simp add: mod_eq_dvd_iff)
    moreover have "\<bar>int i - int j\<bar> < TRANS_ID_MODULO" using * assms(2) by auto
    ultimately show "i = j" using zdvd_not_zless [of "\<bar>int i - int j\<bar>" TRANS_ID_MODULO] by (cases "i = j") auto
  qed
  then show ?thesis using assms(1) by (simp add: take_trans_ids_eq distinct_map)
qed

section \<open>What is sent\<close>

lemma client_pdu_registered:
  assumes "client_pdu a = Inr p"
  shows "known_request default_registry p" and "dyn_type p \<noteq> ModbusPdu_type" and "pdu_is_request (dyn_decl (dyn_type p))"
proof -
  have *: "(\<forall>c. dyn_type p \<noteq> CommonT c) \<and> pdu_is_request (dyn_decl (dyn_type p))"
    using assms
    by (auto simp: client_pdu_def res_simps Let_def create_fc1_req_def create_fc2_req_def create_fc3_req_def
        create_fc4_req_def create_fc5_req_def create_fc6_req_def create_fc7_req_def create_fc15_req_def
        create_fc16_req_def create_fc22_req_def create_fc23_req_def create_fc43_req_def pdu_is_request_def
        bits_cls_defs registers_cls_defs diagnostics_cls_defs encapsulated_cls_defs split: if_splits)
  then show "known_request default_registry p"
    by (intro registered_known_request) (simp_all add: registrations_all)
  show "dyn_type p \<noteq> ModbusPdu_type" "pdu_is_request (dyn_decl (dyn_type p))" using * by auto
qed

lemma client_pdu_fc:
  assumes "client_pdu a = Inr p"
  shows "pdu_fc p = rq_fc a \<and> 0 \<le> pdu_fc p \<and> pdu_fc p < 0x80"
  using assms
  by (auto simp: client_pdu_def res_simps Let_def create_fc1_req_def create_fc2_req_def create_fc3_req_def
      create_fc4_req_def create_fc5_req_def create_fc6_req_def create_fc7_req_def create_fc15_req_def
      create_fc16_req_def create_fc22_req_def create_fc23_req_def create_fc43_req_def pdu_fc_def pdu_defs
      split: if_splits)

lemma client_pdu_answerable:
  assumes "client_pdu a = Inr p" and "dyn_violations p = Inr []"
  shows "answerable p"
  using client_pdu_fc [OF assms(1)] client_pdu_registered(3) [OF assms(1)] assms(2) by (simp add: answerable_def)

definition request_header :: "'s ModbusClientSimulator \<Rightarrow> int \<Rightarrow> ModbusHeader" where
  "request_header self n =
     \<lparr>trans_id = cl_next_trans_id self, prot_id = 0, hdr_length = n + 1, unit_id = cl_unit_id self\<rparr>"

text \<open>A client that is connected, and configured with values its requests can carry.\<close>

definition client_ready :: "'s ModbusClientSimulator \<Rightarrow> bool" where
  "client_ready self = (trans_id_ok self \<and> fits UByte (cl_unit_id self) \<and> 0 \<le> cl_frag_size self \<and>
     0 \<le> cl_frag_delay self \<and> cl_sock self \<noteq> None)"

definition awaiting :: "'s ModbusClientSimulator \<Rightarrow> 's \<Rightarrow> 's ModbusClientSimulator" where
  "awaiting self s = (snd (take_trans_id self))\<lparr>cl_sock := Some s\<rparr>"

context greedy_socket begin

lemma send_request_sends:
  assumes "client_pdu a = Inr p" and "dyn_serialize p = Inr b" and "length b \<le> 65534" and "client_ready self"
    and "cl_sock self = Some s"
  shows "\<exists>s' m. send_request ops fresh self a = (Inr (), awaiting self s') \<and> outbox s' = outbox s @ m \<and>
    framed_header m = Some (request_header self (int (length b))) \<and> drop HEADER_SIZE m = b \<and>
    ModbusTcpRequest_deserialize (parse_request default_registry) m =
      Inr \<lparr>tcp_header = request_header self (int (length b)), tcp_pdu = p\<rparr>"
proof -
  define h where "h = request_header self (int (length b))"
  define self1 where "self1 = snd (take_trans_id self)"
  have same: "cl_sock self1 = Some s" "cl_frag_size self1 = cl_frag_size self" "cl_unit_id self1 = cl_unit_id self"
    "cl_frag_delay self1 = cl_frag_delay self" and tid: "take_trans_id self = (cl_next_trans_id self, self1)"
    using assms(5) by (simp_all add: self1_def take_trans_id_def Let_def)
  obtain hb where hb: "ModbusHeader_serialize h = Inr hb"
    using header_serialize_Inr_iff [of h] assms(3,4)
    by (auto simp: h_def request_header_def client_ready_def trans_id_ok_def TRANS_ID_MODULO_def fits_def code_max_def)
  note len = header_ser_size [OF hb]
  define st where "st = \<lparr>ts_sock = s, ts_fragmenter = ModbusFragmenter, ts_frag_delay = cl_frag_delay self,
    ts_frag_size = cl_frag_size self, ts_burst = False\<rparr>"
  have ready: "0 \<le> cl_frag_size self" "0 \<le> cl_frag_delay self" using assms(4) by (simp_all add: client_ready_def)
  obtain fs where fs: "fragment (ts_fragmenter st) (hb @ b) (ts_frag_size st) = Inr fs" "concat fs = hb @ b"
    using fragmenter.fragment_ok [OF ready(1), of "hb @ b"] by (auto simp: st_def)
  obtain s' where s': "tcp_send ops st (hb @ b) = (Inr (), st\<lparr>ts_sock := s'\<rparr>)" "outbox s' = outbox s @ hb @ b"
    using tcp_send_all [OF _ fs] ready(2) by (auto simp: st_def)
  have ser: "ModbusTcpRequest_serialize \<lparr>tcp_header = h, tcp_pdu = p\<rparr> = Inr (hb @ b)"
    using hb assms(2) by (simp add: ModbusTcpRequest_serialize_same ModbusTcpPacket_serialize_Inr)
  have agrees: "length_agrees \<lparr>tcp_header = h, tcp_pdu = p\<rparr>"
    using dyn_ser_len [OF assms(2)] by (simp add: length_agrees_def h_def request_header_def)
  have "send_request ops fresh self a = (Inr (), awaiting self s')"
    using s'(1) ser dyn_ser_len [OF assms(2)] same
    by (simp add: send_request_def assms(1) tid Let_def stream_sock_def keep_sock_def awaiting_def h_def
        request_header_def st_def flip: self1_def)
  moreover have "framed_header (hb @ b) = Some h"
    using header_des_ser [OF hb] mbap_length_ok [OF _ len, of "\<lparr>tcp_header = h, tcp_pdu = p\<rparr>" b] agrees assms(2)
    by (simp add: framed_header_def len)
  moreover have "ModbusTcpRequest_deserialize (parse_request default_registry) (hb @ b) =
      Inr \<lparr>tcp_header = h, tcp_pdu = p\<rparr>"
    by (rule request_parser.tcp_request_des_ser [OF ser agrees]) (simp add: client_pdu_registered [OF assms(1)])
  ultimately show ?thesis
    using s'(2) len by (intro exI [of _ s'] exI [of _ "hb @ b"]) (simp add: h_def)
qed

end

text \<open>A request does nothing to the socket but write to it.\<close>

lemma send_request_keeps_sock:
  assumes "send_keeps ops I" and "cl_sock self = Some s" and "I s"
  shows "\<exists>s'. cl_sock (snd (send_request ops fresh self a)) = Some s' \<and> I s'"
proof -
  have "I (ts_sock (snd (tcp_send ops \<lparr>ts_sock = s, ts_fragmenter = f, ts_frag_delay = d, ts_frag_size = n, ts_burst = b\<rparr> m)))"
    for f d n b m
    by (rule tcp_send_keeps [OF assms(1)]) (simp add: assms(3))
  moreover have "cl_sock (snd (take_trans_id self)) = Some s" by (simp add: take_trans_id_def Let_def assms(2))
  ultimately show ?thesis
    using assms(2,3)
    by (auto simp: send_request_def Let_def stream_sock_def keep_sock_def split: sum.split prod.split) (metis snd_conv)+
qed

section \<open>What is accepted\<close>

text \<open>A response handed back answers the pending request, which is then no longer pending.\<close>

lemma wait_loop_accepts:
  "wait_loop reg ops n st self = Some (Inr (Some (h, p)), st', self') \<Longrightarrow>
     self' = self\<lparr>cl_pending_trans_id := None\<rparr> \<and>
     (\<forall>t. cl_pending_trans_id self = Some t \<longrightarrow> trans_id h = t)"
  by (induction reg ops n st self rule: wait_loop.induct)
    (fastforce split: option.splits prod.splits sum.splits if_splits)+

lemma wait_loop_keeps:
  "wait_loop reg ops n st self = Some (r, st', self') \<Longrightarrow> (\<nexists>x. r = Inr (Some x)) \<Longrightarrow> self' = self"
  by (induction reg ops n st self rule: wait_loop.induct)
    (auto split: option.splits prod.splits sum.splits if_splits)

lemma keep_sock_pending [simp]: "cl_pending_trans_id (keep_sock self s) = cl_pending_trans_id self"
  by (simp add: keep_sock_def)

lemma wait_response_loop:
  assumes "wait_response reg ops fresh self = Some (r, self')"
  obtains st' self1 where
    "wait_loop reg ops (MAX_STALE_RESPONSES + 1) (response_stream (stream_sock fresh self)) self = Some (r, st', self1)"
    and "self' = keep_sock self1 (ts_sock st')"
  using assms by (auto simp: wait_response_def simp del: wait_loop.simps split: option.splits)

lemma wait_response_accepts:
  assumes "wait_response reg ops fresh self = Some (Inr (Some (h, p)), self')"
  shows "cl_pending_trans_id self' = None \<and> (\<forall>t. cl_pending_trans_id self = Some t \<longrightarrow> trans_id h = t)"
  using assms by (rule wait_response_loop) (auto dest!: wait_loop_accepts simp del: wait_loop.simps)

lemma wait_response_keeps:
  assumes "wait_response reg ops fresh self = Some (r, self')" and "\<nexists>x. r = Inr (Some x)"
  shows "cl_pending_trans_id self' = cl_pending_trans_id self"
  using assms(1) by (rule wait_response_loop) (use assms(2) in \<open>auto dest!: wait_loop_keeps simp del: wait_loop.simps\<close>)

text \<open>A message that decodes as a response is one whole frame on the wire.\<close>

lemma response_frame:
  assumes "ModbusTcpResponse_deserialize (parse_response reg) m = Inr r"
  shows "receive_spec (m @ rest) = (Inr m, rest)" and "m \<noteq> []"
proof -
  obtain h p where h: "ModbusHeader_deserialize (take HEADER_SIZE m) = Inr h"
    and v: "validate_mbap_length h m = Inr ()" and p: "parse_response reg (drop HEADER_SIZE m) = Inr p"
    using assms by (auto simp: ModbusTcpResponse_deserialize_def res_simps)
  have "drop HEADER_SIZE m \<noteq> []" using p by auto
  then have long: "HEADER_SIZE < length m" by simp
  have n: "hdr_length h - 1 = int (length m) - int HEADER_SIZE"
    using v by (simp add: validate_mbap_length_def Let_def split: if_splits)
  show "receive_spec (m @ rest) = (Inr m, rest)"
  proof (rule receive_spec_message)
    show "tcp_pdu_length (take HEADER_SIZE m) = Inr (hdr_length h - 1)"
      using h n long by (simp add: tcp_pdu_length_def Let_def)
  qed (use n long in simp_all)
  show "m \<noteq> []" using long by auto
qed

text \<open>Waiting does nothing to the socket but read from it.\<close>

lemma wait_loop_keeps_sock:
  "wait_loop reg ops n st self = Some (r, st', self') \<Longrightarrow> recv_keeps ops I \<Longrightarrow> I (ts_sock st) \<Longrightarrow> I (ts_sock st')"
proof (induction reg ops n st self rule: wait_loop.induct)
  case (2 reg ops n st self)
  obtain q st1 where rec: "tcp_receive ops st = Some (q, st1)"
    using "2.prems"(1) by (cases "tcp_receive ops st") auto
  then have "I (ts_sock st1)" using "2.prems"(2,3) by (rule tcp_receive_keeps)
  then show ?case
    using "2.prems" "2.IH" rec by (auto split: sum.splits if_splits)
qed simp

lemma wait_response_keeps_sock:
  assumes "wait_response reg ops fresh self = Some (r, self')" and "recv_keeps ops I"
    and "cl_sock self = Some s" and "I s"
  shows "\<exists>s'. cl_sock self' = Some s' \<and> I s'"
  using assms(1)
proof (rule wait_response_loop)
  fix st' self1
  assume loop: "wait_loop reg ops (MAX_STALE_RESPONSES + 1) (response_stream (stream_sock fresh self)) self = Some (r, st', self1)"
    and self': "self' = keep_sock self1 (ts_sock st')"
  have "I (ts_sock st')" using wait_loop_keeps_sock [OF loop assms(2)] assms(3,4) by (simp add: stream_sock_def)
  moreover have "cl_sock self1 = Some s"
    using wait_loop_accepts wait_loop_keeps loop assms(3)
    by (cases "\<exists>h p. r = Inr (Some (h, p))") (fastforce simp del: wait_loop.simps)+
  ultimately show ?thesis by (simp add: self' keep_sock_def)
qed

context frame_source begin

text \<open>Up to eight frames that answer something else are dropped on the way to the one that answers.\<close>

lemma wait_loop_finds:
  assumes "cl_pending_trans_id self = Some t"
    and "list_all2 (\<lambda>m r. ModbusTcpResponse_deserialize (parse_response reg) m = Inr r \<and> trans_id (tcp_header r) \<noteq> t) ms rs"
    and "ModbusTcpResponse_deserialize (parse_response reg) m = Inr r" and "trans_id (tcp_header r) = t"
    and "inbox (ts_sock st) = concat ms @ m @ rest" and "length ms < n"
    and "0 \<le> ts_frag_size st" and "ts_fragmenter st = ModbusFragmenter"
  shows "\<exists>s'. wait_loop reg ops n st self =
      Some (Inr (Some (tcp_header r, tcp_pdu r)), st\<lparr>ts_sock := s'\<rparr>, self\<lparr>cl_pending_trans_id := None\<rparr>) \<and> inbox s' = rest"
  using assms(2,5-8)
proof (induction ms rs arbitrary: st n rule: list_all2_induct)
  case Nil
  then obtain k where n: "n = Suc k" by (cases n) auto
  obtain s' where "tcp_receive ops st = Some (Inr m, st\<lparr>ts_sock := s'\<rparr>)" and "inbox s' = rest"
    using receive_frame [of st] Nil.prems response_frame [OF assms(3)] by auto
  then show ?case
    using assms(1,3,4) response_frame(2) [OF assms(3)] by (intro exI [of _ s']) (simp add: n)
next
  case (Cons x xs y ys)
  then obtain k where n: "n = Suc k" "length xs < k" by (cases n) auto
  have x: "ModbusTcpResponse_deserialize (parse_response reg) x = Inr y" "trans_id (tcp_header y) \<noteq> t"
    using Cons.hyps(1) by simp_all
  obtain s where "tcp_receive ops st = Some (Inr x, st\<lparr>ts_sock := s\<rparr>)" and s: "inbox s = concat xs @ m @ rest"
    using receive_frame [of st] Cons.prems response_frame [OF x(1)] by auto
  then have "wait_loop reg ops n st self = wait_loop reg ops k (st\<lparr>ts_sock := s\<rparr>) self"
    using x assms(1) response_frame(2) [OF x(1)] by (simp add: n)
  then show ?case
    using Cons.IH [of "st\<lparr>ts_sock := s\<rparr>" k] s n Cons.prems by simp
qed

lemma wait_loop_gives_up:
  assumes "cl_pending_trans_id self = Some t"
    and "list_all2 (\<lambda>m r. ModbusTcpResponse_deserialize (parse_response reg) m = Inr r \<and> trans_id (tcp_header r) \<noteq> t) ms rs"
    and "inbox (ts_sock st) = concat ms @ rest"
    and "0 \<le> ts_frag_size st" and "ts_fragmenter st = ModbusFragmenter"
  shows "\<exists>s'. wait_loop reg ops (length ms) st self = Some (Inl ModbusNetworkError, st\<lparr>ts_sock := s'\<rparr>, self) \<and>
    inbox s' = rest"
  using assms(2-5)
proof (induction ms rs arbitrary: st rule: list_all2_induct)
  case Nil
  then show ?case by (intro exI [of _ "ts_sock st"]) simp
next
  case (Cons x xs y ys)
  have x: "ModbusTcpResponse_deserialize (parse_response reg) x = Inr y" "trans_id (tcp_header y) \<noteq> t"
    using Cons.hyps(1) by simp_all
  obtain s where "tcp_receive ops st = Some (Inr x, st\<lparr>ts_sock := s\<rparr>)" and s: "inbox s = concat xs @ rest"
    using receive_frame [of st] Cons.prems response_frame [OF x(1)] by auto
  then have "wait_loop reg ops (length (x # xs)) st self = wait_loop reg ops (length xs) (st\<lparr>ts_sock := s\<rparr>) self"
    using x assms(1) response_frame(2) [OF x(1)] by simp
  then show ?case
    using Cons.IH [of "st\<lparr>ts_sock := s\<rparr>"] s Cons.prems by simp
qed

lemma wait_response_finds:
  assumes "cl_pending_trans_id self = Some t" and "cl_sock self = Some s"
    and "list_all2 (\<lambda>m r. ModbusTcpResponse_deserialize (parse_response reg) m = Inr r \<and> trans_id (tcp_header r) \<noteq> t) ms rs"
    and "length ms \<le> MAX_STALE_RESPONSES"
    and "ModbusTcpResponse_deserialize (parse_response reg) m = Inr r" and "trans_id (tcp_header r) = t"
    and "inbox s = concat ms @ m @ rest"
  shows "\<exists>s'. wait_response reg ops fresh self =
      Some (Inr (Some (tcp_header r, tcp_pdu r)), self\<lparr>cl_pending_trans_id := None, cl_sock := Some s'\<rparr>) \<and>
    inbox s' = rest"
proof -
  obtain s' where "wait_loop reg ops (MAX_STALE_RESPONSES + 1) (response_stream s) self =
      Some (Inr (Some (tcp_header r, tcp_pdu r)), response_stream s\<lparr>ts_sock := s'\<rparr>, self\<lparr>cl_pending_trans_id := None\<rparr>)"
    and "inbox s' = rest"
    using wait_loop_finds [OF assms(1,3,5,6), of "response_stream s" rest "MAX_STALE_RESPONSES + 1"] assms(4,7)
    by (auto simp del: wait_loop.simps)
  then show ?thesis
    using assms(2) by (intro exI [of _ s'])
      (simp add: wait_response_def stream_sock_def keep_sock_def del: wait_loop.simps)
qed

lemma wait_response_gives_up:
  assumes "cl_pending_trans_id self = Some t" and "cl_sock self = Some s"
    and "list_all2 (\<lambda>m r. ModbusTcpResponse_deserialize (parse_response reg) m = Inr r \<and> trans_id (tcp_header r) \<noteq> t) ms rs"
    and "length ms = MAX_STALE_RESPONSES + 1" and "inbox s = concat ms @ rest"
  shows "\<exists>s'. wait_response reg ops fresh self = Some (Inl ModbusNetworkError, self\<lparr>cl_sock := Some s'\<rparr>) \<and>
    inbox s' = rest"
proof -
  obtain s' where "wait_loop reg ops (MAX_STALE_RESPONSES + 1) (response_stream s) self =
      Some (Inl ModbusNetworkError, response_stream s\<lparr>ts_sock := s'\<rparr>, self)"
    and "inbox s' = rest"
    using wait_loop_gives_up [OF assms(1,3), of "response_stream s" rest] assms(4,5)
    by (auto simp del: wait_loop.simps)
  then show ?thesis
    using assms(2) by (intro exI [of _ s'])
      (simp add: wait_response_def stream_sock_def keep_sock_def del: wait_loop.simps)
qed

end

context byte_socket begin

lemma wait_loop_returns:
  assumes "0 \<le> ts_frag_size st" and "ts_fragmenter st = ModbusFragmenter"
  shows "wait_loop reg ops n st self \<noteq> None"
  using assms
proof (induction n arbitrary: st)
  case (Suc n)
  obtain s' where "tcp_receive ops st = Some (fst (receive_spec (inbox (ts_sock st))), st\<lparr>ts_sock := s'\<rparr>)"
    using receive_refines [of st] Suc.prems by auto
  then show ?case
    using Suc by (auto split: sum.splits)
qed simp

lemma wait_response_returns: "wait_response reg ops fresh self \<noteq> None"
  using wait_loop_returns [of "response_stream (stream_sock fresh self)" reg "MAX_STALE_RESPONSES + 1" self]
  by (auto simp: wait_response_def simp del: wait_loop.simps split: option.splits)

end

section \<open>A whole exchange\<close>

text \<open>Both ends of a connection: what is written on one is what the other has to read.\<close>

locale duplex_socket = byte_socket ops inbox + greedy_socket ops outbox
  for ops :: "'s sock_ops" and inbox :: "'s \<Rightarrow> bytes" and outbox :: "'s \<Rightarrow> bytes"
begin

lemma exchange:
  assumes "client_pdu a = Inr p" and "dyn_serialize p = Inr b" and "length b \<le> 65534" and "dyn_violations p = Inr []"
    and "client_ready self" and "cl_sock self = Some s"
    and "cfg_handler cfg = None" and "0 \<le> cfg_delay cfg" and "\<not> cfg_fail cfg"
  shows "\<exists>s1 m c1 r n. send_request ops fresh self a = (Inr (), awaiting self s1) \<and> outbox s1 = outbox s @ m \<and>
    on_data default_registry ops cfg m c = (Inr (), c1) \<and> outbox c1 = outbox c @ r \<and>
    (\<forall>s2 rest. inbox s2 = r @ rest \<longrightarrow>
      (\<exists>s3. wait_response default_registry ops fresh (awaiting self s2) =
        Some (Inr (Some (response_header (request_header self (int (length b))) n, response_pdu p)),
          (awaiting self s3)\<lparr>cl_pending_trans_id := None\<rparr>) \<and> inbox s3 = rest))"
proof -
  obtain s1 m where sent: "send_request ops fresh self a = (Inr (), awaiting self s1)" "outbox s1 = outbox s @ m"
    and m: "framed_header m = Some (request_header self (int (length b)))" "drop HEADER_SIZE m = b"
    using send_request_sends [OF assms(1-3,5,6)] by blast
  have known: "known_request default_registry p" using client_pdu_registered [OF assms(1)] by simp
  have parsed: "parse_request default_registry (drop HEADER_SIZE m) = Inr p"
    using request_parser.des_ser [OF known assms(2)] by (simp add: m)
  from on_data_answers [OF m(1) parsed client_pdu_answerable [OF assms(1,4)] assms(7-9)] obtain c1 r n where
    answered: "on_data default_registry ops cfg m c = (Inr (), c1)" "outbox c1 = outbox c @ r"
    and r: "ModbusTcpResponse_deserialize (parse_response default_registry) r =
      Inr \<lparr>tcp_header = response_header (request_header self (int (length b))) n, tcp_pdu = response_pdu p\<rparr>"
    by blast
  have "\<exists>s3. wait_response default_registry ops fresh (awaiting self s2) =
      Some (Inr (Some (response_header (request_header self (int (length b))) n, response_pdu p)),
        (awaiting self s3)\<lparr>cl_pending_trans_id := None\<rparr>) \<and> inbox s3 = rest"
    if "inbox s2 = r @ rest" for s2 rest
  proof -
    have "cl_pending_trans_id (awaiting self s2) = Some (cl_next_trans_id self)" "cl_sock (awaiting self s2) = Some s2"
      by (simp_all add: awaiting_def take_trans_id_def Let_def)
    from wait_response_finds [OF this list_all2_Nil [THEN iffD2, OF refl] _ r, of rest fresh] that
    obtain s3 where "inbox s3 = rest" and "wait_response default_registry ops fresh (awaiting self s2) =
      Some (Inr (Some (response_header (request_header self (int (length b))) n, response_pdu p)),
        (awaiting self s2)\<lparr>cl_pending_trans_id := None, cl_sock := Some s3\<rparr>)"
      by (auto simp: response_header_def request_header_def)
    then show ?thesis by (intro exI [of _ s3]) (simp add: awaiting_def)
  qed
  with sent answered show ?thesis by blast
qed

end

interpretation conn_duplex: duplex_socket conn_ops conn_inbox cn_out ..

end
