(* ===== verification/Client_Socket.thy ===== *)
theory Client_Socket imports Client Pdu_Typing begin

text \<open>
  The rest of \<open>src/pyomb/simulators/client.py\<close>: how a client gets a socket, tunes it and lets it go.
  The socket is the operating system's and the \<open>ssl\<close> module's: its operations are the argument
  \<open>os\<close>, and what their documentation promises is the locale \<open>socket_life\<close>, interpreted on a scripted
  socket at the end. Where the client drops its socket, the model returns the state it left it in.
\<close>

section \<open>The operating system's side\<close>

datatype sockopt = OptInt int | OptBytes bytes

record 's client_os =
  os_settimeout :: "'s \<Rightarrow> int option \<Rightarrow> unit pyres \<times> 's"
  os_wrap_socket :: "SSLContext \<Rightarrow> string \<Rightarrow> 's \<Rightarrow> 's pyres \<times> 's"   \<comment> \<open>the wrapped socket, and what is left of the plain one\<close>
  os_connect :: "'s \<Rightarrow> string \<times> int \<Rightarrow> unit pyres \<times> 's"
  os_is_ssl :: "'s \<Rightarrow> bool"                                        \<comment> \<open>\<open>isinstance(sock, ssl.SSLSocket)\<close>\<close>
  os_unwrap :: "'s \<Rightarrow> unit pyres \<times> 's"
  os_shutdown :: "'s \<Rightarrow> unit pyres \<times> 's"
  os_close :: "'s \<Rightarrow> unit pyres \<times> 's"
  os_setsockopt :: "'s \<Rightarrow> int \<Rightarrow> int \<Rightarrow> sockopt \<Rightarrow> unit pyres \<times> 's"
  os_getsockopt :: "'s \<Rightarrow> int \<Rightarrow> int \<Rightarrow> int pyres"
  os_SOL_SOCKET :: int
  os_SO_RCVBUF :: int
  os_SO_LINGER :: int

section \<open>Construction\<close>

text \<open>
  The client and the warnings its constructor logs. \<open>fresh\<close> is what \<open>socket.socket\<close> returns.
\<close>

definition client_init ::
  "ssl_io \<Rightarrow> 's client_os \<Rightarrow> 's \<Rightarrow> string \<Rightarrow> int \<Rightarrow> int \<Rightarrow> int \<Rightarrow> int \<Rightarrow> TlsSettings option \<Rightarrow> int option \<Rightarrow>
     ('s ModbusClientSimulator \<times> relaxation list) pyres" where
  "client_init io os fresh host port unit frag_size frag_delay tls timeout =
     bindE (case tls of
              None \<Rightarrow> Inr (None, [])
            | Some settings \<Rightarrow>
                bindE (tls_context io settings CLIENT) (\<lambda>crypto. Inr (Some crypto, relaxations settings CLIENT)))
       (\<lambda>(crypto, warnings).
          bindE (fst (os_settimeout os fresh timeout)) (\<lambda>_.
            Inr (\<lparr>cl_timeout = timeout, cl_host = host, cl_port = simulator_port tls port, cl_unit_id = unit,
                  cl_frag_size = frag_size, cl_frag_delay = frag_delay, cl_next_trans_id = 0,
                  cl_pending_trans_id = None, cl_tls = tls, cl_crypto = crypto,
                  cl_sock = Some (snd (os_settimeout os fresh timeout))\<rparr>, warnings)))"

section \<open>Using the socket as it is\<close>

definition require_socket :: "'s ModbusClientSimulator \<Rightarrow> 's pyres" where
  "require_socket self = (case cl_sock self of None \<Rightarrow> Inl ModbusNetworkError | Some s \<Rightarrow> Inr s)"

text \<open>One call on the socket the client holds; the client keeps the socket.\<close>

definition on_socket ::
  "('s \<Rightarrow> 'a pyres \<times> 's) \<Rightarrow> 's ModbusClientSimulator \<Rightarrow> 'a pyres \<times> 's ModbusClientSimulator" where
  "on_socket call self =
     (case require_socket self of
        Inl e \<Rightarrow> (Inl e, self)
      | Inr s \<Rightarrow> (case call s of (r, s') \<Rightarrow> (r, self\<lparr>cl_sock := Some s'\<rparr>)))"

definition get_recvbuf_size :: "'s client_os \<Rightarrow> 's ModbusClientSimulator \<Rightarrow> int pyres" where
  "get_recvbuf_size os self =
     bindE (require_socket self) (\<lambda>s. os_getsockopt os s (os_SOL_SOCKET os) (os_SO_RCVBUF os))"

definition set_recvbuf_size ::
  "'s client_os \<Rightarrow> int \<Rightarrow> 's ModbusClientSimulator \<Rightarrow> unit pyres \<times> 's ModbusClientSimulator" where
  "set_recvbuf_size os v self =
     on_socket (\<lambda>s. os_setsockopt os s (os_SOL_SOCKET os) (os_SO_RCVBUF os) (OptInt v)) self"

definition set_socket_timeout ::
  "'s client_os \<Rightarrow> int option \<Rightarrow> 's ModbusClientSimulator \<Rightarrow> unit pyres \<times> 's ModbusClientSimulator" where
  "set_socket_timeout os timeout self = on_socket (\<lambda>s. os_settimeout os s timeout) self"

definition set_socket_options ::
  "'s client_os \<Rightarrow> int \<Rightarrow> int \<Rightarrow> sockopt \<Rightarrow> 's ModbusClientSimulator \<Rightarrow> unit pyres \<times> 's ModbusClientSimulator" where
  "set_socket_options os level optname v self = on_socket (\<lambda>s. os_setsockopt os s level optname v) self"

text \<open>What \<open>send\<close> says it took is not looked at.\<close>

definition send_raw ::
  "'s sock_ops \<Rightarrow> bytes \<Rightarrow> 's ModbusClientSimulator \<Rightarrow> unit pyres \<times> 's ModbusClientSimulator" where
  "send_raw ops data self =
     on_socket (\<lambda>s. case sock_send ops s data of (r, s') \<Rightarrow> (bindE r (\<lambda>_. Inr ()), s')) self"

text \<open>\<open>None\<close>: a socket without a time-out may never return.\<close>

definition recv_raw ::
  "'s sock_ops \<Rightarrow> int \<Rightarrow> 's ModbusClientSimulator \<Rightarrow> (bytes pyres \<times> 's ModbusClientSimulator) option" where
  "recv_raw ops buffer_size self =
     (case require_socket self of
        Inl e \<Rightarrow> Some (Inl e, self)
      | Inr s \<Rightarrow> map_option (\<lambda>(r, s'). (r, self\<lparr>cl_sock := Some s'\<rparr>)) (sock_recv ops s buffer_size))"

section \<open>Connecting\<close>

definition client_connect ::
  "'s client_os \<Rightarrow> 's \<Rightarrow> string option \<Rightarrow> int option \<Rightarrow> 's ModbusClientSimulator \<Rightarrow>
     unit pyres \<times> 's ModbusClientSimulator" where
  "client_connect os fresh host port self =
     (let host = (case host of None \<Rightarrow> cl_host self | Some h \<Rightarrow> h);
          port = (case port of None \<Rightarrow> cl_port self | Some p \<Rightarrow> p);
          sock = stream_sock fresh self
      in case os_settimeout os sock (cl_timeout self) of
           (Inl e, s) \<Rightarrow> (Inl e, self\<lparr>cl_sock := Some s\<rparr>)
         | (Inr _, s) \<Rightarrow>
             (case (if cl_tls self = None then (Inr s, s)
                    else case cl_crypto self of
                           None \<Rightarrow> (Inl AttributeError, s)
                         | Some crypto \<Rightarrow> os_wrap_socket os crypto host s) of
                (Inl e, s') \<Rightarrow> (Inl e, self\<lparr>cl_sock := Some s'\<rparr>)
              | (Inr wrapped, _) \<Rightarrow>
                  (case os_connect os wrapped (host, port) of (r, s') \<Rightarrow> (r, self\<lparr>cl_sock := Some s'\<rparr>))))"

section \<open>Letting go\<close>

text \<open>\<open>except OSError: pass\<close>.\<close>

definition ignore_OSError :: "unit pyres \<Rightarrow> unit pyres" where
  "ignore_OSError r = (case r of Inl e \<Rightarrow> if is_OSError e then Inr () else Inl e | Inr _ \<Rightarrow> Inr ())"

definition say_goodbye :: "'s client_os \<Rightarrow> 's \<Rightarrow> unit pyres \<times> 's" where
  "say_goodbye os sock =
     (case (if os_is_ssl os sock then os_unwrap os sock else (Inr (), sock)) of
        (Inl e, s) \<Rightarrow> (Inl e, s)
      | (Inr _, s) \<Rightarrow> os_shutdown os s)"

text \<open>
  The \<open>finally\<close> clause runs whatever the goodbye raised: it closes, swallowing an \<open>OSError\<close> and letting
  anything else out before the attribute is cleared. The last component is the socket let go of.
\<close>

definition client_disconnect ::
  "'s client_os \<Rightarrow> 's ModbusClientSimulator \<Rightarrow> unit pyres \<times> 's ModbusClientSimulator \<times> 's option" where
  "client_disconnect os self =
     (case cl_sock self of
        None \<Rightarrow> (Inr (), self, None)
      | Some sock \<Rightarrow>
          (case say_goodbye os sock of (r, s) \<Rightarrow>
             (case os_close os s of (c, s') \<Rightarrow>
                (case ignore_OSError c of
                   Inl e \<Rightarrow> (Inl e, self\<lparr>cl_sock := Some s'\<rparr>, None)
                 | Inr _ \<Rightarrow> (ignore_OSError r, self\<lparr>cl_sock := None\<rparr>, Some s')))))"

text \<open>\<open>struct.pack("ii", 1, 0)\<close> where \<open>int\<close> has four bytes, the low one first.\<close>

definition LINGER_ZERO :: sockopt where
  "LINGER_ZERO = OptBytes [1, 0, 0, 0, 0, 0, 0, 0]"

definition client_reset ::
  "'s client_os \<Rightarrow> 's ModbusClientSimulator \<Rightarrow> unit pyres \<times> 's ModbusClientSimulator" where
  "client_reset os self =
     on_socket (\<lambda>s. case os_setsockopt os s (os_SOL_SOCKET os) (os_SO_LINGER os) LINGER_ZERO of
        (Inl e, s') \<Rightarrow> (Inl e, s')
      | (Inr _, s') \<Rightarrow> os_close os s') self"

section \<open>The built-in exercise\<close>

text \<open>The keyword arguments of \<open>request\<close> left at their defaults, and the calls \<open>test\<close> makes for \<open>i = 0\<close>.\<close>

definition default_args :: "int \<Rightarrow> request_args" where
  "default_args fc = \<lparr>rq_fc = fc, rq_read_address = 0, rq_read_count = 1, rq_write_address = 0,
     rq_write_count = 1, rq_values = Many [0], rq_and_mask = 0xFFFF, rq_or_mask = 0\<rparr>"

definition test_requests :: "int \<Rightarrow> int \<Rightarrow> request_args list" where
  "test_requests addr count =
     (let zeros = Many (replicate (nat count) 0)
      in [(default_args 1)\<lparr>rq_read_address := addr, rq_read_count := 1\<rparr>,
          (default_args 2)\<lparr>rq_read_address := addr, rq_read_count := 1\<rparr>,
          (default_args 3)\<lparr>rq_read_address := addr, rq_read_count := 1\<rparr>,
          (default_args 4)\<lparr>rq_read_address := addr, rq_read_count := 1\<rparr>,
          (default_args 5)\<lparr>rq_write_address := addr, rq_write_count := count, rq_values := zeros\<rparr>,
          (default_args 6)\<lparr>rq_write_address := addr, rq_write_count := count, rq_values := zeros\<rparr>,
          (default_args 15)\<lparr>rq_write_address := addr, rq_write_count := 1, rq_values := zeros\<rparr>,
          (default_args 16)\<lparr>rq_write_address := addr, rq_write_count := count, rq_values := zeros\<rparr>,
          (default_args 22)\<lparr>rq_write_address := addr, rq_and_mask := 0x55, rq_or_mask := 0xAA\<rparr>,
          (default_args 23)\<lparr>rq_read_address := addr, rq_read_count := count, rq_write_address := 0,
             rq_write_count := count, rq_values := zeros\<rparr>])"

fun request_all ::
  "registry \<Rightarrow> 's sock_ops \<Rightarrow> 's \<Rightarrow> request_args list \<Rightarrow> 's ModbusClientSimulator \<Rightarrow>
     (unit pyres \<times> 's ModbusClientSimulator) option" where
  "request_all reg ops fresh [] self = Some (Inr (), self)"
| "request_all reg ops fresh (a # as) self =
     (case client_request reg ops fresh self a of
        None \<Rightarrow> None
      | Some (Inl e, self') \<Rightarrow> Some (Inl e, self')
      | Some (Inr _, self') \<Rightarrow> request_all reg ops fresh as self')"

definition client_test ::
  "registry \<Rightarrow> 's sock_ops \<Rightarrow> 's client_os \<Rightarrow> 's \<Rightarrow> int \<Rightarrow> int \<Rightarrow> 's ModbusClientSimulator \<Rightarrow>
     (unit pyres \<times> 's ModbusClientSimulator) option" where
  "client_test reg ops os fresh addr count self =
     (case client_connect os fresh None None self of
        (Inl e, self') \<Rightarrow> Some (Inl e, self')
      | (Inr _, self') \<Rightarrow>
          (case request_all reg ops fresh (test_requests addr count) self' of
             None \<Rightarrow> None
           | Some (Inl e, self'') \<Rightarrow> Some (Inl e, self'')
           | Some (Inr _, self'') \<Rightarrow>
               (case client_disconnect os self'' of (r, self3, _) \<Rightarrow> Some (r, self3))))"

section \<open>What a socket promises\<close>

text \<open>
  A socket that was closed stays so, and refuses to be tuned with an \<open>OSError\<close>; closing and shutting
  down raise nothing else; what \<open>wrap_socket\<close> returns is a TLS socket, and connecting leaves it one.
\<close>

locale socket_life =
  fixes os :: "'s client_os" and closed :: "'s \<Rightarrow> bool"
  assumes close_closes: "closed (snd (os_close os s))"
    and close_raises: "raises_only is_OSError (fst (os_close os s))"
    and shutdown_raises: "raises_only is_OSError (fst (os_shutdown os s))"
    and closed_refuses: "closed s \<Longrightarrow> \<exists>e s'. os_settimeout os s t = (Inl e, s') \<and> is_OSError e"
    and wrap_secures: "os_wrap_socket os c h s = (Inr s', s0) \<Longrightarrow> os_is_ssl os s'"
    and connect_keeps_ssl: "os_is_ssl os (snd (os_connect os s a)) = os_is_ssl os s"
begin

lemma ignore_raises: "raises_only is_OSError r \<Longrightarrow> ignore_OSError r = Inr ()"
  by (auto simp: ignore_OSError_def split: sum.splits)

lemma disconnect_lets_go:
  assumes "cl_sock self = Some s"
  shows "\<exists>r s'. client_disconnect os self = (ignore_OSError r, self\<lparr>cl_sock := None\<rparr>, Some s') \<and> closed s' \<and>
    r = fst (say_goodbye os s)"
proof -
  define g where "g = say_goodbye os s"
  have "ignore_OSError (fst (os_close os (snd g))) = Inr ()" by (rule ignore_raises) (rule close_raises)
  then show ?thesis
    using assms close_closes [of "snd g"]
    by (auto simp: client_disconnect_def g_def split: prod.splits)
qed

lemma goodbye_raises:
  "raises_only is_OSError (fst (os_unwrap os s)) \<Longrightarrow> raises_only is_OSError (fst (say_goodbye os s))"
  using shutdown_raises by (auto simp: say_goodbye_def split: prod.splits sum.splits)

lemma disconnect_raises:
  assumes "cl_sock self = Some s"
  shows "\<exists>r s'. client_disconnect os self = (r, self\<lparr>cl_sock := None\<rparr>, Some s') \<and> closed s' \<and>
    (r \<noteq> Inr () \<longrightarrow> os_is_ssl os s \<and> (\<exists>e. r = Inl e \<and> fst (os_unwrap os s) = Inl e \<and> \<not> is_OSError e))"
proof -
  have fine: "ignore_OSError (fst (os_shutdown os t)) = Inr ()" for t by (rule ignore_raises) (rule shutdown_raises)
  then have down: "fst (os_shutdown os t) = Inl e \<Longrightarrow> is_OSError e" for t e
    using shutdown_raises [of t] by simp
  have "os_is_ssl os s \<and> (\<exists>e. ignore_OSError (fst (say_goodbye os s)) = Inl e \<and> fst (os_unwrap os s) = Inl e \<and> \<not> is_OSError e)"
    if "ignore_OSError (fst (say_goodbye os s)) \<noteq> Inr ()"
    using that down
    by (cases "fst (say_goodbye os s)")
      (auto simp: say_goodbye_def ignore_OSError_def split: prod.splits sum.splits if_splits)
  with disconnect_lets_go [OF assms] show ?thesis by auto
qed

lemma connect_secured:
  assumes "client_connect os fresh host port self = (Inr (), self')" and "cl_tls self \<noteq> None"
  shows "\<exists>s. cl_sock self' = Some s \<and> os_is_ssl os s"
proof -
  obtain w s0 c h p where "os_wrap_socket os c h s0 = (Inr w, snd (os_wrap_socket os c h s0))"
    and "cl_sock self' = Some (snd (os_connect os w p))"
    using assms
    by (auto simp: client_connect_def Let_def split: prod.splits sum.splits option.splits if_splits)
      (metis snd_conv)+
  then show ?thesis using wrap_secures connect_keeps_ssl by metis
qed

lemma reset_then_connect:
  assumes "client_reset os self = (Inr (), self')"
  shows "\<exists>e self''. client_connect os fresh host port self' = (Inl e, self'') \<and> is_OSError e"
proof -
  obtain s where s: "cl_sock self' = Some (snd (os_close os s))"
    using assms
    by (auto simp: client_reset_def on_socket_def require_socket_def split: option.splits prod.splits sum.splits)
      (metis snd_conv)
  obtain e s' where "os_settimeout os (snd (os_close os s)) (cl_timeout self') = (Inl e, s')" "is_OSError e"
    using closed_refuses [OF close_closes] by blast
  then show ?thesis using s by (simp add: client_connect_def stream_sock_def)
qed

end

text \<open>Whatever \<open>unwrap\<close> raises that is no \<open>OSError\<close> leaves \<open>disconnect\<close>, which has closed the socket all the same.\<close>

lemma disconnect_escapes:
  assumes "cl_sock self = Some s" and "os_is_ssl os s" and "os_unwrap os s = (Inl e, s')" and "\<not> is_OSError e"
    and "raises_only is_OSError (fst (os_close os s'))"
  shows "client_disconnect os self = (Inl e, self\<lparr>cl_sock := None\<rparr>, Some (snd (os_close os s')))"
  using assms
  by (auto simp: client_disconnect_def say_goodbye_def ignore_OSError_def split: prod.splits sum.splits)

section \<open>A client without a socket\<close>

lemma on_socket_None: "cl_sock self = None \<Longrightarrow> on_socket call self = (Inl ModbusNetworkError, self)"
  by (simp add: on_socket_def require_socket_def)

lemma no_socket_refused:
  assumes "cl_sock self = None"
  shows "send_raw ops data self = (Inl ModbusNetworkError, self)"
    and "recv_raw ops n self = Some (Inl ModbusNetworkError, self)"
    and "set_socket_timeout os t self = (Inl ModbusNetworkError, self)"
    and "set_socket_options os l name v self = (Inl ModbusNetworkError, self)"
    and "set_recvbuf_size os i self = (Inl ModbusNetworkError, self)"
    and "get_recvbuf_size os self = Inl ModbusNetworkError"
    and "client_reset os self = (Inl ModbusNetworkError, self)"
    and "client_disconnect os self = (Inr (), self, None)"
  using assms
  by (simp_all add: send_raw_def recv_raw_def set_socket_timeout_def set_socket_options_def set_recvbuf_size_def
      get_recvbuf_size_def require_socket_def client_reset_def client_disconnect_def on_socket_None)

section \<open>A socket that keeps the promises\<close>

text \<open>
  It reaches its peer or does not. \<open>unwrap\<close> raises \<open>ValueError\<close> where no handshake was completed,
  as the \<open>ssl\<close> module does.
\<close>

record life_sock =
  ls_reachable :: bool
  ls_closed :: bool
  ls_ssl :: bool
  ls_agreed :: bool
  ls_timeout :: "int option"
  ls_peer :: "(string \<times> int) option"

definition new_sock :: "bool \<Rightarrow> life_sock" where
  "new_sock reachable = \<lparr>ls_reachable = reachable, ls_closed = False, ls_ssl = False, ls_agreed = False,
     ls_timeout = None, ls_peer = None\<rparr>"

definition life_os :: "life_sock client_os" where
  "life_os = \<lparr>
     os_settimeout = (\<lambda>s t. if ls_closed s then (Inl OSError, s)
       else if (case t of None \<Rightarrow> False | Some n \<Rightarrow> n < 0) then (Inl ValueError, s)
       else (Inr (), s\<lparr>ls_timeout := t\<rparr>)),
     os_wrap_socket = (\<lambda>c h s. if ls_closed s then (Inl OSError, s)
       else (Inr (s\<lparr>ls_ssl := True\<rparr>), s\<lparr>ls_closed := True\<rparr>)),
     os_connect = (\<lambda>s a. if ls_closed s \<or> \<not> ls_reachable s then (Inl OSError, s)
       else (Inr (), s\<lparr>ls_peer := Some a, ls_agreed := ls_ssl s\<rparr>)),
     os_is_ssl = ls_ssl,
     os_unwrap = (\<lambda>s. if ls_agreed s then (Inr (), s\<lparr>ls_agreed := False\<rparr>) else (Inl ValueError, s)),
     os_shutdown = (\<lambda>s. if ls_peer s = None then (Inl OSError, s) else (Inr (), s)),
     os_close = (\<lambda>s. (Inr (), s\<lparr>ls_closed := True, ls_peer := None\<rparr>)),
     os_setsockopt = (\<lambda>s l n v. if ls_closed s then (Inl OSError, s) else (Inr (), s)),
     os_getsockopt = (\<lambda>s l n. if ls_closed s then Inl OSError else Inr 65536),
     os_SOL_SOCKET = 1, os_SO_RCVBUF = 8, os_SO_LINGER = 13\<rparr>"

interpretation life: socket_life life_os ls_closed
  by unfold_locales (auto simp: life_os_def is_OSError_def split: if_splits)

section \<open>What the exercise sends\<close>

text \<open>Ten requests, each of a class a server knows and each within the limits of the specification.\<close>

definition test_pdus :: "int \<Rightarrow> int \<Rightarrow> pdu list" where
  "test_pdus addr count =
     (let zeros = replicate (nat count) 0
      in [BitsPdu (ModbusRequestFC1 addr 1), BitsPdu (ModbusRequestFC2 addr 1),
          RegistersPdu (ModbusRequestFC3 addr 1), RegistersPdu (ModbusRequestFC4 addr 1),
          BitsPdu (ModbusRequestFC5 addr 0), RegistersPdu (ModbusRequestFC6 addr 0),
          BitsPdu (ModbusRequestFC15 addr 1 1 [0]), RegistersPdu (ModbusRequestFC16 addr count (2 * count) zeros),
          RegistersPdu (ModbusRequestFC22 addr 0x55 0xAA),
          RegistersPdu (ModbusRequestFC23 addr count 0 count (2 * count) zeros)])"

lemma test_requests_pdus:
  assumes "1 \<le> count"
  shows "map client_pdu (test_requests addr count) = map Inr (test_pdus addr count)"
proof -
  obtain n where n: "nat count = Suc n" using assms by (cases "nat count") auto
  then have "count = int (Suc n)" by linarith
  then show ?thesis
    by (simp add: test_requests_def test_pdus_def default_args_def client_pdu_def normalize_values_def Let_def
        create_fc1_req_def create_fc2_req_def create_fc3_req_def create_fc4_req_def create_fc5_req_def
        create_fc6_req_def create_fc15_req_def create_fc16_req_def create_fc22_req_def create_fc23_req_def)
qed

lemma test_pdus_typed:
  assumes "0 \<le> addr" and "addr \<le> 0xFFFF" and "1 \<le> count" and "count \<le> 0x79" and "p \<in> set (test_pdus addr count)"
  shows "dyn_typed p"
  using assms
  by (auto simp: test_pdus_def Let_def typing_simps bits_cls_defs registers_cls_defs fits_def code_max_def,
      simp_all add: pdu_defs)

lemma test_pdus_conform:
  assumes "1 \<le> count" and "count \<le> 0x79" and "p \<in> set (test_pdus addr count)"
  shows "dyn_violations p = Inr []"
proof -
  note rules = pdu_violations_none pdu_defs int_attr_def pdu_fixed_count_def packet_fixed_count_def packet_finding_def
  have "map dyn_violations (test_pdus addr count) = replicate 10 (Inr [])"
    using assms(1,2)
    by (simp add: test_pdus_def Let_def rules numeral_eq_Suc
        ModbusRequestFC5_violations_def ModbusRequestFC15_violations_def ModbusRequestFC16_violations_def
        ModbusRequestFC23_violations_def)
  then show ?thesis using assms(3) by (metis in_set_replicate list.set_map imageI)
qed

lemma test_pdus_len:
  assumes "p \<in> set (test_pdus addr count)" and "1 \<le> count" and "count \<le> 0x79"
  shows "dyn_len p = Inr n \<Longrightarrow> n \<le> 65534"
  using assms
  by (simp add: test_pdus_def Let_def, elim disjE)
    (auto simp: bits_len_defs registers_len_defs bits_cls_defs registers_cls_defs res_simps struct_calcsize.simps
      fmt_raw.simps fmt_format.simps split: if_splits)

lemma test_pdus_size:
  assumes "p \<in> set (test_pdus addr count)" and "1 \<le> count" and "count \<le> 0x79"
  shows "wire_size p \<le> PY_SSIZE_T_MAX"
  using assms
  by (simp add: test_pdus_def Let_def, elim disjE)
    (simp_all add: typing_simps wire_size_def PY_SSIZE_T_MAX_def bits_cls_defs registers_cls_defs)

end
