(* ===== verification/Server.thy ===== *)
theory Server imports Server_Response begin

text \<open>
  The connection table of \<open>src/pyomb/simulators/server.py\<close>: who is connected, what is recorded
  about each connection, and the server thread's loop. Sockets are identities of type \<open>'c\<close>; what
  the operating system keeps of each one is \<open>sv_net\<close>, and \<open>sv_closed\<close> lists those that were
  closed. What \<open>select\<close>, \<open>srv.accept()\<close> and the TLS handshake return is the input of a pass. Time
  is a number of clock ticks. A pass, and a method another thread calls, is one step.
\<close>

section \<open>State\<close>

type_synonym peer = "string \<times> int"

record ('c, 's) ModbusServerSimulator =
  sv_host :: string
  sv_port :: int
  sv_handling :: "'s on_data_config"           \<comment> \<open>\<open>data_handler\<close>, \<open>delay\<close>, \<open>fail\<close>\<close>
  sv_frag_size :: int
  sv_frag_delay :: int
  sv_connection_limit :: int
  sv_inactive_timeout :: int
  sv_tls :: bool
  sv_process_connections :: bool
  sv_read_list :: "'c list"
  sv_clients :: "'c list"
  sv_peer_names :: "'c \<rightharpoonup> peer"
  sv_peercerts :: "'c \<rightharpoonup> string"
  sv_last_activity :: "'c \<rightharpoonup> int"             \<comment> \<open>the local of \<open>run\<close>, handed to the methods\<close>
  sv_last_print :: int                         \<comment> \<open>another local of \<open>run\<close>\<close>
  sv_new_connection :: bool
  sv_quit :: bool
  sv_started :: bool
  sv_startup_error :: "py_exc option"
  sv_net :: "'c \<Rightarrow> 's"
  sv_closed :: "'c list"

definition server_set_delay :: "int \<Rightarrow> ('c, 's) ModbusServerSimulator \<Rightarrow> ('c, 's) ModbusServerSimulator" where
  "server_set_delay delay self = self\<lparr>sv_handling := (sv_handling self)\<lparr>cfg_delay := delay\<rparr>\<rparr>"

definition server_set_connection_limit ::
  "int \<Rightarrow> ('c, 's) ModbusServerSimulator \<Rightarrow> ('c, 's) ModbusServerSimulator" where
  "server_set_connection_limit limit self = self\<lparr>sv_connection_limit := limit\<rparr>"

definition server_set_fail :: "bool \<Rightarrow> ('c, 's) ModbusServerSimulator \<Rightarrow> ('c, 's) ModbusServerSimulator" where
  "server_set_fail fail self = self\<lparr>sv_handling := (sv_handling self)\<lparr>cfg_fail := fail\<rparr>\<rparr>"

definition server_set_data_handler ::
  "'s data_handler option \<Rightarrow> ('c, 's) ModbusServerSimulator \<Rightarrow> ('c, 's) ModbusServerSimulator" where
  "server_set_data_handler h self = self\<lparr>sv_handling := (sv_handling self)\<lparr>cfg_handler := h\<rparr>\<rparr>"

definition server_stop :: "('c, 's) ModbusServerSimulator \<Rightarrow> ('c, 's) ModbusServerSimulator" where
  "server_stop self = self\<lparr>sv_quit := True\<rparr>"

section \<open>Dropping a connection\<close>

text \<open>Whatever \<open>unwrap\<close> and \<open>shutdown\<close> raise is swallowed, and the socket is closed.\<close>

definition server_disconnect :: "'c \<Rightarrow> ('c, 's) ModbusServerSimulator \<Rightarrow> ('c, 's) ModbusServerSimulator" where
  "server_disconnect sock self = self\<lparr>sv_closed := sock # sv_closed self\<rparr>"

definition server_forget :: "'c \<Rightarrow> ('c, 's) ModbusServerSimulator \<Rightarrow> ('c, 's) ModbusServerSimulator" where
  "server_forget conn self =
     (let self = server_disconnect conn self
      in self\<lparr>sv_read_list := (if conn \<in> set (sv_read_list self) then remove1 conn (sv_read_list self)
                              else sv_read_list self),
              sv_clients := (if conn \<in> set (sv_clients self) then remove1 conn (sv_clients self)
                             else sv_clients self),
              sv_peer_names := (sv_peer_names self)(conn := None),
              sv_peercerts := (sv_peercerts self)(conn := None),
              sv_last_activity := (sv_last_activity self)(conn := None)\<rparr>)"

section \<open>Taking one in\<close>

text \<open>
  \<open>wrap_socket\<close> takes the descriptor over from the socket it is given and, where the handshake
  fails, closes it: \<open>conn\<close> still names the emptied socket when the \<open>except\<close> clause has run.
\<close>

definition server_secure ::
  "('c \<Rightarrow> ('c \<times> string) pyres) \<Rightarrow> 'c \<Rightarrow> ('c, 's) ModbusServerSimulator \<Rightarrow>
     ('c \<times> ('c, 's) ModbusServerSimulator) pyres" where
  "server_secure wrap conn self =
     (if sv_tls self
      then (case wrap conn of
              Inr (conn', cert) \<Rightarrow> Inr (conn', self\<lparr>sv_peercerts := (sv_peercerts self)(conn' \<mapsto> cert)\<rparr>)
            | Inl e \<Rightarrow> if e = SSLError then Inr (conn, self\<lparr>sv_closed := conn # sv_closed self\<rparr>) else Inl e)
      else Inr (conn, self))"

definition server_record ::
  "'c \<Rightarrow> peer \<Rightarrow> int \<Rightarrow> ('c, 's) ModbusServerSimulator \<Rightarrow> ('c, 's) ModbusServerSimulator" where
  "server_record conn addr now self =
     (let self = self\<lparr>sv_peer_names := (sv_peer_names self)(conn \<mapsto> addr)\<rparr>;
          self = (if sv_process_connections self
                  then self\<lparr>sv_read_list := sv_read_list self @ [conn],
                            sv_last_activity := (sv_last_activity self)(conn \<mapsto> now)\<rparr>
                  else self)
      in self\<lparr>sv_clients := sv_clients self @ [conn], sv_new_connection := True\<rparr>)"

definition server_accept_connection ::
  "('c \<times> peer) pyres \<Rightarrow> ('c \<Rightarrow> ('c \<times> string) pyres) \<Rightarrow> int \<Rightarrow> ('c, 's) ModbusServerSimulator \<Rightarrow>
     unit pyres \<times> ('c, 's) ModbusServerSimulator" where
  "server_accept_connection accepted wrap now self =
     (let client_count = int (length (sv_read_list self)) - 1
      in if client_count \<ge> sv_connection_limit self
         then (case accepted of
                 Inl e \<Rightarrow> (Inl e, self)
               | Inr (refused, _) \<Rightarrow> (Inr (), self\<lparr>sv_closed := refused # sv_closed self\<rparr>))
         else (case accepted of
                 Inl e \<Rightarrow> (Inl e, self)
               | Inr (conn, addr) \<Rightarrow>
                   (case server_secure wrap conn self of
                      Inl e \<Rightarrow> (Inl e, self)
                    | Inr (conn', self') \<Rightarrow> (Inr (), server_record conn' addr now self'))))"

section \<open>Serving one\<close>

definition server_serve ::
  "registry \<Rightarrow> 's sock_ops \<Rightarrow> 'c \<Rightarrow> int \<Rightarrow> ('c, 's) ModbusServerSimulator \<Rightarrow>
     (unit pyres \<times> ('c, 's) ModbusServerSimulator) option" where
  "server_serve reg ops conn now self =
     (case tcp_receive ops \<lparr>ts_sock = sv_net self conn, ts_fragmenter = ModbusFragmenter,
             ts_frag_delay = sv_frag_delay self, ts_frag_size = sv_frag_size self, ts_burst = False\<rparr> of
        None \<Rightarrow> None
      | Some (r, stream) \<Rightarrow>
          (let self = self\<lparr>sv_net := (sv_net self)(conn := ts_sock stream)\<rparr>
           in case r of
                Inl e \<Rightarrow>
                  if is_OSError e \<or> is_ModbusBaseError e then Some (Inr (), server_forget conn self)
                  else Some (Inl e, self)
              | Inr data \<Rightarrow>
                  if data = [] then Some (Inr (), server_forget conn self)
                  else
                    (let self = self\<lparr>sv_last_activity := (sv_last_activity self)(conn \<mapsto> now)\<rparr>
                     in case on_data reg ops (sv_handling self) data (sv_net self conn) of
                          (answered, sock) \<Rightarrow>
                            (let self = self\<lparr>sv_net := (sv_net self)(conn := sock)\<rparr>
                             in case answered of
                                  Inr _ \<Rightarrow> Some (Inr (), self)
                                | Inl _ \<Rightarrow> Some (Inr (), server_forget conn self)))))"

section \<open>Closing what is silent\<close>

definition server_sweep_one ::
  "'c \<Rightarrow> int \<Rightarrow> 'c \<Rightarrow> ('c, 's) ModbusServerSimulator \<Rightarrow> ('c, 's) ModbusServerSimulator" where
  "server_sweep_one srv now conn self =
     (if conn = srv then self
      else case sv_last_activity self conn of
             None \<Rightarrow> self
           | Some last_seen \<Rightarrow>
               if last_seen + sv_inactive_timeout self < now then server_forget conn self else self)"

definition server_sweep_inactive ::
  "'c \<Rightarrow> int \<Rightarrow> ('c, 's) ModbusServerSimulator \<Rightarrow> ('c, 's) ModbusServerSimulator" where
  "server_sweep_inactive srv now self = fold (server_sweep_one srv now) (sv_read_list self) self"

section \<open>The loop of the server thread\<close>

text \<open>A closed socket has no descriptor: \<open>select\<close> refuses it, and so does \<open>getsockname\<close>.\<close>

record 'c pass_input =
  in_ready :: "'c list"
  in_now :: int
  in_accepted :: "('c \<times> peer) pyres"
  in_wrap :: "'c \<Rightarrow> ('c \<times> string) pyres"
  in_getpeername :: "'c \<Rightarrow> peer pyres"

fun server_serve_all ::
  "registry \<Rightarrow> 's sock_ops \<Rightarrow> 'c \<Rightarrow> int \<Rightarrow> 'c list \<Rightarrow> ('c, 's) ModbusServerSimulator \<Rightarrow>
     (unit pyres \<times> ('c, 's) ModbusServerSimulator) option" where
  "server_serve_all reg ops srv now [] self = Some (Inr (), self)"
| "server_serve_all reg ops srv now (conn # ready) self =
     (if conn = srv then server_serve_all reg ops srv now ready self
      else case server_serve reg ops conn now self of
             None \<Rightarrow> None
           | Some (Inl e, self') \<Rightarrow> Some (Inl e, self')
           | Some (Inr _, self') \<Rightarrow> server_serve_all reg ops srv now ready self')"

definition server_get_peers :: "('c \<Rightarrow> peer pyres) \<Rightarrow> ('c, 's) ModbusServerSimulator \<Rightarrow> peer list pyres" where
  "server_get_peers getpeername self = mapE getpeername (tl (sv_read_list self))"

text \<open>
  The status line, once a second; a clock tick is a microsecond. The line itself goes to the log,
  but it counts the peers, which asks each socket for its peer's name.
\<close>

definition SECOND :: int where
  "SECOND = 1000000"

definition server_print_status ::
  "'c pass_input \<Rightarrow> ('c, 's) ModbusServerSimulator \<Rightarrow> unit pyres \<times> ('c, 's) ModbusServerSimulator" where
  "server_print_status inp self =
     (if sv_last_print self + SECOND < in_now inp \<and> sv_process_connections self
      then (case server_get_peers (in_getpeername inp) self of
              Inl e \<Rightarrow> (Inl e, self)
            | Inr _ \<Rightarrow> (Inr (), self\<lparr>sv_last_print := in_now inp\<rparr>))
      else (Inr (), self))"

definition server_pass ::
  "registry \<Rightarrow> 's sock_ops \<Rightarrow> 'c \<Rightarrow> 'c pass_input \<Rightarrow> ('c, 's) ModbusServerSimulator \<Rightarrow>
     (unit pyres \<times> ('c, 's) ModbusServerSimulator) option" where
  "server_pass reg ops srv inp self =
     (if \<exists>conn\<in>set (sv_read_list self). conn \<in> set (sv_closed self) then Some (Inl ValueError, self)
      else case (if srv \<in> set (in_ready inp)
                 then server_accept_connection (in_accepted inp) (in_wrap inp) (in_now inp) self
                 else (Inr (), self)) of
             (Inl e, self') \<Rightarrow> Some (Inl e, self')
           | (Inr _, self') \<Rightarrow>
               (case server_serve_all reg ops srv (in_now inp) (in_ready inp) self' of
                  None \<Rightarrow> None
                | Some (Inl e, self'') \<Rightarrow> Some (Inl e, self'')
                | Some (Inr _, self'') \<Rightarrow>
                    Some (server_print_status inp (server_sweep_inactive srv (in_now inp) self''))))"

fun server_close_all :: "'c \<Rightarrow> 'c list \<Rightarrow> ('c, 's) ModbusServerSimulator \<Rightarrow> unit pyres \<times> ('c, 's) ModbusServerSimulator" where
  "server_close_all srv [] self = (Inr (), self)"
| "server_close_all srv (conn # conns) self =
     (if conn = srv then server_close_all srv conns self
      else if conn \<in> set (sv_closed self) then (Inl OSError, self)
      else server_close_all srv conns (server_disconnect conn self))"

definition server_close_listener :: "'c \<Rightarrow> ('c, 's) ModbusServerSimulator \<Rightarrow> unit pyres \<times> ('c, 's) ModbusServerSimulator" where
  "server_close_listener srv self =
     (case server_close_all srv (sv_read_list self) self of
        (Inl e, self') \<Rightarrow> (Inl e, self')
      | (Inr _, self') \<Rightarrow> (Inr (), self'\<lparr>sv_closed := srv # sv_closed self'\<rparr>))"

text \<open>
  The loop, over the inputs of its passes; another thread may change the server between two of
  them, which is the second component of an input. No input left is where the account of a run
  that goes on stops.
\<close>

fun server_run ::
  "registry \<Rightarrow> 's sock_ops \<Rightarrow> 'c \<Rightarrow>
     ('c pass_input \<times> (('c, 's) ModbusServerSimulator \<Rightarrow> ('c, 's) ModbusServerSimulator)) list \<Rightarrow>
     ('c, 's) ModbusServerSimulator \<Rightarrow> (unit pyres \<times> ('c, 's) ModbusServerSimulator) option" where
  "server_run reg ops srv inps self =
     (if sv_quit self
      then Some (case server_close_listener srv self of
                   (Inl e, self') \<Rightarrow> (Inl e, self')
                 | (Inr _, self') \<Rightarrow> (Inr (), self'\<lparr>sv_started := False\<rparr>))
      else case inps of
             [] \<Rightarrow> Some (Inr (), self)
           | (inp, meanwhile) # inps' \<Rightarrow>
               (case server_pass reg ops srv inp self of
                  None \<Rightarrow> None
                | Some (Inl e, self') \<Rightarrow> Some (Inl e, self')
                | Some (Inr _, self') \<Rightarrow> server_run reg ops srv inps' (meanwhile self')))"

section \<open>What other threads call\<close>

text \<open>\<open>dead\<close> holds of a connection whose \<open>setsockopt\<close> raises: its \<open>close\<close> is skipped.\<close>

definition server_reset :: "('c \<Rightarrow> bool) \<Rightarrow> ('c, 's) ModbusServerSimulator \<Rightarrow> ('c, 's) ModbusServerSimulator" where
  "server_reset dead self =
     (let self = self\<lparr>sv_closed := rev (filter (\<lambda>sock. \<not> dead sock) (sv_clients self)) @ sv_closed self\<rparr>;
          self = self\<lparr>sv_clients := []\<rparr>
      in server_stop self)"

text \<open>\<open>wait\<close> is what the server thread does while \<open>accept\<close> waits for it.\<close>

definition server_accept ::
  "(('c, 's) ModbusServerSimulator \<Rightarrow> ('c, 's) ModbusServerSimulator) \<Rightarrow> ('c, 's) ModbusServerSimulator \<Rightarrow>
     ('c option \<times> peer option) pyres \<times> ('c, 's) ModbusServerSimulator" where
  "server_accept wait self =
     (if sv_process_connections self then (Inl ModbusModeError, self)
      else
        (let self = (if length (sv_clients self) = 0 then wait (self\<lparr>sv_new_connection := False\<rparr>) else self)
         in case sv_clients self of
              [] \<Rightarrow> (Inr (None, None), self)
            | conn # _ \<Rightarrow>
                (let self = self\<lparr>sv_clients := remove1 conn (sv_clients self)\<rparr>
                 in (Inr (Some conn, sv_peer_names self conn), self))))"

section \<open>The table stays consistent\<close>

abbreviation sv_conns :: "('c, 's) ModbusServerSimulator \<Rightarrow> 'c list" where
  "sv_conns self \<equiv> tl (sv_read_list self)"

text \<open>
  The listener heads the read list; behind it are the connections, each once, and they are the ones
  with a time of last activity. Everyone recorded anywhere has a peer name, and a server that
  processes its connections keeps names for no one else; one that does not reads from none.
\<close>

definition server_ok :: "'c \<Rightarrow> ('c, 's) ModbusServerSimulator \<Rightarrow> bool" where
  "server_ok srv self =
     (sv_read_list self = srv # sv_conns self \<and> distinct (sv_read_list self) \<and>
      dom (sv_last_activity self) = set (sv_conns self) \<and> set (sv_conns self) \<subseteq> dom (sv_peer_names self) \<and>
      (if sv_process_connections self then dom (sv_peer_names self) = set (sv_conns self)
       else sv_conns self = []) \<and>
      srv \<notin> dom (sv_peer_names self) \<and> distinct (sv_clients self) \<and>
      set (sv_clients self) \<subseteq> dom (sv_peer_names self) \<and> dom (sv_peercerts self) \<subseteq> dom (sv_peer_names self))"

definition server_live :: "('c, 's) ModbusServerSimulator \<Rightarrow> bool" where
  "server_live self = (set (sv_read_list self) \<inter> set (sv_closed self) = {})"

text \<open>A socket the operating system has just made is none of those the server knows.\<close>

definition fresh_socket :: "('c, 's) ModbusServerSimulator \<Rightarrow> 'c \<Rightarrow> bool" where
  "fresh_socket self c =
     (c \<notin> set (sv_read_list self) \<and> c \<notin> dom (sv_peer_names self) \<and> c \<notin> set (sv_closed self))"

definition fresh_accepted ::
  "('c, 's) ModbusServerSimulator \<Rightarrow> ('c \<times> peer) pyres \<Rightarrow> ('c \<Rightarrow> ('c \<times> string) pyres) \<Rightarrow> bool" where
  "fresh_accepted self accepted wrap =
     (\<forall>c a. accepted = Inr (c, a) \<longrightarrow>
        fresh_socket self c \<and> (\<forall>c' cert. wrap c = Inr (c', cert) \<longrightarrow> fresh_socket self c'))"

lemma server_ok_same [simp]:
  "server_ok srv (self\<lparr>sv_closed := closed\<rparr>) = server_ok srv self"
  "server_ok srv (self\<lparr>sv_net := net\<rparr>) = server_ok srv self"
  "server_ok srv (self\<lparr>sv_handling := handling\<rparr>) = server_ok srv self"
  "server_ok srv (self\<lparr>sv_connection_limit := limit\<rparr>) = server_ok srv self"
  "server_ok srv (self\<lparr>sv_quit := quit\<rparr>) = server_ok srv self"
  "server_ok srv (self\<lparr>sv_new_connection := event\<rparr>) = server_ok srv self"
  "server_ok srv (self\<lparr>sv_last_print := time\<rparr>) = server_ok srv self"
  "server_ok srv (self\<lparr>sv_started := started\<rparr>) = server_ok srv self"
  by (simp_all add: server_ok_def)

lemma server_live_same [simp]:
  "server_live (self\<lparr>sv_last_print := time\<rparr>) = server_live self"
  "server_live (self\<lparr>sv_started := started\<rparr>) = server_live self"
  by (simp_all add: server_live_def)

lemma server_forget_simps [simp]:
  "sv_read_list (server_forget conn self) = remove1 conn (sv_read_list self)"
  "sv_clients (server_forget conn self) = remove1 conn (sv_clients self)"
  "sv_peer_names (server_forget conn self) = (sv_peer_names self)(conn := None)"
  "sv_peercerts (server_forget conn self) = (sv_peercerts self)(conn := None)"
  "sv_last_activity (server_forget conn self) = (sv_last_activity self)(conn := None)"
  "sv_closed (server_forget conn self) = conn # sv_closed self"
  "sv_process_connections (server_forget conn self) = sv_process_connections self"
  "sv_connection_limit (server_forget conn self) = sv_connection_limit self"
  "sv_inactive_timeout (server_forget conn self) = sv_inactive_timeout self"
  "sv_frag_size (server_forget conn self) = sv_frag_size self"
  "sv_net (server_forget conn self) = sv_net self"
  "sv_quit (server_forget conn self) = sv_quit self"
  by (simp_all add: server_forget_def server_disconnect_def Let_def remove1_idem)

lemma server_ok_listener: "server_ok srv self \<Longrightarrow> srv \<in> set (sv_read_list self)"
  by (metis server_ok_def list.set_intros(1))

lemma server_ok_conn:
  "server_ok srv self \<Longrightarrow> c \<in> set (sv_conns self) \<Longrightarrow> c \<in> set (sv_read_list self) \<and> c \<noteq> srv"
  by (metis server_ok_def list.set_intros(2) distinct.simps(2))

lemma server_ok_certs:
  assumes "server_ok srv self" and "sv_peercerts self x = Some y"
  shows "x \<in> dom (sv_peer_names self)" and "sv_process_connections self \<Longrightarrow> x \<in> set (sv_conns self)"
proof -
  have "dom (sv_peercerts self) \<subseteq> dom (sv_peer_names self)" using assms(1) by (simp only: server_ok_def)
  then show "x \<in> dom (sv_peer_names self)" using assms(2) by blast
  moreover assume "sv_process_connections self"
  ultimately show "x \<in> set (sv_conns self)" using assms(1) by (simp only: server_ok_def if_True)
qed

lemma server_forget_ok: "server_ok srv self \<Longrightarrow> conn \<noteq> srv \<Longrightarrow> server_ok srv (server_forget conn self)"
  using server_ok_certs [of srv self]
  by (cases "sv_read_list self") (auto simp: server_ok_def)

lemma server_forget_live:
  "server_ok srv self \<Longrightarrow> server_live self \<Longrightarrow> server_live (server_forget conn self)"
  by (auto simp: server_ok_def server_live_def dest: in_set_remove1 [THEN iffD1])

lemma server_forget_gone:
  "server_ok srv self \<Longrightarrow> conn \<notin> set (sv_read_list (server_forget conn self))"
  by (simp add: server_ok_def)

text \<open>Everything \<open>_accept\<close> can do to the table.\<close>

lemma server_accept_connection_effect:
  assumes "server_accept_connection accepted wrap now self = (r, self')" and "fresh_accepted self accepted wrap"
  obtains "self' = self"
  | c where "fresh_socket self c" and "self' = self\<lparr>sv_closed := c # sv_closed self\<rparr>"
  | c addr where "fresh_socket self c" and "self' = server_record c addr now self"
  | c addr cert where "fresh_socket self c"
      and "self' = server_record c addr now (self\<lparr>sv_peercerts := (sv_peercerts self)(c \<mapsto> cert)\<rparr>)"
  | c addr where "fresh_socket self c" and "sv_tls self" and "wrap c = Inl SSLError"
      and "self' = server_record c addr now (self\<lparr>sv_closed := c # sv_closed self\<rparr>)"
proof (cases accepted)
  case (Inl e)
  then show thesis using assms(1) that(1) by (simp add: server_accept_connection_def Let_def split: if_splits)
next
  case (Inr x)
  obtain c addr where x: "x = (c, addr)" by (rule prod.exhaust)
  have c: "fresh_socket self c" and c': "\<And>d cert. wrap c = Inr (d, cert) \<Longrightarrow> fresh_socket self d"
    using assms(2) by (simp_all add: fresh_accepted_def Inr x)
  show thesis
  proof (cases "sv_connection_limit self \<le> int (length (sv_read_list self)) - 1")
    case True
    then show thesis using assms(1) that(2) [OF c] by (simp add: server_accept_connection_def Let_def Inr x)
  next
    case room: False
    show thesis
    proof (cases "sv_tls self")
      case False
      then show thesis
        using room assms(1) that(3) [OF c, of addr]
        by (simp add: server_accept_connection_def server_secure_def Let_def Inr x)
    next
      case True
      then show thesis
        using room assms(1) that(1) that(4) [OF c', of _ _ addr] that(5) [OF c True, of addr]
        by (auto simp: server_accept_connection_def server_secure_def Let_def Inr x split: sum.splits if_splits)
    qed
  qed
qed

lemma server_record_simps [simp]:
  "sv_read_list (server_record c addr now self) =
     sv_read_list self @ (if sv_process_connections self then [c] else [])"
  "sv_last_activity (server_record c addr now self) =
     (if sv_process_connections self then (sv_last_activity self)(c \<mapsto> now) else sv_last_activity self)"
  "sv_peer_names (server_record c addr now self) = (sv_peer_names self)(c \<mapsto> addr)"
  "sv_peercerts (server_record c addr now self) = sv_peercerts self"
  "sv_clients (server_record c addr now self) = sv_clients self @ [c]"
  "sv_closed (server_record c addr now self) = sv_closed self"
  "sv_process_connections (server_record c addr now self) = sv_process_connections self"
  "sv_frag_size (server_record c addr now self) = sv_frag_size self"
  "sv_connection_limit (server_record c addr now self) = sv_connection_limit self"
  "sv_quit (server_record c addr now self) = sv_quit self"
  "sv_net (server_record c addr now self) = sv_net self"
  by (simp_all add: server_record_def Let_def)

lemma server_record_closed [simp]:
  "server_record c addr now (self\<lparr>sv_closed := closed\<rparr>) = (server_record c addr now self)\<lparr>sv_closed := closed\<rparr>"
  by (simp add: server_record_def Let_def)

lemma server_record_ok:
  assumes "server_ok srv self" and "fresh_socket self c"
  shows "server_ok srv (server_record c addr now self)"
    and "server_ok srv (server_record c addr now (self\<lparr>sv_peercerts := (sv_peercerts self)(c \<mapsto> cert)\<rparr>))"
proof -
  obtain conns where conns: "sv_read_list self = srv # conns"
    using assms(1) by (auto simp: server_ok_def)
  note certs = server_ok_certs [OF assms(1)]
  show "server_ok srv (server_record c addr now self)"
    "server_ok srv (server_record c addr now (self\<lparr>sv_peercerts := (sv_peercerts self)(c \<mapsto> cert)\<rparr>))"
    using assms by (auto simp: server_ok_def fresh_socket_def conns dest: certs)
qed

lemma server_accept_connection_ok:
  assumes "server_ok srv self" and "fresh_accepted self accepted wrap"
    and "server_accept_connection accepted wrap now self = (r, self')"
  shows "server_ok srv self'"
  by (rule server_accept_connection_effect [OF assms(3,2)]) (simp_all add: assms(1) server_record_ok)

text \<open>The handshakes a TLS server is asked for succeed.\<close>

definition handshakes_ok :: "('c, 's) ModbusServerSimulator \<Rightarrow> ('c \<Rightarrow> ('c \<times> string) pyres) \<Rightarrow> bool" where
  "handshakes_ok self wrap = (sv_tls self \<longrightarrow> (\<forall>c. \<exists>x. wrap c = Inr x))"

lemma server_accept_connection_live:
  assumes "server_live self" and "fresh_accepted self accepted wrap" and "handshakes_ok self wrap"
    and "server_accept_connection accepted wrap now self = (r, self')"
  shows "server_live self'"
proof (rule server_accept_connection_effect [OF assms(4,2)])
  fix c addr
  assume "sv_tls self" and "wrap c = Inl SSLError"
  then show ?thesis using assms(3) by (simp add: handshakes_ok_def) (metis sum.distinct(1))
qed (use assms(1) in \<open>auto simp: server_live_def fresh_socket_def\<close>)

lemma server_accept_connection_keeps:
  assumes "server_accept_connection accepted wrap now self = (r, self')" and "fresh_accepted self accepted wrap"
  shows "set (sv_read_list self) \<subseteq> set (sv_read_list self') \<and> sv_frag_size self' = sv_frag_size self \<and>
    sv_quit self' = sv_quit self \<and> sv_net self' = sv_net self"
  by (rule server_accept_connection_effect [OF assms]) auto

lemma server_accept_connection_returns:
  assumes "server_accept_connection (Inr x) wrap now self = (r, self')" and "handshakes_ok self wrap"
  shows "r = Inr ()"
  using assms
  by (auto simp: server_accept_connection_def server_secure_def handshakes_ok_def Let_def
      split: sum.splits if_splits prod.splits) (metis sum.distinct(1))+

text \<open>Everything \<open>_serve\<close> can do to the table.\<close>

lemma server_serve_effect:
  assumes "server_serve reg ops conn now self = Some (r, self')"
  obtains net where "\<And>c. c \<noteq> conn \<Longrightarrow> net c = sv_net self c"
    and "self' = self\<lparr>sv_net := net\<rparr> \<or> self' = server_forget conn (self\<lparr>sv_net := net\<rparr>) \<or>
         self' = self\<lparr>sv_net := net, sv_last_activity := (sv_last_activity self)(conn \<mapsto> now)\<rparr>"
proof -
  define net where "net = sv_net self'"
  have "(\<forall>c. c \<noteq> conn \<longrightarrow> net c = sv_net self c) \<and> (self' = self\<lparr>sv_net := net\<rparr> \<or>
      self' = server_forget conn (self\<lparr>sv_net := net\<rparr>) \<or>
      self' = self\<lparr>sv_net := net, sv_last_activity := (sv_last_activity self)(conn \<mapsto> now)\<rparr>)"
    using assms unfolding net_def
    by (auto simp: server_serve_def Let_def server_forget_def server_disconnect_def
        split: option.splits sum.splits if_splits prod.splits)
  then show thesis by (intro that [of net]) auto
qed

lemma server_serve_ok:
  assumes "server_ok srv self" and "conn \<in> set (sv_conns self)"
    and "server_serve reg ops conn now self = Some (r, self')"
  shows "server_ok srv self'"
proof -
  have "conn \<noteq> srv" using assms(1,2) by (metis server_ok_def distinct.simps(2))
  moreover have "server_ok srv (self\<lparr>sv_net := net, sv_last_activity := (sv_last_activity self)(conn \<mapsto> now)\<rparr>)" for net
    using assms(1,2) unfolding server_ok_def by (simp add: insert_absorb)
  ultimately show ?thesis
    using assms(3) by (elim server_serve_effect) (use assms(1) in \<open>auto intro!: server_forget_ok\<close>)
qed

lemma server_serve_live:
  assumes "server_ok srv self" and "server_live self" and "server_serve reg ops conn now self = Some (r, self')"
  shows "server_live self'"
proof -
  have "server_live (self\<lparr>sv_net := net\<rparr>)"
    and "server_live (self\<lparr>sv_net := net, sv_last_activity := m\<rparr>)" for net m
    using assms(2) by (simp_all add: server_live_def)
  with assms(3) show ?thesis
    by (elim server_serve_effect) (use assms(1) in \<open>auto intro!: server_forget_live\<close>)
qed

text \<open>Serving one connection touches nothing of another.\<close>

lemma server_serve_others:
  assumes "server_serve reg ops conn now self = Some (r, self')" and "c \<noteq> conn"
  shows "sv_net self' c = sv_net self c \<and> (c \<in> set (sv_read_list self') \<longleftrightarrow> c \<in> set (sv_read_list self)) \<and>
    sv_peer_names self' c = sv_peer_names self c \<and> sv_last_activity self' c = sv_last_activity self c \<and>
    (c \<in> set (sv_closed self') \<longleftrightarrow> c \<in> set (sv_closed self))"
  by (rule server_serve_effect [OF assms(1)]) (use assms(2) in auto)

lemma server_serve_ready:
  assumes "server_serve reg ops conn now self = Some (r, self')" and "conn \<notin> set ready"
    and "set ready \<subseteq> set (sv_read_list self)"
  shows "set ready \<subseteq> set (sv_read_list self')"
proof
  fix c
  assume "c \<in> set ready"
  then show "c \<in> set (sv_read_list self')" using assms(2,3) server_serve_others [OF assms(1), of c] by auto
qed

lemma server_serve_keeps:
  assumes "server_serve reg ops conn now self = Some (r, self')"
  shows "sv_frag_size self' = sv_frag_size self" and "sv_inactive_timeout self' = sv_inactive_timeout self"
    and "sv_quit self' = sv_quit self"
  by (rule server_serve_effect [OF assms]; auto)+

text \<open>The ready list of a pass names sockets \<open>select\<close> was given, each once.\<close>

definition input_ok :: "('c, 's) ModbusServerSimulator \<Rightarrow> 'c pass_input \<Rightarrow> bool" where
  "input_ok self inp =
     (distinct (in_ready inp) \<and> set (in_ready inp) \<subseteq> set (sv_read_list self) \<and>
      fresh_accepted self (in_accepted inp) (in_wrap inp))"

lemma server_serve_all_ok:
  assumes "server_ok srv self" and "distinct ready" and "set ready \<subseteq> set (sv_read_list self)"
    and "server_serve_all reg ops srv now ready self = Some (r, self')"
  shows "server_ok srv self' \<and> (server_live self \<longrightarrow> server_live self') \<and> sv_frag_size self' = sv_frag_size self"
  using assms
proof (induction ready arbitrary: self)
  case (Cons conn ready)
  show ?case
  proof (cases "conn = srv")
    case True
    then show ?thesis using Cons by simp
  next
    case False
    have conn: "conn \<in> set (sv_conns self)"
      using Cons.prems(1,3) False by (cases "sv_read_list self") (auto simp: server_ok_def)
    from Cons.prems(4) False obtain r1 self1 where serve: "server_serve reg ops conn now self = Some (r1, self1)"
      by (auto split: option.splits)
    have others: "set ready \<subseteq> set (sv_read_list self1)"
      using server_serve_ready [OF serve] Cons.prems(2,3) by simp
    note ok = server_serve_ok [OF Cons.prems(1) conn serve]
    note live = server_serve_live [OF Cons.prems(1) _ serve]
    show ?thesis
      using Cons.prems(2,4) Cons.IH [OF ok _ others] serve False ok live server_serve_keeps [OF serve]
      by (auto split: sum.splits)
  qed
qed simp

lemma server_sweep_one_ok:
  "server_ok srv self \<Longrightarrow> server_ok srv (server_sweep_one srv now conn self)"
  by (simp add: server_sweep_one_def server_forget_ok split: option.splits)

lemma server_sweep_one_live:
  "server_ok srv self \<Longrightarrow> server_live self \<Longrightarrow> server_live (server_sweep_one srv now conn self)"
  by (simp add: server_sweep_one_def server_forget_live split: option.splits)

lemma server_sweep_ok:
  assumes "server_ok srv self"
  shows "server_ok srv (fold (server_sweep_one srv now) conns self) \<and>
    (server_live self \<longrightarrow> server_live (fold (server_sweep_one srv now) conns self)) \<and>
    sv_frag_size (fold (server_sweep_one srv now) conns self) = sv_frag_size self"
  using assms
proof (induction conns arbitrary: self)
  case (Cons conn conns)
  have "sv_frag_size (server_sweep_one srv now conn self) = sv_frag_size self"
    by (simp add: server_sweep_one_def split: option.splits)
  then show ?case
    using Cons.IH [OF server_sweep_one_ok [OF Cons.prems, of now conn]] server_sweep_one_live [OF Cons.prems] by auto
qed simp

lemma server_sweep_one_keeps:
  "sv_quit (server_sweep_one srv now conn self) = sv_quit self"
  "sv_last_print (server_sweep_one srv now conn self) = sv_last_print self"
  "sv_process_connections (server_sweep_one srv now conn self) = sv_process_connections self"
  by (simp_all add: server_sweep_one_def server_forget_def server_disconnect_def Let_def split: option.splits)

lemma fold_keeps: "(\<And>x s. g (f x s) = g s) \<Longrightarrow> g (fold f xs s) = g s"
  by (induction xs arbitrary: s) simp_all

lemma server_sweep_keeps:
  "sv_quit (server_sweep_inactive srv now self) = sv_quit self"
  "sv_last_print (server_sweep_inactive srv now self) = sv_last_print self"
  "sv_process_connections (server_sweep_inactive srv now self) = sv_process_connections self"
  unfolding server_sweep_inactive_def by (rule fold_keeps, rule server_sweep_one_keeps)+

lemma server_print_status_state:
  assumes "server_print_status inp self = (r, self')"
  obtains t where "self' = self\<lparr>sv_last_print := t\<rparr>"
proof -
  have "self' = self\<lparr>sv_last_print := sv_last_print self\<rparr> \<or> self' = self\<lparr>sv_last_print := in_now inp\<rparr>"
    using assms by (auto simp: server_print_status_def split: if_splits sum.splits)
  then show thesis using that by blast
qed

lemma server_pass_ok:
  assumes "server_ok srv self" and "input_ok self inp" and "server_pass reg ops srv inp self = Some (r, self')"
  shows "server_ok srv self' \<and> (server_live self \<and> handshakes_ok self (in_wrap inp) \<longrightarrow> server_live self') \<and>
    sv_frag_size self' = sv_frag_size self"
proof (cases "\<exists>conn\<in>set (sv_read_list self). conn \<in> set (sv_closed self)")
  case True
  then show ?thesis using assms(1,3) by (simp add: server_pass_def)
next
  case False
  obtain r1 self1 where acc: "(if srv \<in> set (in_ready inp)
      then server_accept_connection (in_accepted inp) (in_wrap inp) (in_now inp) self else (Inr (), self)) = (r1, self1)"
    by fastforce
  have fresh: "fresh_accepted self (in_accepted inp) (in_wrap inp)" using assms(2) by (simp add: input_ok_def)
  have 1: "server_ok srv self1 \<and> (server_live self \<and> handshakes_ok self (in_wrap inp) \<longrightarrow> server_live self1) \<and> sv_frag_size self1 = sv_frag_size self \<and>
      set (sv_read_list self) \<subseteq> set (sv_read_list self1)"
    using acc assms(1) server_accept_connection_ok [OF assms(1) fresh]
      server_accept_connection_live [OF _ fresh, of "in_now inp"] server_accept_connection_keeps [OF _ fresh, of "in_now inp"]
    by (auto split: if_splits)
  have ready: "distinct (in_ready inp)" "set (in_ready inp) \<subseteq> set (sv_read_list self1)"
    using assms(2) 1 by (auto simp: input_ok_def)
  show ?thesis
  proof (cases r1)
    case (Inl e)
    then show ?thesis using assms(3) False acc 1 by (simp add: server_pass_def)
  next
    case (Inr u)
    then obtain r2 self2 where serve: "server_serve_all reg ops srv (in_now inp) (in_ready inp) self1 = Some (r2, self2)"
      using assms(3) False acc by (auto simp: server_pass_def split: option.splits)
    have 2: "server_ok srv self2 \<and> (server_live self1 \<longrightarrow> server_live self2) \<and> sv_frag_size self2 = sv_frag_size self1"
      using server_serve_all_ok [OF _ ready serve] 1 by blast
    obtain t where "self' = self2 \<or> self' = (server_sweep_inactive srv (in_now inp) self2)\<lparr>sv_last_print := t\<rparr>"
      using assms(3) False acc serve Inr server_print_status_state [of inp "server_sweep_inactive srv (in_now inp) self2"]
      by (auto simp: server_pass_def split: sum.splits)
    then show ?thesis
      using 1 2 server_sweep_ok [of srv self2] by (auto simp: server_sweep_inactive_def)
  qed
qed

section \<open>Reachable servers\<close>

text \<open>
  The server thread's passes and what other threads do between them. Fragment size and mode are
  fixed once the thread runs; a reset may come at any time.
\<close>

inductive server_step ::
  "registry \<Rightarrow> 's sock_ops \<Rightarrow> 'c \<Rightarrow> ('c, 's) ModbusServerSimulator \<Rightarrow> ('c, 's) ModbusServerSimulator \<Rightarrow> bool"
  for reg :: registry and ops :: "'s sock_ops" and srv :: 'c
where
  pass: "\<not> sv_quit self \<Longrightarrow> input_ok self inp \<Longrightarrow> server_pass reg ops srv inp self = Some (r, self') \<Longrightarrow>
    server_step reg ops srv self self'"
| accept: "server_accept id self = (r, self') \<Longrightarrow> server_step reg ops srv self self'"
| limit: "server_step reg ops srv self (server_set_connection_limit n self)"
| fail: "server_step reg ops srv self (server_set_fail b self)"
| delay: "server_step reg ops srv self (server_set_delay d self)"
| handler: "server_step reg ops srv self (server_set_data_handler h self)"
| reset: "server_step reg ops srv self (server_reset dead self)"
| stop: "server_step reg ops srv self (server_stop self)"

inductive_cases server_stepE [consumes 1, case_names pass accept limit fail delay handler reset stop]:
  "server_step reg ops srv self self'"

text \<open>The server thread just after its listener came up.\<close>

definition server_started :: "'c \<Rightarrow> ('c, 's) ModbusServerSimulator \<Rightarrow> bool" where
  "server_started srv self =
     (sv_read_list self = [srv] \<and> sv_clients self = [] \<and> sv_peer_names self = Map.empty \<and>
      sv_peercerts self = Map.empty \<and> sv_last_activity self = Map.empty \<and> sv_closed self = [])"

lemma server_started_ok: "server_started srv self \<Longrightarrow> server_ok srv self \<and> server_live self"
  by (simp add: server_started_def server_ok_def server_live_def)

lemma server_accept_ok:
  assumes "server_ok srv self" and "server_accept id self = (r, self')"
  shows "server_ok srv self'"
proof -
  have "server_ok srv (self\<lparr>sv_clients := tl (sv_clients self)\<rparr>)"
    using assms(1) by (cases "sv_clients self") (auto simp: server_ok_def)
  then show ?thesis
    using assms by (auto simp: server_accept_def Let_def split: if_splits list.splits)
qed

text \<open>A connection that is taken keeps its entries: no name and no certificate is ever dropped in that mode.\<close>

lemma server_accept_keeps_names:
  "server_accept id self = (Inr (Some c, a), self') \<Longrightarrow>
     sv_peer_names self' = sv_peer_names self \<and> sv_peercerts self' = sv_peercerts self \<and> c \<in> set (sv_clients self)"
  by (auto simp: server_accept_def Let_def split: if_splits list.splits)

lemma server_reset_ok: "server_ok srv self \<Longrightarrow> server_ok srv (server_reset dead self)"
  by (simp add: server_reset_def server_stop_def server_ok_def)

lemma server_step_ok:
  "server_step reg ops srv self self' \<Longrightarrow> server_ok srv self \<Longrightarrow> server_ok srv self'"
proof (induction rule: server_step.induct)
  case (pass self inp r self')
  show ?case using server_pass_ok [OF pass(4,2,3)] by simp
next
  case (accept self r self')
  show ?case by (rule server_accept_ok [OF accept(2,1)])
qed (simp_all add: server_set_connection_limit_def server_set_fail_def server_set_delay_def
    server_set_data_handler_def server_reset_ok server_stop_def)

text \<open>Nothing but a reset, or a handshake that fails, closes a socket the server thread still reads from.\<close>

lemma server_step_live:
  assumes "server_step reg ops srv self self'" and "server_ok srv self" and "server_live self"
  shows "server_live self' \<or> (\<exists>dead. self' = server_reset dead self) \<or> sv_tls self"
  using assms(1)
proof (cases rule: server_stepE)
  case (pass inp r)
  then show ?thesis using server_pass_ok [OF assms(2)] assms(3) by (auto simp: handshakes_ok_def)
next
  case (accept r)
  then show ?thesis using assms(3)
    by (auto simp: server_accept_def server_live_def Let_def split: if_splits list.splits)
qed (use assms(3) in \<open>auto simp: server_live_def server_set_connection_limit_def server_set_fail_def
    server_set_delay_def server_set_data_handler_def server_stop_def\<close>)

lemma server_reachable_ok:
  assumes "(server_step reg ops srv)\<^sup>*\<^sup>* self self'" and "server_started srv self"
  shows "server_ok srv self'"
  using assms(1)
proof (induction rule: rtranclp_induct)
  case base
  show ?case using server_started_ok [OF assms(2)] by simp
next
  case (step self1 self2)
  show ?case by (rule server_step_ok [OF step.hyps(2) step.IH])
qed

text \<open>The mode is what \<open>start\<close> set: no step changes it.\<close>

lemma server_accept_connection_mode:
  "server_accept_connection accepted wrap now self = (r, self') \<Longrightarrow> sv_process_connections self' = sv_process_connections self"
  by (auto simp: server_accept_connection_def server_secure_def Let_def split: sum.splits if_splits prod.splits)

lemma server_serve_all_mode:
  "server_serve_all reg ops srv now ready self = Some (r, self') \<Longrightarrow> sv_process_connections self' = sv_process_connections self"
proof (induction ready arbitrary: self)
  case (Cons conn ready)
  have "sv_process_connections self1 = sv_process_connections self"
    if "server_serve reg ops conn now self = Some (q, self1)" for q self1
    by (rule server_serve_effect [OF that]) auto
  with Cons show ?case by (auto split: if_splits option.splits sum.splits)
qed simp

lemma server_pass_mode:
  assumes "server_pass reg ops srv inp self = Some (r, self')"
  shows "sv_process_connections self' = sv_process_connections self"
proof -
  obtain r1 self1 where acc: "(if srv \<in> set (in_ready inp)
      then server_accept_connection (in_accepted inp) (in_wrap inp) (in_now inp) self else (Inr (), self)) = (r1, self1)"
    by fastforce
  then have 1: "sv_process_connections self1 = sv_process_connections self"
    using server_accept_connection_mode [of "in_accepted inp" "in_wrap inp" "in_now inp" self r1 self1] by (auto split: if_splits)
  have 2: "sv_process_connections self2 = sv_process_connections self"
    if "server_serve_all reg ops srv (in_now inp) (in_ready inp) self1 = Some (q, self2)" for q self2
    using server_serve_all_mode [OF that] 1 by simp
  have 3: "sv_process_connections self3 = sv_process_connections self2"
    if "server_print_status inp (server_sweep_inactive srv (in_now inp) self2) = (q, self3)" for q self2 self3
    by (rule server_print_status_state [OF that]) (simp add: server_sweep_keeps)
  consider "self' = self" | "self' = self1" | q where "server_serve_all reg ops srv (in_now inp) (in_ready inp) self1 = Some (q, self')"
    | self2 where "server_serve_all reg ops srv (in_now inp) (in_ready inp) self1 = Some (Inr (), self2)"
        and "server_print_status inp (server_sweep_inactive srv (in_now inp) self2) = (r, self')"
    using assms unfolding server_pass_def acc by (fastforce split: if_splits sum.splits option.splits)
  then show ?thesis
  proof cases
    case 3
    then show ?thesis by (rule 2)
  next
    case (4 self2)
    show ?thesis using 2 [OF 4(1)] 3 [OF 4(2)] by simp
  qed (use 1 in simp_all)
qed

lemma server_reachable_mode:
  "(server_step reg ops srv)\<^sup>*\<^sup>* self self' \<Longrightarrow> sv_process_connections self' = sv_process_connections self"
proof (induction rule: rtranclp_induct)
  case (step self1 self2)
  have "sv_process_connections self2 = sv_process_connections self1"
    using step.hyps(2)
  proof (cases rule: server_stepE)
    case (pass inp r)
    then show ?thesis by (intro server_pass_mode)
  next
    case (accept r)
    then show ?thesis by (auto simp: server_accept_def Let_def split: if_splits list.splits)
  qed (simp_all add: server_set_connection_limit_def server_set_fail_def server_set_delay_def
      server_set_data_handler_def server_reset_def server_stop_def Let_def)
  then show ?case using step.IH by simp
qed simp

section \<open>The timeout\<close>

text \<open>A sweep keeps exactly the connections heard from within the timeout.\<close>

definition silent :: "('c, 's) ModbusServerSimulator \<Rightarrow> int \<Rightarrow> 'c \<Rightarrow> bool" where
  "silent self now c =
     (case sv_last_activity self c of None \<Rightarrow> False | Some t \<Rightarrow> t + sv_inactive_timeout self < now)"

lemma server_sweep_one_eq:
  "conn \<noteq> srv \<Longrightarrow> server_sweep_one srv now conn self = (if silent self now conn then server_forget conn self else self)"
  by (simp add: server_sweep_one_def silent_def split: option.splits)

lemma silent_sweep_one:
  assumes "c \<noteq> conn"
  shows "silent (server_sweep_one srv now conn self) now' c = silent self now' c"
proof -
  have "sv_last_activity (server_sweep_one srv now conn self) c = sv_last_activity self c"
    and "sv_inactive_timeout (server_sweep_one srv now conn self) = sv_inactive_timeout self"
    using assms by (simp_all add: server_sweep_one_def split: option.splits)
  then show ?thesis by (simp add: silent_def split: option.split)
qed

lemma server_sweep_fold:
  assumes "distinct conns" and "srv \<notin> set conns"
  shows "sv_read_list (fold (server_sweep_one srv now) conns self) =
      fold remove1 (filter (silent self now) conns) (sv_read_list self) \<and>
    sv_closed (fold (server_sweep_one srv now) conns self) = rev (filter (silent self now) conns) @ sv_closed self"
  using assms
proof (induction conns arbitrary: self)
  case (Cons conn conns)
  define self1 where "self1 = server_sweep_one srv now conn self"
  have "filter (silent self1 now) conns = filter (silent self now) conns"
    using Cons.prems by (intro filter_cong refl) (auto simp: self1_def intro!: silent_sweep_one)
  then show ?case
    using Cons.IH [of self1] Cons.prems server_sweep_one_eq [of conn srv now self] by (auto simp: self1_def)
qed simp

lemma fold_remove1_filter:
  "distinct xs \<Longrightarrow> fold remove1 ys xs = filter (\<lambda>x. x \<notin> set ys) xs"
proof (induction ys arbitrary: xs)
  case (Cons y ys)
  then show ?case
    by (simp add: distinct_remove1_removeAll removeAll_filter_not_eq) (auto intro: filter_cong)
qed simp

lemma server_sweep_exact:
  assumes "server_ok srv self"
  shows "sv_read_list (server_sweep_inactive srv now self) =
      srv # filter (\<lambda>c. \<not> silent self now c) (sv_conns self) \<and>
    sv_closed (server_sweep_inactive srv now self) =
      rev (filter (silent self now) (sv_conns self)) @ sv_closed self"
proof -
  obtain conns where conns: "sv_read_list self = srv # conns" "distinct conns" "srv \<notin> set conns"
    using assms by (cases "sv_read_list self") (auto simp: server_ok_def)
  have "server_sweep_inactive srv now self = fold (server_sweep_one srv now) conns self"
    by (simp add: server_sweep_inactive_def conns(1) server_sweep_one_def)
  then show ?thesis
    using server_sweep_fold [OF conns(2,3), of now self] fold_remove1_filter [of "srv # conns"] conns
    by (auto intro: filter_cong)
qed

section \<open>No client stops the server\<close>

lemma receive_spec_raises: "raises_only is_ModbusBaseError (fst (receive_spec s))"
proof (cases "tcp_pdu_length (take HEADER_SIZE s)")
  case (Inl e)
  then have "is_ModbusPacketError e" using tcp_pdu_length_raises [of "take HEADER_SIZE s"] by simp
  then show ?thesis using Inl by (auto simp: receive_spec_header is_ModbusBaseError_def)
next
  case (Inr n)
  then show ?thesis by (auto simp: receive_spec_header is_ModbusBaseError_def)
qed

text \<open>The accept of a pass goes through: there is a connection to take, and TLS is agreed on.\<close>

definition accept_returns :: "('c, 's) ModbusServerSimulator \<Rightarrow> 'c pass_input \<Rightarrow> bool" where
  "accept_returns self inp = ((\<exists>x. in_accepted inp = Inr x) \<and> handshakes_ok self (in_wrap inp))"

text \<open>No connection was reset between \<open>select\<close> and the status line: each still knows its peer.\<close>

definition peers_answer :: "'c pass_input \<Rightarrow> bool" where
  "peers_answer inp = (\<forall>c. \<exists>x. in_getpeername inp c = Inr x)"

lemma server_print_status_returns:
  assumes "peers_answer inp"
  shows "\<exists>self'. server_print_status inp self = (Inr (), self')"
proof -
  have "\<exists>names. mapE (in_getpeername inp) conns = Inr names" for conns
  proof (induction conns)
    case (Cons c conns)
    obtain x where "in_getpeername inp c = Inr x" using assms unfolding peers_answer_def by blast
    with Cons show ?case by auto
  qed simp
  then obtain names where "server_get_peers (in_getpeername inp) self = Inr names"
    by (auto simp: server_get_peers_def)
  then show ?thesis by (simp add: server_print_status_def)
qed

text \<open>
  The sockets of a server have no time-out: a read of one that is stalled, which is half a frame from a peer
  that stays, never returns. Every other read does, and \<open>_serve\<close> catches whatever it raises.
\<close>

context blocking_socket begin

lemma server_serve_returns:
  assumes "0 \<le> sv_frag_size self" and "\<not> stalled inbox hung_up (sv_net self conn)"
  shows "\<exists>self'. server_serve reg ops conn now self = Some (Inr (), self')"
proof -
  define st where "st = \<lparr>ts_sock = sv_net self conn, ts_fragmenter = ModbusFragmenter,
    ts_frag_delay = sv_frag_delay self, ts_frag_size = sv_frag_size self, ts_burst = False\<rparr>"
  obtain s' where "tcp_receive ops st = Some (fst (receive_spec (inbox (ts_sock st))), st\<lparr>ts_sock := s'\<rparr>)"
    using receive_in_time [of st] assms by (auto simp: st_def stalled_def)
  then show ?thesis
    using receive_spec_raises [of "inbox (ts_sock st)"]
    by (cases "fst (receive_spec (inbox (ts_sock st)))")
      (auto simp: server_serve_def Let_def split: prod.splits sum.splits simp flip: st_def)
qed

lemma server_serve_stalls:
  assumes "0 \<le> sv_frag_size self" and "stalled inbox hung_up (sv_net self conn)"
  shows "server_serve reg ops conn now self = None"
  using assms by (simp add: server_serve_def stalled_def receive_stalls)

lemma server_serve_all_returns:
  assumes "0 \<le> sv_frag_size self" and "distinct ready"
  shows "if \<exists>c\<in>set ready - {srv}. stalled inbox hung_up (sv_net self c)
    then server_serve_all reg ops srv now ready self = None
    else \<exists>self'. server_serve_all reg ops srv now ready self = Some (Inr (), self')"
  using assms
proof (induction ready arbitrary: self)
  case (Cons conn ready)
  show ?case
  proof (cases "conn = srv \<or> stalled inbox hung_up (sv_net self conn)")
    case True
    then show ?thesis
      using Cons.IH [of self] Cons.prems server_serve_stalls [of self conn reg now] by (auto split: if_splits)
  next
    case False
    then obtain self1 where serve: "server_serve reg ops conn now self = Some (Inr (), self1)"
      using server_serve_returns [OF Cons.prems(1)] by blast
    have "sv_net self1 c = sv_net self c" if "c \<in> set ready - {srv}" for c
      using that Cons.prems(2) server_serve_others [OF serve, of c] by auto
    then have "(\<exists>c\<in>set (conn # ready) - {srv}. stalled inbox hung_up (sv_net self c)) \<longleftrightarrow>
        (\<exists>c\<in>set ready - {srv}. stalled inbox hung_up (sv_net self1 c))"
      using False by auto
    then show ?thesis
      using Cons.IH [of self1] Cons.prems False serve server_serve_keeps(1) [OF serve] by simp
  qed
qed simp

text \<open>So a pass whose accept and status line go through hangs where a readable connection is stalled, and only there.\<close>

lemma server_pass_returns:
  assumes "server_ok srv self" and "server_live self" and "input_ok self inp" and "accept_returns self inp"
    and "0 \<le> sv_frag_size self"
    and "peers_answer inp"
  shows "if \<exists>c\<in>set (in_ready inp) - {srv}. stalled inbox hung_up (sv_net self c)
    then server_pass reg ops srv inp self = None
    else \<exists>self'. server_pass reg ops srv inp self = Some (Inr (), self')"
proof -
  obtain r1 self1 where acc: "(if srv \<in> set (in_ready inp)
      then server_accept_connection (in_accepted inp) (in_wrap inp) (in_now inp) self else (Inr (), self)) = (r1, self1)"
    by fastforce
  have "r1 = Inr ()"
    using acc assms(4) server_accept_connection_returns [of _ "in_wrap inp" "in_now inp" self r1 self1]
    by (auto simp: accept_returns_def split: if_splits)
  moreover have kept: "sv_frag_size self1 = sv_frag_size self" "sv_net self1 = sv_net self"
    using acc assms(3) server_accept_connection_keeps [of "in_accepted inp" "in_wrap inp" "in_now inp" self r1 self1]
    by (auto simp: input_ok_def split: if_splits)
  ultimately have pass: "server_pass reg ops srv inp self =
      (case server_serve_all reg ops srv (in_now inp) (in_ready inp) self1 of
         None \<Rightarrow> None
       | Some (Inl e, self2) \<Rightarrow> Some (Inl e, self2)
       | Some (Inr _, self2) \<Rightarrow> Some (server_print_status inp (server_sweep_inactive srv (in_now inp) self2)))"
    using acc assms(2) by (auto simp: server_pass_def server_live_def)
  have "distinct (in_ready inp)" using assms(3) by (simp add: input_ok_def)
  note served = server_serve_all_returns [OF _ this, of self1 srv reg "in_now inp", unfolded kept, OF assms(5)]
  show ?thesis
    using served server_print_status_returns [OF assms(6)] unfolding pass by (auto split: if_splits)
qed

end

section \<open>Shutting down\<close>

lemma server_close_all_live:
  assumes "set conns \<inter> set (sv_closed self) = {}" and "distinct conns"
  shows "\<exists>closed. server_close_all srv conns self = (Inr (), self\<lparr>sv_closed := closed\<rparr>) \<and>
    set closed = (set conns - {srv}) \<union> set (sv_closed self)"
  using assms
proof (induction conns arbitrary: self)
  case Nil
  then show ?case by (intro exI [of _ "sv_closed self"]) simp
next
  case (Cons conn conns)
  then show ?case
    using Cons.IH [of self] Cons.IH [of "server_disconnect conn self"]
    by (cases "conn = srv") (auto simp: server_disconnect_def)
qed

text \<open>A stopped server closes every connection, then its listener.\<close>

lemma server_stop_closes:
  assumes "server_ok srv self" and "server_live self"
  shows "\<exists>self'. server_run reg ops srv inps (server_stop self) = Some (Inr (), self') \<and>
    set (sv_closed self') = set (sv_read_list self) \<union> set (sv_closed self)"
proof -
  have "srv \<in> set (sv_read_list self)" by (rule server_ok_listener [OF assms(1)])
  moreover obtain closed where "server_close_all srv (sv_read_list self) (server_stop self) =
      (Inr (), (server_stop self)\<lparr>sv_closed := closed\<rparr>)"
    and "set closed = (set (sv_read_list self) - {srv}) \<union> set (sv_closed self)"
    using server_close_all_live [of "sv_read_list self" "server_stop self" srv] assms
    by (auto simp: server_stop_def server_ok_def server_live_def)
  ultimately show ?thesis
    by (auto simp: server_run.simps server_close_listener_def server_stop_def)
qed

text \<open>One that was reset trips over the first connection it had closed, and leaves its listener open.\<close>

lemma server_close_all_raises:
  assumes "c \<in> set conns" and "c \<noteq> srv" and "c \<in> set (sv_closed self)"
  shows "\<exists>self'. server_close_all srv conns self = (Inl OSError, self') \<and>
    (srv \<in> set (sv_closed self') \<longleftrightarrow> srv \<in> set (sv_closed self))"
  using assms
proof (induction conns arbitrary: self)
  case (Cons conn conns)
  then show ?case
    using Cons.IH [of self] Cons.IH [of "server_disconnect conn self"]
    by (cases "conn = srv"; cases "conn \<in> set (sv_closed self)") (auto simp: server_disconnect_def)
qed simp

lemma server_reset_trips:
  assumes "server_ok srv self" and "server_live self" and "sv_process_connections self"
    and "c \<in> set (sv_clients self)" and "\<not> dead c"
  shows "\<exists>self'. server_run reg ops srv inps (server_reset dead self) = Some (Inl OSError, self') \<and>
    srv \<notin> set (sv_closed self')"
proof -
  define self1 where "self1 = server_reset dead self"
  have self1: "sv_read_list self1 = sv_read_list self" "sv_quit self1"
    "set (sv_closed self1) = {c \<in> set (sv_clients self). \<not> dead c} \<union> set (sv_closed self)"
    by (auto simp: self1_def server_reset_def server_stop_def Let_def)
  have "set (sv_clients self) \<subseteq> dom (sv_peer_names self)" using assms(1) by (simp only: server_ok_def)
  moreover have "dom (sv_peer_names self) = set (sv_conns self)"
    using assms(1,3) by (simp only: server_ok_def if_True)
  ultimately have clients: "set (sv_clients self) \<subseteq> set (sv_conns self)" "c \<in> set (sv_clients self)"
    using assms(4) by simp_all
  have c: "c \<in> set (sv_read_list self)" "c \<noteq> srv"
    using server_ok_conn [OF assms(1), of c] clients by auto
  have srv: "srv \<notin> set (sv_closed self1)"
    using assms(2) clients server_ok_listener [OF assms(1)] server_ok_conn [OF assms(1), of srv]
    by (auto simp: self1(3) server_live_def)
  obtain self' where "server_close_all srv (sv_read_list self) self1 = (Inl OSError, self')"
    and "srv \<notin> set (sv_closed self')"
    using server_close_all_raises [OF c, of self1] srv assms(4,5) self1(3) by auto
  then show ?thesis
    by (intro exI [of _ self']) (simp add: server_run.simps server_close_listener_def self1 flip: self1_def)
qed

section \<open>The connection limit\<close>

text \<open>Where the thread processes connections, accepting never takes the table beyond the limit.\<close>

lemma server_accept_connection_limit:
  assumes "server_ok srv self" and "server_accept_connection accepted wrap now self = (r, self')"
  shows "int (length (sv_conns self')) \<le> max (int (length (sv_conns self))) (sv_connection_limit self)"
proof -
  obtain conns where conns: "sv_read_list self = srv # conns" using assms(1) by (auto simp: server_ok_def)
  show ?thesis
    using assms(2) conns
    by (auto simp: server_accept_connection_def server_secure_def Let_def
        split: sum.splits if_splits prod.splits)
qed

text \<open>Where it does not, the read list holds the listener alone and the limit is never met.\<close>

lemma server_accept_connection_unlimited:
  assumes "server_ok srv self" and "\<not> sv_process_connections self" and "0 < sv_connection_limit self" and "\<not> sv_tls self"
  shows "server_accept_connection (Inr (c, addr)) wrap now self = (Inr (), server_record c addr now self)"
proof -
  have "sv_read_list self = [srv]" using assms(1,2) by (cases "sv_read_list self") (auto simp: server_ok_def)
  then show ?thesis using assms(3,4) by (simp add: server_accept_connection_def server_secure_def)
qed

section \<open>A handshake that fails\<close>

text \<open>
  The accept goes on with the emptied socket: the table gets an entry for it, and the next pass,
  whose \<open>select\<close> is handed a socket without a descriptor, raises.
\<close>

lemma server_tls_room:
  assumes "sv_tls self" and "int (length (sv_read_list self)) - 1 < sv_connection_limit self" and "wrap c = Inl SSLError"
  shows "server_accept_connection (Inr (c, addr)) wrap now self =
    (Inr (), (server_record c addr now self)\<lparr>sv_closed := c # sv_closed self\<rparr>)"
  using assms by (simp add: server_accept_connection_def server_secure_def)

lemma failed_handshake:
  assumes ok: "server_ok srv self" and live: "server_live self" and "sv_tls self" and "sv_process_connections self"
    and room: "int (length (sv_conns self)) < sv_connection_limit self" and "0 \<le> sv_inactive_timeout self"
    and inp: "in_ready inp = [srv]" "in_accepted inp = Inr (c, addr)" "in_wrap inp c = Inl SSLError"
    and fresh: "fresh_socket self c" and "\<not> sv_quit self"
  shows "\<exists>e self'. server_run reg ops srv ((inp, \<lambda>s. s) # (inp', meanwhile) # inps) self = Some (Inl e, self')"
proof -
  define self1 where "self1 = (server_record c addr (in_now inp) self)\<lparr>sv_closed := c # sv_closed self\<rparr>"
  define self2 where "self2 = server_sweep_inactive srv (in_now inp) self1"
  have ne: "sv_read_list self \<noteq> []" using server_ok_listener [OF ok] by auto
  then have "int (length (sv_read_list self)) - 1 < sv_connection_limit self"
    using room by (cases "sv_read_list self") simp_all
  from server_tls_room [where wrap = "in_wrap inp" and c = c, OF assms(3) this inp(3), of addr "in_now inp"]
  have acc: "server_accept_connection (Inr (c, addr)) (in_wrap inp) (in_now inp) self = (Inr (), self1)"
    by (simp add: self1_def)
  have pass: "server_pass reg ops srv inp self = Some (server_print_status inp self2)"
    using live inp acc by (auto simp: server_pass_def server_live_def self2_def)
  have ok1: "server_ok srv self1" unfolding self1_def by (simp add: server_record_ok [OF ok fresh])
  have "sv_inactive_timeout self1 = sv_inactive_timeout self" by (simp add: self1_def server_record_def Let_def)
  then have "\<not> silent self1 (in_now inp) c" using assms(4,6) by (simp add: silent_def self1_def)
  moreover have "c \<in> set (sv_conns self1)" using assms(4) ne by (simp add: self1_def)
  ultimately have "c \<in> set (sv_read_list self2)" and "c \<in> set (sv_closed self2)"
    using server_sweep_exact [OF ok1, of "in_now inp"] by (auto simp: self2_def self1_def)
  then have next_pass: "server_pass reg ops srv inp' (self2\<lparr>sv_last_print := t\<rparr>) = Some (Inl ValueError, self2\<lparr>sv_last_print := t\<rparr>)" for t
    by (auto simp: server_pass_def)
  have quit: "\<not> sv_quit self2"
    using assms(11) by (simp add: self2_def self1_def server_sweep_keeps)
  obtain r self3 where print: "server_print_status inp self2 = (r, self3)" by fastforce
  obtain t where "self3 = self2\<lparr>sv_last_print := t\<rparr>" by (rule server_print_status_state [OF print])
  then show ?thesis using next_pass [of t] pass print quit assms(11) by (cases r) simp_all
qed

section \<open>A peer that is reset\<close>

text \<open>
  The status line asks every connection for its peer, outside any \<open>try\<close>: a connection reset since
  \<open>select\<close> looked makes it raise, and the thread ends.
\<close>

lemma mapE_raises:
  assumes "x \<in> set xs" and "f x = Inl e" and "\<And>y d. f y = Inl d \<Longrightarrow> d = e"
  shows "mapE f xs = Inl e"
  using assms(1)
proof (induction xs)
  case (Cons y ys)
  show ?case
  proof (cases "f y")
    case (Inl d)
    then show ?thesis using assms(3) [OF Inl] by simp
  next
    case (Inr z)
    then have "x \<in> set ys" using Cons.prems assms(2) by (cases "y = x") simp_all
    with Cons.IH show ?thesis by (simp add: Inr)
  qed
qed simp

lemma reset_peer:
  assumes ok: "server_ok srv self" and "server_live self" and "\<not> sv_quit self" and "sv_process_connections self"
    and "in_ready inp = []" and due: "sv_last_print self + SECOND < in_now inp"
    and "c \<in> set (sv_conns self)" and "\<not> silent self (in_now inp) c"
    and "in_getpeername inp c = Inl OSError" and "\<And>d e. in_getpeername inp d = Inl e \<Longrightarrow> e = OSError"
  shows "\<exists>self'. server_run reg ops srv ((inp, meanwhile) # inps) self = Some (Inl OSError, self')"
proof -
  define self1 where "self1 = server_sweep_inactive srv (in_now inp) self"
  have "\<not> (\<exists>conn\<in>set (sv_read_list self). conn \<in> set (sv_closed self))"
    using assms(2) by (auto simp: server_live_def)
  then have pass: "server_pass reg ops srv inp self = Some (server_print_status inp self1)"
    using assms(5) by (simp add: server_pass_def self1_def)
  have "sv_read_list self1 = srv # filter (\<lambda>c. \<not> silent self (in_now inp) c) (sv_conns self)"
    using server_sweep_exact [OF ok] by (simp only: self1_def)
  then have "c \<in> set (sv_conns self1)" using assms(7,8) by simp
  then have "server_get_peers (in_getpeername inp) self1 = Inl OSError"
    unfolding server_get_peers_def using assms(9,10) by (rule mapE_raises)
  then have "server_print_status inp self1 = (Inl OSError, self1)"
    using due assms(4) by (simp add: server_print_status_def self1_def server_sweep_keeps)
  then show ?thesis using pass assms(3) by simp
qed

end
