(* ===== verification/Server_Listener.thy ===== *)
theory Server_Listener imports Server Tls begin

text \<open>
  How a server comes up, in \<open>src/pyomb/simulators/server.py\<close>: its constructor, \<open>_open_listener\<close>, the
  thread's \<open>run\<close> around the loop of \<open>Server\<close>, and \<open>start\<close>, with which a caller waits for it. What the
  operating system answers when the listener is opened is an input, and so is what the caller sees
  each time it looks: whether the listener is up, whether the thread lives, and the time.
\<close>

section \<open>Construction\<close>

definition server_init ::
  "ssl_io \<Rightarrow> ('c \<Rightarrow> 's) \<Rightarrow> string \<Rightarrow> int \<Rightarrow> int \<Rightarrow> int \<Rightarrow> int \<Rightarrow> int \<Rightarrow> int \<Rightarrow> TlsSettings option \<Rightarrow>
     (('c, 's) ModbusServerSimulator \<times> relaxation list) pyres" where
  "server_init io net host port delay frag_size frag_delay limit inactive_timeout tls =
     bindE (case tls of
              None \<Rightarrow> Inr []
            | Some settings \<Rightarrow> bindE (tls_context io settings SERVER) (\<lambda>_. Inr (relaxations settings SERVER)))
       (\<lambda>warnings. Inr
         (\<lparr>sv_host = host, sv_port = simulator_port tls port,
           sv_handling = \<lparr>cfg_handler = None, cfg_delay = delay, cfg_fail = False\<rparr>,
           sv_frag_size = frag_size, sv_frag_delay = frag_delay, sv_connection_limit = limit,
           sv_inactive_timeout = inactive_timeout, sv_tls = (tls \<noteq> None), sv_process_connections = True,
           sv_read_list = [], sv_clients = [], sv_peer_names = Map.empty, sv_peercerts = Map.empty,
           sv_last_activity = Map.empty, sv_last_print = 0, sv_new_connection = False, sv_quit = False,
           sv_started = False, sv_startup_error = None, sv_net = net, sv_closed = []\<rparr>, warnings))"

section \<open>The listener\<close>

record 'c listen_input =
  li_sock :: 'c
  li_bind :: "string \<times> int \<Rightarrow> unit pyres"
  li_listen :: "int \<Rightarrow> unit pyres"
  li_port :: int                               \<comment> \<open>\<open>getsockname()[1]\<close>\<close>

definition server_open_listener ::
  "'c listen_input \<Rightarrow> ('c, 's) ModbusServerSimulator \<Rightarrow> 'c option pyres \<times> ('c, 's) ModbusServerSimulator" where
  "server_open_listener inp self =
     (let srv = li_sock inp
      in case li_bind inp (sv_host self, sv_port self) of
           Inl e \<Rightarrow>
             if is_OSError e
             then (Inr None, self\<lparr>sv_startup_error := Some e, sv_closed := srv # sv_closed self\<rparr>)
             else (Inl e, self)
         | Inr _ \<Rightarrow>
             (case li_listen inp (sv_connection_limit self) of
                Inl e \<Rightarrow> (Inl e, self)
              | Inr _ \<Rightarrow>
                  (let self = self\<lparr>sv_port := li_port inp\<rparr>
                   in (Inr (Some srv), self\<lparr>sv_read_list := sv_read_list self @ [srv]\<rparr>))))"

text \<open>\<open>run\<close>, whose loop and what follows it are \<open>server_run\<close>.\<close>

definition server_thread ::
  "registry \<Rightarrow> 's sock_ops \<Rightarrow> 'c listen_input \<Rightarrow> int \<Rightarrow>
     ('c pass_input \<times> (('c, 's) ModbusServerSimulator \<Rightarrow> ('c, 's) ModbusServerSimulator)) list \<Rightarrow>
     ('c, 's) ModbusServerSimulator \<Rightarrow> (unit pyres \<times> ('c, 's) ModbusServerSimulator) option" where
  "server_thread reg ops inp now inps self =
     (case server_open_listener inp self of
        (Inl e, self') \<Rightarrow> Some (Inl e, self')
      | (Inr None, self') \<Rightarrow> Some (Inr (), self')
      | (Inr (Some srv), self') \<Rightarrow>
          server_run reg ops srv inps
            (self'\<lparr>sv_last_activity := Map.empty, sv_last_print := now, sv_started := True\<rparr>))"

text \<open>What the server thread has done once its listener is up or is not.\<close>

definition thread_started :: "'c listen_input \<Rightarrow> int \<Rightarrow> ('c, 's) ModbusServerSimulator \<Rightarrow> ('c, 's) ModbusServerSimulator" where
  "thread_started li now self =
     (case server_open_listener li self of
        (Inr (Some srv), self') \<Rightarrow> self'\<lparr>sv_last_activity := Map.empty, sv_last_print := now, sv_started := True\<rparr>
      | (_, self') \<Rightarrow> self')"

section \<open>Waiting for it\<close>

record poll =
  po_started :: bool
  po_alive :: bool
  po_time :: int

text \<open>The \<open>while\<close> loop of \<open>start\<close>; \<open>None\<close> is a caller that still waits when the looks given run out.\<close>

fun start_wait :: "poll list \<Rightarrow> int \<Rightarrow> unit pyres option" where
  "start_wait [] deadline = None"
| "start_wait (p # ps) deadline =
     (if po_started p then Some (Inr ())
      else if \<not> po_alive p then Some (Inl ModbusNetworkError)
      else if po_time p \<ge> deadline then Some (Inl ModbusNetworkError)
      else start_wait ps deadline)"

text \<open>\<open>launched\<close> is what \<open>Thread.start\<close> does: it refuses a thread that was started before.\<close>

definition server_start ::
  "unit pyres \<Rightarrow> int \<Rightarrow> poll list \<Rightarrow> bool \<Rightarrow> int \<Rightarrow> ('c, 's) ModbusServerSimulator \<Rightarrow>
     unit pyres option \<times> ('c, 's) ModbusServerSimulator" where
  "server_start launched now polls process_connections timeout self =
     (let self = self\<lparr>sv_process_connections := process_connections, sv_startup_error := None\<rparr>
      in case launched of
           Inl e \<Rightarrow> (Some (Inl e), self)
         | Inr _ \<Rightarrow> (start_wait polls (now + timeout), self))"

definition STARTUP_TIMEOUT :: int where
  "STARTUP_TIMEOUT = 10 * SECOND"

text \<open>
  \<open>run_server\<close>, the console entry point: \<open>inps\<close> are the passes while it waits for the enter key, and in
  the pass \<open>final\<close> the key is pressed. \<open>join\<close> returns however the thread ended.
\<close>

definition run_server ::
  "ssl_io \<Rightarrow> ('c \<Rightarrow> 's) \<Rightarrow> 's sock_ops \<Rightarrow> unit pyres \<Rightarrow> poll list \<Rightarrow> 'c listen_input \<Rightarrow> int \<Rightarrow> 'c pass_input list \<Rightarrow> 'c pass_input \<Rightarrow>
     (unit pyres \<times> ('c, 's) ModbusServerSimulator option) option" where
  "run_server io net ops launched polls li now inps final =
     (case server_init io net [] 502 0 0 0 50 (60 * SECOND) None of
        Inl e \<Rightarrow> Some (Inl e, None)
      | Inr (self, _) \<Rightarrow>
          (case server_start launched now polls True STARTUP_TIMEOUT self of
             (None, _) \<Rightarrow> None
           | (Some (Inl e), self') \<Rightarrow> Some (Inl e, Some self')
           | (Some (Inr _), self') \<Rightarrow>
               (case server_thread default_registry ops li now (map (\<lambda>i. (i, id)) inps @ [(final, server_stop)]) self' of
                  None \<Rightarrow> None
                | Some (_, self'') \<Rightarrow> Some (Inr (), Some self''))))"

section \<open>What comes up\<close>

lemma server_init_Inr:
  assumes "server_init io net host port delay frag_size frag_delay limit inactive_timeout tls = Inr (self, warnings)"
  shows "sv_read_list self = []" and "sv_clients self = []" and "sv_peer_names self = Map.empty"
    and "sv_peercerts self = Map.empty" and "sv_closed self = []" and "\<not> sv_quit self" and "\<not> sv_started self"
    and "sv_frag_size self = frag_size" and "sv_tls self \<longleftrightarrow> tls \<noteq> None" and "sv_port self = simulator_port tls port"
    and "\<forall>settings. tls = Some settings \<longrightarrow> warnings = relaxations settings SERVER"
  using assms by (auto simp: server_init_def res_simps split: option.splits)

text \<open>A listener that binds puts a new server, in either mode, into a state the table's invariant starts from.\<close>

lemma server_opens:
  assumes "server_init io net host port delay frag_size frag_delay limit inactive_timeout tls = Inr (self, warnings)"
    and "server_start launched now polls process_connections timeout self = (r, self1)"
    and "server_open_listener inp self1 = (Inr (Some srv), self2)"
  shows "server_started srv (self2\<lparr>sv_last_activity := Map.empty, sv_last_print := now', sv_started := True\<rparr>)"
    and "srv = li_sock inp" and "sv_port self2 = li_port inp" and "sv_process_connections self2 = process_connections"
  using assms(2,3) server_init_Inr [OF assms(1)]
  by (auto simp: server_start_def server_open_listener_def server_started_def Let_def split: sum.splits if_splits)

text \<open>One that does not bind ends the thread with the reason recorded and the socket closed.\<close>

lemma server_bind_fails:
  assumes "li_bind inp (sv_host self, sv_port self) = Inl e" and "is_OSError e"
  shows "server_thread reg ops inp now inps self =
    Some (Inr (), self\<lparr>sv_startup_error := Some e, sv_closed := li_sock inp # sv_closed self\<rparr>)"
  using assms by (simp add: server_thread_def server_open_listener_def Let_def)

section \<open>What waiting returns\<close>

definition undecided :: "int \<Rightarrow> poll \<Rightarrow> bool" where
  "undecided deadline p = (\<not> po_started p \<and> po_alive p \<and> po_time p < deadline)"

lemma start_wait_append: "\<forall>p\<in>set ps. undecided deadline p \<Longrightarrow> start_wait (ps @ qs) deadline = start_wait qs deadline"
  by (induction ps) (simp_all add: undecided_def)

text \<open>The first look that decides: the listener is up, the thread is gone, or the time is.\<close>

lemma start_wait_decides:
  assumes "\<forall>p\<in>set ps. undecided deadline p" and "\<not> undecided deadline q"
  shows "start_wait (ps @ q # qs) deadline = Some (if po_started q then Inr () else Inl ModbusNetworkError)"
  unfolding start_wait_append [OF assms(1)] using assms(2) by (auto simp: undecided_def)

lemma start_wait_returns:
  assumes "q \<in> set polls" and "deadline \<le> po_time q"
  shows "\<exists>r. start_wait polls deadline = Some r"
  using assms by (induction polls) auto

lemma start_wait_Inr:
  "start_wait polls deadline = Some (Inr ()) \<Longrightarrow> \<exists>q\<in>set polls. po_started q"
  by (induction polls) (auto split: if_splits)

section \<open>A run from start to stop\<close>

text \<open>
  Inputs a run survives: in each pass, in the state the passes before it left, \<open>select\<close> and \<open>accept\<close> answer
  about the server's own sockets, a handshake succeeds, every peer can be named, and no readable connection
  is stalled on half a frame. Nothing is asked of how the pass itself goes.
\<close>

fun well_fed ::
  "registry \<Rightarrow> 's sock_ops \<Rightarrow> ('s \<Rightarrow> bytes) \<Rightarrow> ('s \<Rightarrow> bool) \<Rightarrow> 'c \<Rightarrow> 'c pass_input list \<Rightarrow> ('c, 's) ModbusServerSimulator \<Rightarrow> bool" where
  "well_fed reg ops inbox hung_up srv [] self = True"
| "well_fed reg ops inbox hung_up srv (inp # inps) self = (input_ok self inp \<and> accept_returns self inp \<and> peers_answer inp \<and>
     (\<forall>c\<in>set (in_ready inp) - {srv}. \<not> stalled inbox hung_up (sv_net self c)) \<and>
     (case server_pass reg ops srv inp self of
        Some (Inr _, self') \<Rightarrow> well_fed reg ops inbox hung_up srv inps self'
      | _ \<Rightarrow> True))"

text \<open>Down: no longer started, and everything it read from is closed, the listener included.\<close>

definition server_down :: "'c \<Rightarrow> ('c, 's) ModbusServerSimulator \<Rightarrow> bool" where
  "server_down srv self = (\<not> sv_started self \<and> srv \<in> set (sv_closed self) \<and> set (sv_read_list self) \<subseteq> set (sv_closed self))"

lemma server_quit_down:
  assumes "server_ok srv self" and "server_live self" and "sv_quit self"
  shows "\<exists>self'. server_run reg ops srv inps self = Some (Inr (), self') \<and> server_down srv self'"
proof -
  have "srv \<in> set (sv_read_list self)" by (rule server_ok_listener [OF assms(1)])
  moreover obtain closed where "server_close_all srv (sv_read_list self) self = (Inr (), self\<lparr>sv_closed := closed\<rparr>)"
    and "set closed = (set (sv_read_list self) - {srv}) \<union> set (sv_closed self)"
    using server_close_all_live [of "sv_read_list self" self srv] assms by (auto simp: server_ok_def server_live_def)
  ultimately show ?thesis
    using assms(3) by (auto simp: server_run.simps server_close_listener_def server_down_def)
qed

context blocking_socket begin

text \<open>A pass such a run survives ends normally, and leaves the server fed for the rest.\<close>

lemma server_pass_fed:
  assumes "server_ok srv self" and "server_live self" and "0 \<le> sv_frag_size self"
    and "well_fed reg ops inbox hung_up srv (inp # inps) self"
  obtains self1 where "server_pass reg ops srv inp self = Some (Inr (), self1)" and "server_ok srv self1"
    and "server_live self1" and "0 \<le> sv_frag_size self1" and "well_fed reg ops inbox hung_up srv inps self1"
proof -
  have fed: "input_ok self inp" "accept_returns self inp" "peers_answer inp"
    "\<not> (\<exists>c\<in>set (in_ready inp) - {srv}. stalled inbox hung_up (sv_net self c))"
    using assms(4) by auto
  obtain self1 where pass: "server_pass reg ops srv inp self = Some (Inr (), self1)"
    using server_pass_returns [OF assms(1,2) fed(1,2) assms(3) fed(3), of reg] fed(4) by auto
  have "handshakes_ok self (in_wrap inp)" using fed(2) by (simp add: accept_returns_def)
  then show thesis
    using server_pass_ok [OF assms(1) fed(1) pass] pass assms(2-4) by (intro that [OF pass]) simp_all
qed

lemma server_run_survives:
  assumes "server_ok srv self" and "server_live self" and "0 \<le> sv_frag_size self"
    and "well_fed reg ops inbox hung_up srv (inps @ [final]) self"
  shows "\<exists>self'. server_run reg ops srv (map (\<lambda>i. (i, id)) inps @ [(final, server_stop)]) self = Some (Inr (), self') \<and>
    server_down srv self'"
  using assms
proof (induction inps arbitrary: self)
  case Nil
  obtain self1 where pass: "server_pass reg ops srv final self = Some (Inr (), self1)" and "server_ok srv self1" "server_live self1"
    using server_pass_fed [OF Nil.prems [unfolded append_Nil]] by blast
  then have "server_ok srv (server_stop self1) \<and> server_live (server_stop self1) \<and> sv_quit (server_stop self1)"
    by (simp add: server_stop_def server_ok_def server_live_def)
  then show ?case
    using server_quit_down [of srv "server_stop self1" reg ops "[]"] server_quit_down [of srv self reg ops "[(final, server_stop)]"]
      Nil.prems(1,2) pass
    by (cases "sv_quit self") (auto simp: server_run.simps)
next
  case (Cons inp inps)
  obtain self1 where pass: "server_pass reg ops srv inp self = Some (Inr (), self1)"
    and "server_ok srv self1" "server_live self1" "0 \<le> sv_frag_size self1" "well_fed reg ops inbox hung_up srv (inps @ [final]) self1"
    by (rule server_pass_fed [OF Cons.prems(1-3) Cons.prems(4) [unfolded append_Cons]])
  then show ?case
    using Cons.IH [of self1] server_quit_down [of srv self reg ops "map (\<lambda>i. (i, id)) (inp # inps) @ [(final, server_stop)]"]
      Cons.prems(1-3) pass
    by (cases "sv_quit self") (auto simp: server_run.simps [of reg ops srv "_ # _"])
qed

lemma run_server_ends:
  assumes "server_init io net [] 502 0 0 0 50 (60 * SECOND) None = Inr (self0, warnings)"
    and "li_bind li ([], 502) = Inr ()" and "li_listen li 50 = Inr ()"
    and "start_wait polls (now + STARTUP_TIMEOUT) = Some (Inr ())"
    and "well_fed default_registry ops inbox hung_up (li_sock li) (inps @ [final])
      (thread_started li now (self0\<lparr>sv_process_connections := True, sv_startup_error := None\<rparr>))"
  shows "\<exists>self. run_server io net ops (Inr ()) polls li now inps final = Some (Inr (), Some self) \<and> server_down (li_sock li) self"
proof -
  have self0: "sv_host self0 = []" "sv_port self0 = 502" "sv_connection_limit self0 = 50" "sv_frag_size self0 = 0"
    using assms(1) by (auto simp: server_init_def simulator_port_def)
  define self1 where "self1 = self0\<lparr>sv_process_connections := True, sv_startup_error := None\<rparr>"
  define self2 where "self2 = self1\<lparr>sv_port := li_port li, sv_read_list := sv_read_list self1 @ [li_sock li]\<rparr>"
  have listen: "server_open_listener li self1 = (Inr (Some (li_sock li)), self2)"
    using assms(2,3) self0 by (simp add: server_open_listener_def self1_def self2_def Let_def)
  define self3 where "self3 = self2\<lparr>sv_last_activity := Map.empty, sv_last_print := now, sv_started := True\<rparr>"
  have up: "thread_started li now self1 = self3" using listen by (simp add: thread_started_def self3_def)
  have started: "server_started (li_sock li) self3"
    using server_init_Inr [OF assms(1)] by (simp add: server_started_def self3_def self2_def self1_def)
  have "0 \<le> sv_frag_size self3" using self0 by (simp add: self3_def self2_def self1_def)
  from server_run_survives [OF _ _ this assms(5) [folded self1_def, unfolded up]] server_started_ok [OF started]
  obtain self where "server_run default_registry ops (li_sock li) (map (\<lambda>i. (i, id)) inps @ [(final, server_stop)]) self3 =
      Some (Inr (), self)" and "server_down (li_sock li) self"
    by blast
  moreover have "server_start (Inr ()) now polls True STARTUP_TIMEOUT self0 = (Some (Inr ()), self1)"
    using assms(4) by (simp add: server_start_def self1_def)
  ultimately show ?thesis
    using assms(1) listen by (intro exI [of _ self]) (simp add: run_server_def server_thread_def self3_def)
qed

end

end
