(* ===== verification/Packet_Text.thy ===== *)
theory Packet_Text imports Adu_Rtu Adu_Tcp Rtu_Framing begin

text \<open>
  What packets, findings and errors print as: the \<open>__str__\<close> and \<open>__repr__\<close> methods of \<open>pdu/common.py\<close>,
  \<open>adu/\<close>, \<open>transport/rtu.py\<close> and \<open>errors.py\<close>. These are the lines a log or a test report shows, and
  a reader takes a packet back from them: the text of a packet determines its fields.
\<close>

section \<open>Formatting\<close>

text \<open>\<open>f"{n:02d}"\<close>, where the sign counts, and \<open>f"{n:X}"\<close>.\<close>

definition dec02 :: "int \<Rightarrow> string" where
  "dec02 n = (if n < 0 then CHR ''-'' # pad_zero 1 (nat_string 10 (nat (- n)))
              else pad_zero 2 (nat_string 10 (nat n)))"

definition hex_string :: "int \<Rightarrow> string" where
  "hex_string n = (if n < 0 then CHR ''-'' # nat_string 16 (nat (- n)) else nat_string 16 (nat n))"

text \<open>\<open>s.join(xs)\<close>.\<close>

fun str_join :: "string \<Rightarrow> string list \<Rightarrow> string" where
  "str_join s [] = []"
| "str_join s [x] = x"
| "str_join s (x # xs) = x @ s @ str_join s xs"

text \<open>A tuple of integers; one item is marked by a comma of its own.\<close>

definition tuple_repr :: "int list \<Rightarrow> string" where
  "tuple_repr vs = ''('' @ (case vs of [v] \<Rightarrow> dec_string v @ '','' | _ \<Rightarrow> str_join '', '' (map dec_string vs)) @ '')''"

section \<open>Packets\<close>

definition pdu_str :: "pdu_self \<Rightarrow> string pyres" where
  "pdu_str self = bindE (pdu_data self) (\<lambda>d. Inr (''PDU: (FC: '' @ dec02 (self_fc self) @ '', Data: '' @ tuple_repr d @ '')''))"

definition ModbusError_str :: "int \<Rightarrow> int \<Rightarrow> string" where
  "ModbusError_str fc exc_code =
     ''ERROR: (Function Code: '' @ dec_string fc @ '', Exception Code: '' @ dec_string exc_code @ '')''"

fun dyn_str :: "pdu \<Rightarrow> string pyres" where
  "dyn_str (CommonPdu (ModbusError fc exc_code)) = Inr (ModbusError_str fc exc_code)"
| "dyn_str p = pdu_str (dyn_self p)"

definition ModbusHeader_str :: "ModbusHeader \<Rightarrow> string" where
  "ModbusHeader_str h = ''HEADER: (Trans-ID: '' @ dec_string (trans_id h) @ '', Prot-ID: '' @ dec_string (prot_id h) @
     '', Length: '' @ dec_string (hdr_length h) @ '', Unit-ID: '' @ dec_string (unit_id h) @ '')''"

definition tcp_str :: "string \<Rightarrow> tcp_adu \<Rightarrow> string pyres" where
  "tcp_str kind p = bindE (dyn_str (tcp_pdu p)) (\<lambda>t.
     Inr (''MODBUS TCP '' @ kind @ '' -> | '' @ ModbusHeader_str (tcp_header p) @ '' | '' @ t))"

definition ModbusTcpPacket_str :: "tcp_adu \<Rightarrow> string pyres" where
  "ModbusTcpPacket_str = tcp_str ''PCKT''"

definition ModbusTcpRequest_str :: "tcp_adu \<Rightarrow> string pyres" where
  "ModbusTcpRequest_str = tcp_str ''REQ''"

definition ModbusTcpResponse_str :: "tcp_adu \<Rightarrow> string pyres" where
  "ModbusTcpResponse_str = tcp_str ''RSP''"

definition rtu_str :: "string \<Rightarrow> rtu_adu \<Rightarrow> string pyres" where
  "rtu_str kind p = bindE (dyn_str (rtu_pdu p)) (\<lambda>t.
     Inr (''MODBUS RTU '' @ kind @ '': (Slave ID: '' @ dec_string (slave_id p) @ '', '' @ t @
       '', CRC: '' @ dec_string (crc p) @ '')''))"

definition ModbusRtuPacket_str :: "rtu_adu \<Rightarrow> string pyres" where
  "ModbusRtuPacket_str = rtu_str ''PCKT''"

definition ModbusRtuRequest_str :: "rtu_adu \<Rightarrow> string pyres" where
  "ModbusRtuRequest_str = rtu_str ''REQ''"

definition ModbusRtuResponse_str :: "rtu_adu \<Rightarrow> string pyres" where
  "ModbusRtuResponse_str = rtu_str ''RSP''"

definition splitter_str :: "ModbusRtuSplitter \<Rightarrow> string" where
  "splitter_str sp = ''MODBUS RTU SPLITTER: (Side: '' @ (case sp_side sp of REQUEST \<Rightarrow> ''request'' | RESPONSE \<Rightarrow> ''response'') @
     '', Pending: '' @ dec_string (int (splitter_pending sp)) @ '', Resyncs: '' @ dec_string (int (sp_resyncs sp)) @ '')''"

section \<open>Findings and errors\<close>

definition ModbusViolation_repr :: "ModbusViolation \<Rightarrow> string" where
  "ModbusViolation_repr v = ''ModbusViolation('' @ ModbusViolation_str v @ '')''"

definition violations_message :: "ModbusViolation list \<Rightarrow> string" where
  "violations_message found = str_join ''; '' (map ModbusViolation_str found)"

text \<open>\<open>ModbusBaseError.__str__\<close>, and the extended information a protocol error gives it.\<close>

definition error_str :: "string \<Rightarrow> string \<Rightarrow> string" where
  "error_str message extended_info =
     (if extended_info \<noteq> [] then message @ '' ('' @ extended_info @ '')'' else message)"

definition protocol_error_info :: "int \<Rightarrow> string" where
  "protocol_error_info code = ''Protocol Error Code 0x'' @ hex_string code"

section \<open>Printing numbers\<close>

lemma digit_chars:
  "digit_char 0 = CHR ''0''"
  "digit_char (Suc 0) = CHR ''1''"
  "digit_char 2 = CHR ''2''"
  "digit_char 3 = CHR ''3''"
  "digit_char 4 = CHR ''4''"
  "digit_char 5 = CHR ''5''"
  "digit_char 6 = CHR ''6''"
  "digit_char 7 = CHR ''7''"
  "digit_char 8 = CHR ''8''"
  "digit_char 9 = CHR ''9''"
  "digit_char 10 = CHR ''A''"
  "digit_char 11 = CHR ''B''"
  "digit_char 12 = CHR ''C''"
  "digit_char 13 = CHR ''D''"
  "digit_char 14 = CHR ''E''"
  "digit_char 15 = CHR ''F''"
  by code_simp+

lemmas printing = dec_string_def dec02_def hex04_def pad_zero_def nat_string_def nat_digits.simps digit_chars

section \<open>Numerals are read back\<close>

definition digit_of :: "char \<Rightarrow> nat" where
  "digit_of c = (if of_char c < (58 :: nat) then of_char c - 48 else of_char c - 55)"

definition text_nat :: "nat \<Rightarrow> string \<Rightarrow> nat" where
  "text_nat b s = foldl (\<lambda>a c. a * b + digit_of c) 0 s"

definition text_int :: "string \<Rightarrow> int" where
  "text_int s = (case s of [] \<Rightarrow> 0 | c # cs \<Rightarrow> if c = CHR ''-'' then - int (text_nat 10 cs) else int (text_nat 10 s))"

definition numerals :: "char set" where
  "numerals = set ''-0123456789''"

lemma nat_digits_less: "2 \<le> b \<Longrightarrow> d \<in> set (nat_digits b n) \<Longrightarrow> d < b"
  by (induction b n rule: nat_digits.induct) (subst (asm) (2) nat_digits.simps, auto split: if_splits)

lemma digit_of_char: "d < 16 \<Longrightarrow> digit_of (digit_char d) = d"
  by (auto simp: digit_of_def digit_char_def)

lemma text_nat_snoc: "text_nat b (s @ [c]) = text_nat b s * b + digit_of c"
  by (simp add: text_nat_def)

lemma text_nat_string: "2 \<le> b \<Longrightarrow> b \<le> 16 \<Longrightarrow> text_nat b (nat_string b n) = n"
proof (induction b n rule: nat_digits.induct)
  case (1 b n)
  show ?case
  proof (cases "n < b")
    case True
    then have "nat_digits b n = [n]" by (subst nat_digits.simps) simp
    then show ?thesis using True 1 by (simp add: nat_string_def text_nat_def digit_of_char)
  next
    case False
    then have "nat_digits b n = nat_digits b (n div b) @ [n mod b]" using 1 by (subst nat_digits.simps) simp
    then have "nat_string b n = nat_string b (n div b) @ [digit_char (n mod b)]" by (simp add: nat_string_def)
    moreover have "n mod b < 16" using 1(2,3) mod_less_divisor [of b n] by linarith
    ultimately show ?thesis using 1 False by (simp add: text_nat_snoc digit_of_char)
  qed
qed

lemma nat_string_ne [simp]: "nat_string b n \<noteq> []"
  by (simp add: nat_string_def nat_digits.simps [of b n])

lemma digit_char_numeral:
  assumes "d < 10"
  shows "digit_char d \<in> numerals - {CHR ''-''}"
proof -
  have "list_all (\<lambda>d. digit_char d \<in> numerals - {CHR ''-''}) [0..<10]" by code_simp
  then show ?thesis using assms by (simp add: list_all_iff)
qed

lemma nat_string_numerals: "set (nat_string 10 n) \<subseteq> numerals - {CHR ''-''}"
  using nat_digits_less [of 10 _ n] digit_char_numeral unfolding nat_string_def by auto

lemma pad_zero_numerals: "set (pad_zero w (nat_string 10 n)) \<subseteq> numerals - {CHR ''-''}"
  using nat_string_numerals [of n] by (auto simp: pad_zero_def numerals_def)

lemma text_nat_pad: "text_nat b (pad_zero w s) = text_nat b s"
proof -
  have "text_nat b (replicate k (CHR ''0'') @ s) = text_nat b s" for k
    by (induction k) (simp_all add: text_nat_def digit_of_def)
  then show ?thesis by (simp add: pad_zero_def)
qed

lemma text_int_unsigned: "s \<noteq> [] \<Longrightarrow> set s \<subseteq> numerals - {CHR ''-''} \<Longrightarrow> text_int s = int (text_nat 10 s)"
  by (auto simp: text_int_def split: list.splits)

lemma pad_zero_ne [simp]: "pad_zero w (nat_string b n) \<noteq> []"
  by (simp add: pad_zero_def)

lemma text_int_dec [simp]: "text_int (dec_string n) = n"
  using text_int_unsigned [OF _ nat_string_numerals [of "nat n"]]
  by (auto simp: dec_string_def text_nat_string text_int_def [of "CHR ''-'' # _"])

lemma text_int_dec02 [simp]: "text_int (dec02 n) = n"
  using text_int_unsigned [OF _ pad_zero_numerals [of 2 "nat n"]]
  by (auto simp: dec02_def text_nat_string text_nat_pad text_int_def [of "CHR ''-'' # _"])

lemma minus_numeral: "CHR ''-'' \<in> numerals"
  by (simp add: numerals_def)

lemma dec_numerals: "set (dec_string n) \<subseteq> numerals"
  using nat_string_numerals [of "nat n"] nat_string_numerals [of "nat (- n)"] minus_numeral by (auto simp: dec_string_def)

lemma dec02_numerals: "set (dec02 n) \<subseteq> numerals"
  using pad_zero_numerals [of 2 "nat n"] pad_zero_numerals [of 1 "nat (- n)"] minus_numeral by (auto simp: dec02_def)

section \<open>A text is read one way\<close>

lemma numeral_split:
  assumes "set a \<subseteq> numerals" and "set b \<subseteq> numerals" and "c \<notin> numerals" and "d \<notin> numerals"
  shows "a @ c # s = b @ d # t \<longleftrightarrow> a = b \<and> c = d \<and> s = t"
  using assms
proof (induction a arbitrary: b)
  case Nil
  then show ?case by (cases b) auto
next
  case (Cons x a)
  then show ?case by (cases b) auto
qed

lemma dec_split [simp]:
  assumes "c \<notin> numerals" and "d \<notin> numerals"
  shows "dec_string m @ c # s = dec_string n @ d # t \<longleftrightarrow> m = n \<and> c = d \<and> s = t"
    and "dec02 m @ c # s = dec02 n @ d # t \<longleftrightarrow> m = n \<and> c = d \<and> s = t"
  unfolding numeral_split [OF dec_numerals dec_numerals assms] numeral_split [OF dec02_numerals dec02_numerals assms]
  by (metis text_int_dec, metis text_int_dec02)

lemma dec_string_inj [simp]: "dec_string m = dec_string n \<longleftrightarrow> m = n"
  by (metis text_int_dec)

lemma not_numerals [simp]: "CHR '','' \<notin> numerals" "CHR '')'' \<notin> numerals" "CHR '' '' \<notin> numerals" "CHR '';'' \<notin> numerals"
  by (simp_all add: numerals_def)

lemma dec_head [simp]:
  assumes "c \<notin> numerals"
  shows "dec_string n @ s \<noteq> c # t" and "c # t \<noteq> dec_string n @ s"
proof -
  have "dec_string n \<noteq> []" by (simp add: dec_string_def)
  then obtain d ds where "dec_string n = d # ds" by (cases "dec_string n") auto
  moreover have "d \<in> numerals" using calculation dec_numerals [of n] by auto
  ultimately show "dec_string n @ s \<noteq> c # t" and "c # t \<noteq> dec_string n @ s" using assms by auto
qed

lemma join_split:
  "str_join '', '' (map dec_string (v # vs)) @ '')'' @ s = str_join '', '' (map dec_string (w # ws)) @ '')'' @ t \<longleftrightarrow>
     v # vs = w # ws \<and> s = t"
proof (induction vs arbitrary: v w ws)
  case Nil
  then show ?case by (cases ws) auto
next
  case (Cons x vs)
  then show ?case by (cases ws) auto
qed

lemma tuple_split [simp]: "tuple_repr vs @ s = tuple_repr ws @ t \<longleftrightarrow> vs = ws \<and> s = t"
  using join_split [of "hd vs" "tl vs" s "hd ws" "tl ws" t]
  by (cases vs; cases "tl vs"; cases ws; cases "tl ws") (auto simp: tuple_repr_def)

section \<open>A text determines the packet\<close>

text \<open>What of a PDU is printed: whether it is an exception response, the function code, and the payload.\<close>

fun shown :: "pdu \<Rightarrow> bool \<times> int \<times> int list" where
  "shown (CommonPdu (ModbusError fc exc_code)) = (True, fc, [exc_code])"
| "shown p = (False, self_fc (dyn_self p), (case pdu_data (dyn_self p) of Inl _ \<Rightarrow> [] | Inr d \<Rightarrow> d))"

definition shown_text :: "bool \<times> int \<times> int list \<Rightarrow> string" where
  "shown_text v = (case v of (err, fc, d) \<Rightarrow> if err then ModbusError_str fc (hd d)
     else ''PDU: (FC: '' @ dec02 fc @ '', Data: '' @ tuple_repr d @ '')'')"

lemma dyn_str_shown: "dyn_str p = Inr (shown_text (shown p))"
proof (cases p)
  case (CommonPdu q)
  then show ?thesis
    by (cases q) (simp_all add: pdu_str_def shown_text_def pdu_data_def seq_attr_def ModbusPdu_self_def ModbusPdu_cls_def)
next
  case (BitsPdu q)
  then show ?thesis by (cases q) (simp_all add: pdu_str_def shown_text_def)
next
  case (RegistersPdu q)
  then show ?thesis by (cases q) (simp_all add: pdu_str_def shown_text_def)
next
  case (DiagnosticsPdu q)
  then show ?thesis by (cases q) (simp_all add: pdu_str_def shown_text_def)
next
  case (EncapsulatedPdu q)
  then show ?thesis by (cases q) (simp_all add: pdu_str_def shown_text_def)
qed

lemma shown_error: "shown p = (True, fc, d) \<Longrightarrow> \<exists>exc_code. d = [exc_code]"
  by (cases p rule: shown.cases) auto

lemma shown_split: "shown_text (shown p) @ s = shown_text (shown q) @ t \<longleftrightarrow> shown p = shown q \<and> s = t"
proof -
  obtain e fc d e' fc' d' where v: "shown p = (e, fc, d)" "shown q = (e', fc', d')" by (metis prod_cases3)
  then show ?thesis
    using shown_error [of p fc d] shown_error [of q fc' d']
    by (cases e; cases e') (auto simp: shown_text_def ModbusError_str_def)
qed

lemma header_split: "ModbusHeader_str h @ s = ModbusHeader_str k @ t \<longleftrightarrow> h = k \<and> s = t"
  by (auto simp: ModbusHeader_str_def)

text \<open>Packets of one class show all their fields.\<close>

lemma shown_inj:
  assumes "dyn_type p = dyn_type q" and "shown p = shown q"
  shows "p = q"
proof (cases p)
  case (CommonPdu a)
  then obtain b where "q = CommonPdu b" using assms(1) by (cases q) auto
  then show ?thesis using assms CommonPdu
    by (cases a; cases b) (simp_all add: pdu_data_def seq_attr_def ModbusPdu_self_def ModbusPdu_cls_def)
next
  case (BitsPdu a)
  then obtain b where "q = BitsPdu b" using assms(1) by (cases q) auto
  then show ?thesis using assms BitsPdu by (cases a; cases b) simp_all
next
  case (RegistersPdu a)
  then obtain b where "q = RegistersPdu b" using assms(1) by (cases q) auto
  then show ?thesis using assms RegistersPdu by (cases a; cases b) simp_all
next
  case (DiagnosticsPdu a)
  then obtain b where "q = DiagnosticsPdu b" using assms(1) by (cases q) auto
  then show ?thesis using assms DiagnosticsPdu by (cases a; cases b) simp_all
next
  case (EncapsulatedPdu a)
  then obtain b where "q = EncapsulatedPdu b" using assms(1) by (cases q) auto
  then show ?thesis using assms EncapsulatedPdu by (cases a; cases b) simp_all
qed

lemma tcp_str_determines:
  assumes "tcp_str kind p = Inr t" and "tcp_str kind q = Inr t" and "dyn_type (tcp_pdu p) = dyn_type (tcp_pdu q)"
  shows "p = q"
proof -
  have "ModbusHeader_str (tcp_header p) @ '' | '' @ shown_text (shown (tcp_pdu p)) =
      ModbusHeader_str (tcp_header q) @ '' | '' @ shown_text (shown (tcp_pdu q))"
    using assms(1,2) by (auto simp: tcp_str_def dyn_str_shown)
  then have "tcp_header p = tcp_header q" "shown_text (shown (tcp_pdu p)) @ [] = shown_text (shown (tcp_pdu q)) @ []"
    unfolding header_split by simp_all
  then have "tcp_header p = tcp_header q" "tcp_pdu p = tcp_pdu q"
    using shown_inj [OF assms(3)] unfolding shown_split by simp_all
  then show ?thesis by simp
qed

lemma rtu_str_determines:
  assumes "rtu_str kind p = Inr t" and "rtu_str kind q = Inr t" and "dyn_type (rtu_pdu p) = dyn_type (rtu_pdu q)"
  shows "p = q"
proof -
  have "shown_text (shown (rtu_pdu p)) @ '', CRC: '' @ dec_string (crc p) @ '')'' =
      shown_text (shown (rtu_pdu q)) @ '', CRC: '' @ dec_string (crc q) @ '')''" and "slave_id p = slave_id q"
    using assms(1,2) by (auto simp: rtu_str_def dyn_str_shown)
  moreover from this have "crc p = crc q" "rtu_pdu p = rtu_pdu q"
    using shown_inj [OF assms(3)] unfolding shown_split by auto
  ultimately show ?thesis by simp
qed

section \<open>The wording of a finding\<close>

text \<open>The value a finding reports can be read off its text, for the packaged fields and rules.\<close>

lemma violation_value_shown:
  assumes "ModbusViolation_str v = ModbusViolation_str w" and "vio_source v = vio_source w" and "vio_field v = vio_field w"
  shows "v = w"
  using assms by (auto simp: ModbusViolation_str_def)

end
