(* ===== verification/Tcp_Capture.thy ===== *)
theory Tcp_Capture imports Tcp_Stream begin

text \<open>
  \<open>ModbusTcpSender\<close> and \<open>ModbusTcpReceiver\<close> of \<open>src/pyomb/transport/stream.py\<close>: sending a list of
  packets in one shot, and keeping every packet that arrives. Each runs under its own lock, so a
  run is one step here; another thread's \<open>stop()\<close> reaches a receiver between two messages, and
  the argument \<open>stop_at\<close> says before which one. The last section puts the two ends together.
\<close>

section \<open>The sender\<close>

record 's ModbusTcpSender =
  sd_packets :: "tcp_adu list"
  sd_frag_size :: int
  sd_frag_delay :: int
  sd_burst_mode :: bool
  sd_stream :: "'s ModbusTcpStream"
  sd_stopped :: bool

definition sender_init :: "'s \<Rightarrow> tcp_adu list \<Rightarrow> int \<Rightarrow> int \<Rightarrow> bool \<Rightarrow> 's ModbusTcpSender" where
  "sender_init sock packets frag_size frag_delay burst_mode =
     \<lparr>sd_packets = packets, sd_frag_size = frag_size, sd_frag_delay = frag_delay, sd_burst_mode = burst_mode,
      sd_stream = \<lparr>ts_sock = sock, ts_fragmenter = ModbusFragmenter, ts_frag_delay = frag_delay,
                   ts_frag_size = frag_size, ts_burst = burst_mode\<rparr>,
      sd_stopped = False\<rparr>"

definition sender_set_frag_size :: "'s ModbusTcpSender \<Rightarrow> int \<Rightarrow> 's ModbusTcpSender" where
  "sender_set_frag_size self v = self\<lparr>sd_frag_size := v\<rparr>"

definition sender_set_frag_delay :: "'s ModbusTcpSender \<Rightarrow> int \<Rightarrow> 's ModbusTcpSender" where
  "sender_set_frag_delay self v = self\<lparr>sd_frag_delay := v\<rparr>"

definition sender_set_burst_mode :: "'s ModbusTcpSender \<Rightarrow> bool \<Rightarrow> 's ModbusTcpSender" where
  "sender_set_burst_mode self v = self\<lparr>sd_burst_mode := v\<rparr>"

definition sender_stop :: "'s ModbusTcpSender \<Rightarrow> 's ModbusTcpSender" where
  "sender_stop self = self\<lparr>sd_stopped := True\<rparr>"

text \<open>
  One packet: its length field is set from its PDU, then it is serialized and sent. The packets
  are the caller's objects, so the loop gives back what it left in them.
\<close>

definition set_length :: "tcp_adu \<Rightarrow> int \<Rightarrow> tcp_adu" where
  "set_length packet n = packet\<lparr>tcp_header := (tcp_header packet)\<lparr>hdr_length := n\<rparr>\<rparr>"

fun sender_loop ::
  "'s sock_ops \<Rightarrow> 's ModbusTcpStream \<Rightarrow> tcp_adu list \<Rightarrow> unit pyres \<times> 's ModbusTcpStream \<times> tcp_adu list" where
  "sender_loop ops st [] = (Inr (), st, [])"
| "sender_loop ops st (packet # packets) =
     (case dyn_len (tcp_pdu packet) of
        Inl e \<Rightarrow> (Inl e, st, packet # packets)
      | Inr n \<Rightarrow>
          (let packet' = set_length packet (n + 1)
           in case ModbusTcpPacket_serialize packet' of
                Inl e \<Rightarrow> (Inl e, st, packet' # packets)
              | Inr message \<Rightarrow>
                  (case tcp_send ops st message of
                     (Inl e, st') \<Rightarrow> (Inl e, st', packet' # packets)
                   | (Inr _, st') \<Rightarrow>
                       (case sender_loop ops st' packets of (r, st'', rest) \<Rightarrow> (r, st'', packet' # rest)))))"

definition sender_run_once :: "'s sock_ops \<Rightarrow> 's ModbusTcpSender \<Rightarrow> unit pyres \<times> 's ModbusTcpSender" where
  "sender_run_once ops self =
     (if sd_stopped self then (Inr (), self)
      else let st = (sd_stream self)\<lparr>ts_frag_size := sd_frag_size self, ts_frag_delay := sd_frag_delay self,
                      ts_burst := sd_burst_mode self\<rparr>
           in case sender_loop ops st (sd_packets self) of (r, st', packets) \<Rightarrow>
                (r, self\<lparr>sd_stream := st', sd_packets := packets\<rparr>))"

section \<open>The receiver\<close>

record 's ModbusTcpReceiver =
  rc_frag_size :: int
  rc_stream :: "'s ModbusTcpStream"
  rc_stopped :: bool
  rc_packets :: "tcp_adu list"

definition receiver_init :: "'s \<Rightarrow> int \<Rightarrow> 's ModbusTcpReceiver" where
  "receiver_init sock frag_size =
     \<lparr>rc_frag_size = frag_size,
      rc_stream = \<lparr>ts_sock = sock, ts_fragmenter = ModbusFragmenter, ts_frag_delay = 0,
                   ts_frag_size = frag_size, ts_burst = False\<rparr>,
      rc_stopped = False, rc_packets = []\<rparr>"

definition receiver_set_frag_size :: "'s ModbusTcpReceiver \<Rightarrow> int \<Rightarrow> 's ModbusTcpReceiver" where
  "receiver_set_frag_size self v = self\<lparr>rc_frag_size := v\<rparr>"

definition receiver_stop :: "'s ModbusTcpReceiver \<Rightarrow> 's ModbusTcpReceiver" where
  "receiver_stop self = self\<lparr>rc_stopped := True\<rparr>"

partial_function (option) receiver_loop ::
  "'s sock_ops \<Rightarrow> nat option \<Rightarrow> nat \<Rightarrow> 's ModbusTcpReceiver \<Rightarrow> (unit pyres \<times> 's ModbusTcpReceiver) option" where
  "receiver_loop ops stop_at k self =
     (if stop_at = Some k then Some (Inr (), receiver_stop self)
      else case tcp_receive ops (rc_stream self) of
             None \<Rightarrow> None
           | Some (r, st) \<Rightarrow>
               (let self' = self\<lparr>rc_stream := st\<rparr>
                in case r of
                     Inl e \<Rightarrow> Some (Inl e, self')
                   | Inr message \<Rightarrow>
                       if message = [] then Some (Inr (), self')
                       else (case ModbusTcpPacket_deserialize message of
                               Inl e \<Rightarrow> Some (Inl e, self')
                             | Inr packet \<Rightarrow>
                                 receiver_loop ops stop_at (Suc k) (self'\<lparr>rc_packets := rc_packets self' @ [packet]\<rparr>))))"

definition receiver_run_once ::
  "'s sock_ops \<Rightarrow> nat option \<Rightarrow> 's ModbusTcpReceiver \<Rightarrow> (tcp_adu list pyres \<times> 's ModbusTcpReceiver) option" where
  "receiver_run_once ops stop_at self =
     (if rc_stopped self then Some (Inr (rc_packets self), self)
      else case receiver_loop ops stop_at 0
                  (self\<lparr>rc_stream := (rc_stream self)\<lparr>ts_frag_size := rc_frag_size self\<rparr>\<rparr>) of
             None \<Rightarrow> None
           | Some (r, self') \<Rightarrow> Some (bindE r (\<lambda>_. Inr (rc_packets self')), self'))"

section \<open>The messages a sender makes\<close>

definition sender_messages :: "tcp_adu list \<Rightarrow> bytes list pyres" where
  "sender_messages packets =
     mapE (\<lambda>p. bindE (dyn_len (tcp_pdu p)) (\<lambda>n. ModbusTcpPacket_serialize (set_length p (n + 1)))) packets"

text \<open>Each is a whole frame: it opens with a header whose length field is its own length.\<close>

lemma sender_message_frame:
  assumes "dyn_len (tcp_pdu p) = Inr n" and "ModbusTcpPacket_serialize (set_length p (n + 1)) = Inr m"
  shows "tcp_pdu_length (take HEADER_SIZE m) = Inr n" and "length m = HEADER_SIZE + nat n" and "0 < n"
    and "\<exists>q. ModbusTcpPacket_deserialize m = Inr q"
proof -
  define h where "h = (tcp_header p)\<lparr>hdr_length := n + 1\<rparr>"
  obtain hb pb where hb: "ModbusHeader_serialize h = Inr hb" and pb: "dyn_serialize (tcp_pdu p) = Inr pb"
    and m: "m = hb @ pb"
    using assms(2) by (auto simp: ModbusTcpPacket_serialize_Inr set_length_def h_def)
  have n: "n = int (length pb)" using dyn_ser_len [OF pb] assms(1) by simp
  have ne: "pb \<noteq> []" using dyn_serialize_hd [OF pb] by simp
  note len = header_ser_size [OF hb]
  have head: "ModbusHeader_deserialize (take HEADER_SIZE m) = Inr h"
    using header_des_ser [OF hb] by (simp add: m len)
  show "tcp_pdu_length (take HEADER_SIZE m) = Inr n"
    using head n by (simp add: tcp_pdu_length_def h_def)
  show "length m = HEADER_SIZE + nat n" using m len n by simp
  show "0 < n" using n ne by simp
  have "validate_mbap_length h m = Inr ()"
    using n len by (simp add: validate_mbap_length_def h_def m)
  moreover have "\<exists>q. ModbusPdu_deserialize (drop HEADER_SIZE m) = Inr q"
    using ModbusPdu_deserialize_total [of pb] ne dyn_serialize_bound [OF pb] by (simp add: m len)
  ultimately show "\<exists>q. ModbusTcpPacket_deserialize m = Inr q"
    using head by (auto simp: ModbusTcpPacket_deserialize_def)
qed

context greedy_socket begin

lemma sender_loop_sends:
  assumes "sender_messages packets = Inr ms" and "0 \<le> ts_frag_size st" and "0 \<le> ts_frag_delay st"
    and "ts_fragmenter st = ModbusFragmenter"
  shows "\<exists>s' packets'. sender_loop ops st packets = (Inr (), st\<lparr>ts_sock := s'\<rparr>, packets') \<and>
    outbox s' = outbox (ts_sock st) @ concat ms"
  using assms
proof (induction packets arbitrary: st ms)
  case Nil
  then show ?case by (intro exI [of _ "ts_sock st"]) (simp add: sender_messages_def)
next
  case (Cons p packets)
  obtain n m ms' where n: "dyn_len (tcp_pdu p) = Inr n"
    and m: "ModbusTcpPacket_serialize (set_length p (n + 1)) = Inr m"
    and ms': "sender_messages packets = Inr ms'" and ms: "ms = m # ms'"
    using Cons.prems(1) by (auto simp: sender_messages_def res_simps)
  obtain fs where fs: "fragment (ts_fragmenter st) m (ts_frag_size st) = Inr fs" "concat fs = m"
    using fragmenter.fragment_ok [OF Cons.prems(2)] Cons.prems(4) by auto
  obtain s where s: "tcp_send ops st m = (Inr (), st\<lparr>ts_sock := s\<rparr>)" and out: "outbox s = outbox (ts_sock st) @ m"
    using tcp_send_all [OF Cons.prems(3) fs] by blast
  obtain s' packets' where
    "sender_loop ops (st\<lparr>ts_sock := s\<rparr>) packets = (Inr (), st\<lparr>ts_sock := s'\<rparr>, packets')"
    and "outbox s' = outbox s @ concat ms'"
    using Cons.IH [OF ms', of "st\<lparr>ts_sock := s\<rparr>"] Cons.prems by auto
  then show ?case
    using n m s out by (intro exI [of _ s']) (simp add: ms)
qed

end

context byte_socket begin

lemma receiver_loop_captures:
  assumes "sender_messages packets = Inr ms" and "inbox (ts_sock (rc_stream self)) = concat ms"
    and "0 \<le> ts_frag_size (rc_stream self)" and "ts_fragmenter (rc_stream self) = ModbusFragmenter"
  shows "\<exists>s' qs. receiver_loop ops None k self =
      Some (Inr (), self\<lparr>rc_stream := (rc_stream self)\<lparr>ts_sock := s'\<rparr>, rc_packets := rc_packets self @ qs\<rparr>) \<and>
    list_all2 (\<lambda>q m. ModbusTcpPacket_serialize q = Inr m) qs ms"
  using assms
proof (induction packets arbitrary: self ms k)
  case Nil
  then have "inbox (ts_sock (rc_stream self)) = []" "ms = []" by (simp_all add: sender_messages_def)
  then obtain s' where "tcp_receive ops (rc_stream self) = Some (Inr [], (rc_stream self)\<lparr>ts_sock := s'\<rparr>)"
    using receive_refines [of "rc_stream self"] Nil.prems
    by (auto simp: receive_spec_header)
  then show ?case
    using \<open>ms = []\<close> by (subst receiver_loop.simps) (auto simp: Let_def)
next
  case (Cons p packets)
  obtain n m ms' where n: "dyn_len (tcp_pdu p) = Inr n"
    and m: "ModbusTcpPacket_serialize (set_length p (n + 1)) = Inr m"
    and ms': "sender_messages packets = Inr ms'" and ms: "ms = m # ms'"
    using Cons.prems(1) by (auto simp: sender_messages_def res_simps)
  note frame = sender_message_frame [OF n m]
  have "assemble (ts_fragmenter (rc_stream self)) = concat"
    using Cons.prems(4) by simp
  then obtain s where s: "tcp_receive ops (rc_stream self) = Some (Inr m, (rc_stream self)\<lparr>ts_sock := s\<rparr>)"
    and rest: "inbox s = concat ms'"
    using receive_refines [of "rc_stream self"] Cons.prems receive_spec_message [OF frame(1-3), of "concat ms'"]
    by (auto simp: ms)
  obtain q where q: "ModbusTcpPacket_deserialize m = Inr q" using frame(4) by blast
  define self' where "self' = self\<lparr>rc_stream := (rc_stream self)\<lparr>ts_sock := s\<rparr>, rc_packets := rc_packets self @ [q]\<rparr>"
  obtain s' qs where loop: "receiver_loop ops None (Suc k) self' =
      Some (Inr (), self'\<lparr>rc_stream := (rc_stream self')\<lparr>ts_sock := s'\<rparr>, rc_packets := rc_packets self' @ qs\<rparr>)"
    and qs: "list_all2 (\<lambda>q m. ModbusTcpPacket_serialize q = Inr m) qs ms'"
    using Cons.IH [OF ms', of self' "Suc k"] Cons.prems rest by (auto simp: self'_def)
  have "m \<noteq> []" using frame(2,3) by auto
  then have "receiver_loop ops None k self = receiver_loop ops None (Suc k) self'"
    using s q by (subst receiver_loop.simps) (simp add: Let_def self'_def)
  then show ?case
    using loop qs tcp_packet_ser_des [OF q]
    by (intro exI [of _ s'] exI [of _ "q # qs"]) (simp add: self'_def ms)
qed

end

end
