(* ===== verification/Examples.thy ===== *)
theory Examples imports Packet_Text Rtu_Stream Tcp_Capture begin

text \<open>
  The scripts of \<open>examples/\<close> that need nothing of the operating system, as they are read by someone who
  learns the library from them: each is a run that prints lines and ends, or raises. The two ends of the
  line in \<open>read_rtu_frames_off_a_port.py\<close> share two buffers, which are the state of both ports.
\<close>

section \<open>A script's run\<close>

text \<open>What was printed, and how it ended.\<close>

type_synonym 'a run = "string list \<times> 'a pyres"

definition say :: "string \<Rightarrow> unit run" where
  "say line = ([line], Inr ())"

definition call :: "'a pyres \<Rightarrow> 'a run" where
  "call r = ([], r)"

definition and_then :: "'a run \<Rightarrow> ('a \<Rightarrow> 'b run) \<Rightarrow> 'b run" where
  "and_then m f = (case m of (out, r) \<Rightarrow>
     (case r of Inl e \<Rightarrow> (out, Inl e) | Inr x \<Rightarrow> (case f x of (out', r') \<Rightarrow> (out @ out', r'))))"

fun each :: "('a \<Rightarrow> unit run) \<Rightarrow> 'a list \<Rightarrow> unit run" where
  "each f [] = ([], Inr ())"
| "each f (x # xs) = and_then (f x) (\<lambda>_. each f xs)"

definition ensure :: "bool \<Rightarrow> py_exc \<Rightarrow> unit run" where
  "ensure b e = call (if b then Inr () else Inl e)"

definition bool_string :: "bool \<Rightarrow> string" where
  "bool_string b = (if b then ''True'' else ''False'')"

section \<open>Hexadecimal\<close>

definition hex_digit :: "nat \<Rightarrow> char" where
  "hex_digit d = (if d < 10 then char_of (48 + d) else char_of (87 + d))"

definition byte_hex :: "byte \<Rightarrow> string" where
  "byte_hex b = [hex_digit (unat b div 16), hex_digit (unat b mod 16)]"

text \<open>\<open>bytes.hex(sep)\<close>, and \<open>bytes.fromhex\<close>, which skips white space between bytes.\<close>

definition bytes_hex :: "string \<Rightarrow> bytes \<Rightarrow> string" where
  "bytes_hex sep s = str_join sep (map byte_hex s)"

definition hex_value :: "char \<Rightarrow> nat option" where
  "hex_value c = (let k = of_char c in
     if 48 \<le> k \<and> k \<le> 57 then Some (k - 48)
     else if 97 \<le> k \<and> k \<le> 102 then Some (k - 87)
     else if 65 \<le> k \<and> k \<le> 70 then Some (k - 55)
     else None)"

definition ascii_space :: "char \<Rightarrow> bool" where
  "ascii_space c = (let k = (of_char c :: nat) in k = 32 \<or> 9 \<le> k \<and> k \<le> 13)"

fun bytes_fromhex :: "string \<Rightarrow> bytes pyres" where
  "bytes_fromhex [] = Inr []"
| "bytes_fromhex (a # s) =
     (if ascii_space a then bytes_fromhex s
      else case s of
             [] \<Rightarrow> Inl ValueError
           | b # t \<Rightarrow>
               (case (hex_value a, hex_value b) of
                  (Some hi, Some lo) \<Rightarrow> bindE (bytes_fromhex t) (\<lambda>bs. Inr (of_nat (16 * hi + lo) # bs))
                | _ \<Rightarrow> Inl ValueError))"

section \<open>\<open>serialize_a_request.py\<close>\<close>

definition read_coils :: "int \<Rightarrow> int \<Rightarrow> pdu" where
  "read_coils start_addr quantity = BitsPdu (ModbusRequestFC1 start_addr quantity)"

text \<open>\<open>ModbusHeader(unit_id=1, length=len(pdu) + 1)\<close>, around the PDU.\<close>

definition framed :: "pdu \<Rightarrow> tcp_adu pyres" where
  "framed pdu = bindE (dyn_len pdu) (\<lambda>n. Inr
     \<lparr>tcp_header = \<lparr>trans_id = 0, prot_id = 0, hdr_length = n + 1, unit_id = 1\<rparr>, tcp_pdu = pdu\<rparr>)"

definition serialize_a_request :: "unit run" where
  "serialize_a_request =
     and_then (call (framed (read_coils 0 1))) (\<lambda>packet.
     and_then (call (ModbusTcpRequest_serialize packet)) (\<lambda>frame.
     and_then (say (bytes_hex [] frame)) (\<lambda>_.
       say (dec_string (int (length frame)) @ '' bytes''))))"

section \<open>\<open>round_trip_a_packet.py\<close>\<close>

definition EXPECTED :: bytes where
  "EXPECTED = [0, 0, 0, 0, 0, 6, 1, 1, 0, 0, 0, 1]"

definition round_trip_a_packet :: "unit run" where
  "round_trip_a_packet =
     and_then (call (framed (read_coils 0 1))) (\<lambda>original.
     and_then (call (ModbusTcpRequest_serialize original)) (\<lambda>frame.
     and_then (call (ModbusTcpRequest_deserialize (parse_request default_registry) frame)) (\<lambda>restored.
     and_then (call (ModbusTcpRequest_serialize restored)) (\<lambda>again.
       let round_trips = (again = frame); matches_vector = (frame = EXPECTED)
       in and_then (call (ModbusTcpRequest_str restored)) (\<lambda>text.
          and_then (say text) (\<lambda>_.
          and_then (say (''round trip reproduces the frame: '' @ bool_string round_trips)) (\<lambda>_.
          and_then (say (''frame matches the written-out vector: '' @ bool_string matches_vector)) (\<lambda>_.
          and_then (ensure round_trips ValueError) (\<lambda>_.
            ensure matches_vector ValueError)))))))))"

section \<open>\<open>checksum_an_rtu_frame.py\<close>\<close>

definition PUBLISHED :: "string list" where
  "PUBLISHED = [''11 03 00 00 00 02 c6 9b'', ''01 04 02 ff ff b8 80'']"

definition walk_through :: "string \<Rightarrow> unit run" where
  "walk_through published =
     and_then (call (bytes_fromhex published)) (\<lambda>frame.
       let payload = drop_last CRC_SIZE frame; value = calc_crc16 payload
       in and_then (call (struct_pack CRC_FMT [value])) (\<lambda>on_the_wire.
          let built = payload @ on_the_wire
          in and_then (say (''payload    : '' @ bytes_hex '' '' payload)) (\<lambda>_.
             and_then (say (''crc value  : 0x'' @ hex04 value)) (\<lambda>_.
             and_then (say (''on the wire: '' @ bytes_hex '' '' on_the_wire)) (\<lambda>_.
             and_then (say (''full frame : '' @ bytes_hex '' '' built)) (\<lambda>_.
             and_then (say []) (\<lambda>_.
               ensure (built = frame) ValueError)))))))"

definition checksum_an_rtu_frame :: "unit run" where
  "checksum_an_rtu_frame =
     and_then (each walk_through PUBLISHED) (\<lambda>_.
       say (dec_string (int (length PUBLISHED)) @ '' frames match their published bytes''))"

section \<open>\<open>report_a_constraint_violation.py\<close>\<close>

definition read_registers :: "int \<Rightarrow> int \<Rightarrow> pdu" where
  "read_registers start_addr quantity = RegistersPdu (ModbusRequestFC3 start_addr quantity)"

definition report_a_constraint_violation :: "unit run" where
  "report_a_constraint_violation =
     and_then (call (dyn_violations (read_registers 0 125))) (\<lambda>none.
     and_then (say (''quantity=125 reports '' @ dec_string (int (length none)) @ '' violations'')) (\<lambda>_.
     and_then (call (dyn_violations (read_registers 0 126))) (\<lambda>found.
     and_then (each (\<lambda>f. and_then (say (ModbusViolation_str f)) (\<lambda>_.
        say (''  field='' @ vio_field f @ '' value='' @ dec_string (vio_value f)))) found) (\<lambda>_.
     and_then (call (dyn_serialize (read_registers 0 126))) (\<lambda>frame.
     and_then (say (''serialized anyway: '' @ bytes_hex [] frame)) (\<lambda>_.
       case packet_validate (dyn_violations (read_registers 0 126)) of
         Inl e \<Rightarrow> if is_ModbusPacketError e then say (''validate() raises: '' @ violations_message found) else call (Inl e)
       | Inr _ \<Rightarrow> call (Inr ())))))))"

section \<open>\<open>read_rtu_frames_off_a_port.py\<close>\<close>

definition FC3_REQUEST :: bytes where
  "FC3_REQUEST = [0x11, 0x03, 0x00, 0x6b, 0x00, 0x03, 0x76, 0x87]"

definition FC3_RESPONSE :: bytes where
  "FC3_RESPONSE = [0x11, 0x03, 0x06, 0xae, 0x41, 0x56, 0x52, 0x43, 0x40, 0x49, 0xad]"

record line =
  to_device :: bytes
  to_master :: bytes

text \<open>\<open>inbox[:size]\<close>, with what \<open>del inbox[:size]\<close> leaves.\<close>

definition cut_prefix :: "int \<Rightarrow> bytes \<Rightarrow> bytes \<times> bytes" where
  "cut_prefix k inbox =
     (let n = (if k < 0 then length inbox - nat (- k) else nat k) in (take n inbox, drop n inbox))"

definition device_port :: "line port_ops" where
  "device_port = \<lparr>
     port_read = (\<lambda>l k. case cut_prefix k (to_device l) of (chunk, rest) \<Rightarrow> (Inr chunk, l\<lparr>to_device := rest\<rparr>)),
     port_write = (\<lambda>l data. (Inr (int (length data)), l\<lparr>to_master := to_master l @ data\<rparr>))\<rparr>"

definition master_port :: "line port_ops" where
  "master_port = \<lparr>
     port_read = (\<lambda>l k. case cut_prefix k (to_master l) of (chunk, rest) \<Rightarrow> (Inr chunk, l\<lparr>to_master := rest\<rparr>)),
     port_write = (\<lambda>l data. (Inr (int (length data)), l\<lparr>to_device := to_device l @ data\<rparr>))\<rparr>"

text \<open>One end acts on the line as the other end left it.\<close>

definition on_line :: "line \<Rightarrow> line ModbusRtuStream \<Rightarrow> line ModbusRtuStream" where
  "on_line l st = st\<lparr>st_port := l\<rparr>"

text \<open>The exchange is the code's for any two frames; the script runs it on the published pair.\<close>

definition exchange_frames :: "bytes \<Rightarrow> bytes \<Rightarrow> (unit run) option" where
  "exchange_frames request response =
     (let empty = \<lparr>to_device = [], to_master = []\<rparr>;
          master = stream_init empty RESPONSE False;
          device = stream_init empty REQUEST False
      in case stream_send master_port master request of
           None \<Rightarrow> None
         | Some (Inl e, _) \<Rightarrow> Some ([], Inl e)
         | Some (Inr _, master) \<Rightarrow>
      (case stream_receive default_registry device_port (on_line (st_port master) device) of
           None \<Rightarrow> None
         | Some (Inl e, _) \<Rightarrow> Some ([], Inl e)
         | Some (Inr received, device) \<Rightarrow>
      (case bindE (ModbusRtuRequest_deserialize (parse_request default_registry) received True) ModbusRtuRequest_str of
           Inl e \<Rightarrow> Some ([], Inl e)
         | Inr read \<Rightarrow>
      (let out = [''device read : '' @ read]
       in case stream_send device_port device response of
           None \<Rightarrow> None
         | Some (Inl e, _) \<Rightarrow> Some (out, Inl e)
         | Some (Inr _, device) \<Rightarrow>
      (case stream_receive default_registry master_port (on_line (st_port device) master) of
           None \<Rightarrow> None
         | Some (Inl e, _) \<Rightarrow> Some (out, Inl e)
         | Some (Inr reply, master) \<Rightarrow> Some (and_then (out, Inr ()) (\<lambda>_.
             and_then (call (bindE (ModbusRtuResponse_deserialize (parse_response default_registry) reply True) ModbusRtuResponse_str)) (\<lambda>answer.
             and_then (say (''master read : '' @ answer)) (\<lambda>_.
             and_then (say (''on the wire : '' @ bytes_hex '' '' reply)) (\<lambda>_.
             and_then (ensure (reply = response) ValueError) (\<lambda>_.
               say ''the reply matches its published bytes'')))))))))))"

definition read_rtu_frames_off_a_port :: "(unit run) option" where
  "read_rtu_frames_off_a_port = exchange_frames FC3_REQUEST FC3_RESPONSE"

section \<open>\<open>capture_a_burst_of_packets.py\<close>\<close>

definition burst_packets :: "tcp_adu list pyres" where
  "burst_packets = mapE framed [read_coils 0 1, read_coils 8 16, read_registers 0 2]"

text \<open>
  \<open>peer\<close> is the accepted end of the connection, as what was sent on the other end leaves it once that
  end is closed. The \<open>finally\<close> clauses only close the sockets.
\<close>

definition capture_a_burst_of_packets ::
  "'s sock_ops \<Rightarrow> 't sock_ops \<Rightarrow> ('s \<Rightarrow> 't) \<Rightarrow> int \<Rightarrow> 's \<Rightarrow> unit run option" where
  "capture_a_burst_of_packets ops rops peer port sending =
     (let out = [''listening on port '' @ dec_string port]
      in case burst_packets of
           Inl e \<Rightarrow> Some (out, Inl e)
         | Inr packets \<Rightarrow>
      (case sender_run_once ops (sender_init sending packets 0 0 False) of
           (Inl e, _) \<Rightarrow> Some (out, Inl e)
         | (Inr _, sender) \<Rightarrow>
      (case receiver_run_once rops None (receiver_init (peer (ts_sock (sd_stream sender))) 0) of
           None \<Rightarrow> None
         | Some (Inl e, _) \<Rightarrow> Some (out, Inl e)
         | Some (Inr captured, _) \<Rightarrow> Some (and_then (out, Inr ()) (\<lambda>_.
             and_then (say (''sent '' @ dec_string (int (length packets)) @ '', captured '' @ dec_string (int (length captured)))) (\<lambda>_.
             and_then (each (\<lambda>p. and_then (call (ModbusTcpPacket_str p)) say) captured) (\<lambda>_.
               ensure (length captured = length packets) ValueError)))))))"

section \<open>Hexadecimal is read back\<close>

lemma hex_digit_facts:
  assumes "d < 16"
  shows "hex_value (hex_digit d) = Some d" and "\<not> ascii_space (hex_digit d)"
  using assms by (auto simp: hex_value_def hex_digit_def ascii_space_def Let_def)

lemma fromhex_byte: "bytes_fromhex (byte_hex b @ s) = bindE (bytes_fromhex s) (\<lambda>bs. Inr (b # bs))"
proof -
  have "unat b div 16 < 16" using unsigned_less [of b, where ?'a = nat] by (simp add: div_less_iff_less_mult)
  then have hi: "hex_value (hex_digit (unat b div 16)) = Some (unat b div 16)" "\<not> ascii_space (hex_digit (unat b div 16))"
    by (rule hex_digit_facts)+
  have lo: "hex_value (hex_digit (unat b mod 16)) = Some (unat b mod 16)" by (rule hex_digit_facts) simp
  have "(of_nat (16 * (unat b div 16) + unat b mod 16) :: byte) = b"
    unfolding mult_div_mod_eq by simp
  then show ?thesis using hi lo by (simp add: byte_hex_def)
qed

lemma fromhex_space: "list_all ascii_space sep \<Longrightarrow> bytes_fromhex (sep @ s) = bytes_fromhex s"
  by (induction sep) auto

lemma fromhex_hex:
  assumes "list_all ascii_space sep"
  shows "bytes_fromhex (bytes_hex sep s) = Inr s"
proof -
  have "bytes_fromhex (str_join sep (map byte_hex s)) = Inr s"
  proof (induction s)
    case (Cons b s)
    then show ?case
      using fromhex_byte [of b "[]"]
      by (cases s) (simp_all add: fromhex_byte fromhex_space [OF assms])
  qed simp
  then show ?thesis by (simp add: bytes_hex_def)
qed

section \<open>What the scripts print\<close>

lemma serialize_a_request_runs:
  "serialize_a_request = ([''000000000006010100000001'', ''12 bytes''], Inr ())"
  by code_simp

lemma round_trip_a_packet_runs:
  "round_trip_a_packet = ([''MODBUS TCP REQ -> | HEADER: (Trans-ID: 0, Prot-ID: 0, Length: 6, Unit-ID: 1) | PDU: (FC: 01, Data: (0, 1))'',
     ''round trip reproduces the frame: True'', ''frame matches the written-out vector: True''], Inr ())"
  by code_simp

lemma walk_through_runs:
  assumes "bytes_fromhex published = Inr (payload @ on_the_wire)" and "length on_the_wire = CRC_SIZE"
    and "calc_crc16 payload = v" and "struct_pack CRC_FMT [v] = Inr on_the_wire"
  shows "walk_through published =
    ([''payload    : '' @ bytes_hex '' '' payload, ''crc value  : 0x'' @ hex04 v,
      ''on the wire: '' @ bytes_hex '' '' on_the_wire, ''full frame : '' @ bytes_hex '' '' (payload @ on_the_wire), []], Inr ())"
  using assms by (simp add: walk_through_def and_then_def call_def say_def ensure_def Let_def)

lemma checksum_an_rtu_frame_runs:
  "checksum_an_rtu_frame =
     ([''payload    : 11 03 00 00 00 02'', ''crc value  : 0x9BC6'', ''on the wire: c6 9b'',
       ''full frame : 11 03 00 00 00 02 c6 9b'', [],
       ''payload    : 01 04 02 ff ff'', ''crc value  : 0x80B8'', ''on the wire: b8 80'',
       ''full frame : 01 04 02 ff ff b8 80'', [],
       ''2 frames match their published bytes''], Inr ())"
proof -
  have "bytes_fromhex ''11 03 00 00 00 02 c6 9b'' = Inr ([0x11, 3, 0, 0, 0, 2] @ [0xc6, 0x9b])" by code_simp
  moreover have "calc_crc16 [0x11, 3, 0, 0, 0, 2] = 0x9BC6" by code_simp
  moreover have "struct_pack CRC_FMT [0x9BC6] = Inr [0xc6, 0x9b]" by code_simp
  ultimately have 1: "walk_through ''11 03 00 00 00 02 c6 9b'' = ([''payload    : '' @ bytes_hex '' '' [0x11, 3, 0, 0, 0, 2],
      ''crc value  : 0x'' @ hex04 0x9BC6, ''on the wire: '' @ bytes_hex '' '' [0xc6, 0x9b],
      ''full frame : '' @ bytes_hex '' '' ([0x11, 3, 0, 0, 0, 2] @ [0xc6, 0x9b]), []], Inr ())"
    by (intro walk_through_runs) (simp_all add: CRC_SIZE_def)
  have "bytes_fromhex ''01 04 02 ff ff b8 80'' = Inr ([1, 4, 2, 0xff, 0xff] @ [0xb8, 0x80])" by code_simp
  moreover have "calc_crc16 [1, 4, 2, 0xff, 0xff] = 0x80B8" by code_simp
  moreover have "struct_pack CRC_FMT [0x80B8] = Inr [0xb8, 0x80]" by code_simp
  ultimately have 2: "walk_through ''01 04 02 ff ff b8 80'' = ([''payload    : '' @ bytes_hex '' '' [1, 4, 2, 0xff, 0xff],
      ''crc value  : 0x'' @ hex04 0x80B8, ''on the wire: '' @ bytes_hex '' '' [0xb8, 0x80],
      ''full frame : '' @ bytes_hex '' '' ([1, 4, 2, 0xff, 0xff] @ [0xb8, 0x80]), []], Inr ())"
    by (intro walk_through_runs) (simp_all add: CRC_SIZE_def)
  have 3: "hex04 0x9BC6 = ''9BC6''" "hex04 0x80B8 = ''80B8''" by (simp_all add: printing)
  show ?thesis
    unfolding checksum_an_rtu_frame_def PUBLISHED_def each.simps 1 2 3 by code_simp
qed

lemma report_a_constraint_violation_runs:
  "report_a_constraint_violation =
     ([''quantity=125 reports 0 violations'',
       ''ModbusRequestFC3.quantity is 126; the specification requires 0x0001 to 0x007D'',
       ''  field=quantity value=126'',
       ''serialized anyway: 030000007e'',
       ''validate() raises: ModbusRequestFC3.quantity is 126; the specification requires 0x0001 to 0x007D''], Inr ())"
  by code_simp

section \<open>Two ends of one line\<close>

lemma cut_prefix_some:
  assumes "0 < n" and "inbox \<noteq> []"
  shows "\<exists>chunk rest. cut_prefix n inbox = (chunk, rest) \<and> chunk \<noteq> [] \<and> int (length chunk) \<le> n \<and> inbox = chunk @ rest"
  using assms by (auto simp: cut_prefix_def Let_def)

interpretation device: byte_port device_port to_device
proof unfold_locales
  fix n :: int and p :: line
  assume "0 < n" and "to_device p \<noteq> []"
  from cut_prefix_some [OF this] obtain chunk rest where "cut_prefix n (to_device p) = (chunk, rest)"
    and "chunk \<noteq> []" "int (length chunk) \<le> n" "to_device p = chunk @ rest"
    by blast
  then show "\<exists>chunk p'. port_read device_port p n = (Inr chunk, p') \<and> chunk \<noteq> [] \<and> int (length chunk) \<le> n \<and>
      to_device p = chunk @ to_device p'"
    by (simp add: device_port_def)
qed (simp add: device_port_def cut_prefix_def)

interpretation master: byte_port master_port to_master
proof unfold_locales
  fix n :: int and p :: line
  assume "0 < n" and "to_master p \<noteq> []"
  from cut_prefix_some [OF this] obtain chunk rest where "cut_prefix n (to_master p) = (chunk, rest)"
    and "chunk \<noteq> []" "int (length chunk) \<le> n" "to_master p = chunk @ rest"
    by blast
  then show "\<exists>chunk p'. port_read master_port p n = (Inr chunk, p') \<and> chunk \<noteq> [] \<and> int (length chunk) \<le> n \<and>
      to_master p = chunk @ to_master p'"
    by (simp add: master_port_def)
qed (simp add: master_port_def cut_prefix_def)

lemma line_send [simp]:
  "stream_send master_port (stream_init l s False) m = Some (Inr (), stream_init (l\<lparr>to_device := to_device l @ m\<rparr>) s False)"
  "stream_send device_port (stream_init l s False) m = Some (Inr (), stream_init (l\<lparr>to_master := to_master l @ m\<rparr>) s False)"
  by (simp_all add: stream_send_def stream_init_def master_port_def device_port_def)

lemma line_receive:
  assumes "byte_port ops coming" and "sent_sized reg side p m" and "coming l = m" and "reading_keeps ops g"
  shows "\<exists>l'. stream_receive reg ops (stream_init l side False) = Some (Inr m, stream_init l' side False) \<and> g l' = g l"
proof -
  obtain l' where r: "stream_receive reg ops (stream_init l side False) = Some (Inr m, stream_init l' side False)"
    using byte_port.receive_loop_sent [OF assms(1), of reg "stream_init l side False" p "[]" m "[]"] assms(2,3)
    by (auto simp: stream_receive_def stream_init_def)
  from stream_receive_keeps [OF assms(4) r] show ?thesis using r by (auto simp: stream_init_def)
qed

lemma line_keeps [simp]: "reading_keeps device_port to_master" "reading_keeps master_port to_device"
  by (simp_all add: reading_keeps_def device_port_def master_port_def cut_prefix_def Let_def)

text \<open>Any frames the two sides can send are carried across, each to the other end.\<close>

lemma exchange_frames_runs:
  assumes "sent_sized default_registry REQUEST p request" and "sent_sized default_registry RESPONSE q response"
    and "bindE (ModbusRtuRequest_deserialize (parse_request default_registry) request True) ModbusRtuRequest_str = Inr asked"
    and "bindE (ModbusRtuResponse_deserialize (parse_response default_registry) response True) ModbusRtuResponse_str = Inr told"
  shows "exchange_frames request response = Some
     ([''device read : '' @ asked, ''master read : '' @ told, ''on the wire : '' @ bytes_hex '' '' response,
       ''the reply matches its published bytes''], Inr ())"
proof -
  define l where "l = \<lparr>to_device = request, to_master = []\<rparr>"
  obtain l' where "stream_receive default_registry device_port (stream_init l REQUEST False) =
      Some (Inr request, stream_init l' REQUEST False)" and "to_master l' = []"
    using line_receive [OF device.byte_port_axioms assms(1), of l to_master] by (auto simp: l_def)
  moreover obtain l'' where "stream_receive default_registry master_port (stream_init (l'\<lparr>to_master := response\<rparr>) RESPONSE False) =
      Some (Inr response, stream_init l'' RESPONSE False)"
    using line_receive [OF master.byte_port_axioms assms(2), of "l'\<lparr>to_master := response\<rparr>" to_device] by auto
  moreover have "st_port (stream_init x s e) = x" "on_line y (stream_init x s e) = stream_init y s e" for x y :: line and s e
    by (simp_all add: stream_init_def on_line_def)
  ultimately show ?thesis
    using assms(3,4) by (simp add: exchange_frames_def l_def and_then_def say_def call_def ensure_def)
qed

lemma read_rtu_frames_off_a_port_runs:
  "read_rtu_frames_off_a_port = Some
     ([''device read : MODBUS RTU REQ: (Slave ID: 17, PDU: (FC: 03, Data: (107, 3)), CRC: 34678)'',
       ''master read : MODBUS RTU RSP: (Slave ID: 17, PDU: (FC: 03, Data: (6, 44609, 22098, 17216)), CRC: 44361)'',
       ''on the wire : 11 03 06 ae 41 56 52 43 40 49 ad'',
       ''the reply matches its published bytes''], Inr ())"
proof -
  have fc: "self_fc (ModbusRequestFC3_self a b) = 3" "self_fc (ModbusResponseFC3_self a vs) = 3" for a b vs
    by (simp_all add: ModbusRequestFC3_self_def ModbusResponseFC3_self_def)
  have "sent_sized default_registry REQUEST (ModbusRtuRequest 17 (read_registers 107 3)) FC3_REQUEST" by code_simp
  moreover have "sent_sized default_registry RESPONSE (ModbusRtuResponse 17 (RegistersPdu (ModbusResponseFC3 6 [44609, 22098, 17216]))) FC3_RESPONSE"
    by code_simp
  moreover have "ModbusRtuRequest_deserialize (parse_request default_registry) FC3_REQUEST True =
      Inr \<lparr>slave_id = 17, rtu_pdu = read_registers 107 3, crc = 34678\<rparr>"
    by (rule request_parser.rtu_des_ser [where self = "ModbusRtuRequest 17 (read_registers 107 3)"]) code_simp+
  moreover have "ModbusRtuRequest_str \<lparr>slave_id = 17, rtu_pdu = read_registers 107 3, crc = 34678\<rparr> =
      Inr ''MODBUS RTU REQ: (Slave ID: 17, PDU: (FC: 03, Data: (107, 3)), CRC: 34678)''"
    by (simp add: ModbusRtuRequest_str_def rtu_str_def read_registers_def pdu_str_def tuple_repr_def printing fc)
  moreover have "ModbusRtuResponse_deserialize (parse_response default_registry) FC3_RESPONSE True =
      Inr \<lparr>slave_id = 17, rtu_pdu = RegistersPdu (ModbusResponseFC3 6 [44609, 22098, 17216]), crc = 44361\<rparr>"
    unfolding ModbusRtuResponse_deserialize_same
    by (rule response_parser.rtu_des_ser [where self = "ModbusRtuResponse 17 (RegistersPdu (ModbusResponseFC3 6 [44609, 22098, 17216]))"]) code_simp+
  moreover have "ModbusRtuResponse_str \<lparr>slave_id = 17, rtu_pdu = RegistersPdu (ModbusResponseFC3 6 [44609, 22098, 17216]), crc = 44361\<rparr> =
      Inr ''MODBUS RTU RSP: (Slave ID: 17, PDU: (FC: 03, Data: (6, 44609, 22098, 17216)), CRC: 44361)''"
    by (simp add: ModbusRtuResponse_str_def rtu_str_def pdu_str_def tuple_repr_def printing fc)
  ultimately have "read_rtu_frames_off_a_port = Some
     ([''device read : '' @ ''MODBUS RTU REQ: (Slave ID: 17, PDU: (FC: 03, Data: (107, 3)), CRC: 34678)'',
       ''master read : '' @ ''MODBUS RTU RSP: (Slave ID: 17, PDU: (FC: 03, Data: (6, 44609, 22098, 17216)), CRC: 44361)'',
       ''on the wire : '' @ bytes_hex '' '' FC3_RESPONSE, ''the reply matches its published bytes''], Inr ())"
    unfolding read_rtu_frames_off_a_port_def by (intro exchange_frames_runs) simp_all
  also have "bytes_hex '' '' FC3_RESPONSE = ''11 03 06 ae 41 56 52 43 40 49 ad''" by code_simp
  finally show ?thesis by simp
qed

section \<open>A burst is captured whole\<close>

lemma each_packet_prints:
  "\<exists>lines. each (\<lambda>p. and_then (call (ModbusTcpPacket_str p)) say) ps = (lines, Inr ()) \<and> length lines = length ps"
proof (induction ps)
  case (Cons p ps)
  then show ?case
    by (auto simp: ModbusTcpPacket_str_def tcp_str_def dyn_str_shown and_then_def call_def say_def)
qed simp

lemma burst_packets_Inr: "\<exists>packets ms. burst_packets = Inr packets \<and> length packets = 3 \<and> sender_messages packets = Inr ms \<and> length ms = 3"
proof -
  have "burst_packets = Inr (map (\<lambda>pdu. \<lparr>tcp_header = \<lparr>trans_id = 0, prot_id = 0, hdr_length = 6, unit_id = 1\<rparr>, tcp_pdu = pdu\<rparr>)
      [read_coils 0 1, read_coils 8 16, read_registers 0 2])"
    by code_simp
  moreover have "sender_messages (map (\<lambda>pdu. \<lparr>tcp_header = \<lparr>trans_id = 0, prot_id = 0, hdr_length = 6, unit_id = 1\<rparr>, tcp_pdu = pdu\<rparr>)
      [read_coils 0 1, read_coils 8 16, read_registers 0 2]) =
    Inr [[0, 0, 0, 0, 0, 6, 1, 1, 0, 0, 0, 1], [0, 0, 0, 0, 0, 6, 1, 1, 0, 8, 0, 16], [0, 0, 0, 0, 0, 6, 1, 3, 0, 0, 0, 2]]"
    by code_simp
  ultimately show ?thesis by (intro exI conjI) (assumption, simp, assumption, simp)
qed

lemma capture_a_burst_runs:
  assumes "greedy_socket ops outbox" and "byte_socket rops inbox" and "outbox sending = []"
    and "\<And>s. inbox (peer s) = outbox s"
  shows "\<exists>lines. capture_a_burst_of_packets ops rops peer port sending =
      Some ([''listening on port '' @ dec_string port, ''sent 3, captured 3''] @ lines, Inr ()) \<and> length lines = 3"
proof -
  obtain packets ms where b: "burst_packets = Inr packets" and n: "length packets = 3" "length ms = 3"
    and ms: "sender_messages packets = Inr ms"
    using burst_packets_Inr by blast
  obtain s' packets' where "sender_loop ops (sd_stream (sender_init sending packets 0 0 False)) packets =
      (Inr (), (sd_stream (sender_init sending packets 0 0 False))\<lparr>ts_sock := s'\<rparr>, packets')"
    and out: "outbox s' = concat ms"
    using greedy_socket.sender_loop_sends [OF assms(1) ms, of "sd_stream (sender_init sending packets 0 0 False)"] assms(3)
    by (auto simp: sender_init_def)
  then obtain sender where send: "sender_run_once ops (sender_init sending packets 0 0 False) = (Inr (), sender)"
    and s': "ts_sock (sd_stream sender) = s'"
    by (simp add: sender_run_once_def sender_init_def Let_def)
  obtain s'' qs where "receiver_loop rops None 0 (receiver_init (peer s') 0) = Some (Inr (), (receiver_init (peer s') 0)\<lparr>
      rc_stream := (rc_stream (receiver_init (peer s') 0))\<lparr>ts_sock := s''\<rparr>, rc_packets := qs\<rparr>)"
    and qs: "list_all2 (\<lambda>q m. ModbusTcpPacket_serialize q = Inr m) qs ms"
    using byte_socket.receiver_loop_captures [OF assms(2) ms, of "receiver_init (peer s') 0" 0] assms(4) out
    by (auto simp: receiver_init_def)
  then obtain receiver where recv: "receiver_run_once rops None (receiver_init (peer s') 0) = Some (Inr qs, receiver)"
    by (simp add: receiver_run_once_def receiver_init_def)
  have len: "length qs = 3" using list_all2_lengthD [OF qs] n by simp
  obtain lines where lines: "each (\<lambda>p. and_then (call (ModbusTcpPacket_str p)) say) qs = (lines, Inr ())" "length lines = 3"
    using each_packet_prints [of qs] len by auto
  have "dec_string (int (length packets)) = ''3''" "dec_string (int (length qs)) = ''3''"
    using n len by (simp_all add: printing)
  then show ?thesis
    unfolding capture_a_burst_of_packets_def Let_def b sum.case send prod.case s' recv option.case lines
    using n len lines(2) by (simp add: and_then_def say_def ensure_def call_def)
qed

end
