(* ===== verification/Server_Clients.thy ===== *)
theory Server_Clients imports Server_Listener begin

text \<open>
  Many clients at once. What the server thread does to one connection is a conversation of its own: it
  depends on that connection's socket, on the passes that found it readable and on the clock, and on no
  other connection. A conversation is the projection of the server's state to one connection;
  each pass of the server acts on it as \<open>talk_pass\<close>, whatever happens beside it.
\<close>

section \<open>One conversation\<close>

record 's talk =
  tk_sock :: 's
  tk_seen :: "int option"
  tk_closed :: bool

text \<open>What the server applies to every connection alike, and does not change while it runs.\<close>

record 's rules =
  ru_handling :: "'s on_data_config"
  ru_frag_size :: int
  ru_frag_delay :: int
  ru_timeout :: int

definition talk_of :: "('c, 's) ModbusServerSimulator \<Rightarrow> 'c \<Rightarrow> 's talk" where
  "talk_of self c = \<lparr>tk_sock = sv_net self c, tk_seen = sv_last_activity self c, tk_closed = (c \<in> set (sv_closed self))\<rparr>"

definition rules_of :: "('c, 's) ModbusServerSimulator \<Rightarrow> 's rules" where
  "rules_of self = \<lparr>ru_handling = sv_handling self, ru_frag_size = sv_frag_size self,
     ru_frag_delay = sv_frag_delay self, ru_timeout = sv_inactive_timeout self\<rparr>"

definition talk_end :: "'s talk \<Rightarrow> 's talk" where
  "talk_end t = t\<lparr>tk_seen := None, tk_closed := True\<rparr>"

definition rules_stream :: "'s rules \<Rightarrow> 's \<Rightarrow> 's ModbusTcpStream" where
  "rules_stream ru s = \<lparr>ts_sock = s, ts_fragmenter = ModbusFragmenter, ts_frag_delay = ru_frag_delay ru,
     ts_frag_size = ru_frag_size ru, ts_burst = False\<rparr>"

text \<open>
  A frame is read and answered; an empty or a failed read, or an answer that fails, ends the conversation.
  \<open>None\<close> is a read that does not return, or one that raises what the server does not catch.
\<close>

definition talk_serve :: "registry \<Rightarrow> 's sock_ops \<Rightarrow> 's rules \<Rightarrow> int \<Rightarrow> 's talk \<Rightarrow> 's talk option" where
  "talk_serve reg ops ru now t =
     (case tcp_receive ops (rules_stream ru (tk_sock t)) of
        None \<Rightarrow> None
      | Some (Inl e, st) \<Rightarrow>
          if is_OSError e \<or> is_ModbusBaseError e then Some (talk_end (t\<lparr>tk_sock := ts_sock st\<rparr>)) else None
      | Some (Inr [], st) \<Rightarrow> Some (talk_end (t\<lparr>tk_sock := ts_sock st\<rparr>))
      | Some (Inr data, st) \<Rightarrow>
          (case on_data reg ops (ru_handling ru) data (ts_sock st) of
             (Inr _, s) \<Rightarrow> Some (t\<lparr>tk_sock := s, tk_seen := Some now\<rparr>)
           | (Inl _, s) \<Rightarrow> Some (talk_end (t\<lparr>tk_sock := s\<rparr>))))"

definition talk_sweep :: "'s rules \<Rightarrow> int \<Rightarrow> 's talk \<Rightarrow> 's talk" where
  "talk_sweep ru now t =
     (case tk_seen t of None \<Rightarrow> t | Some seen \<Rightarrow> if seen + ru_timeout ru < now then talk_end t else t)"

definition talk_pass :: "registry \<Rightarrow> 's sock_ops \<Rightarrow> 's rules \<Rightarrow> bool \<times> int \<Rightarrow> 's talk \<Rightarrow> 's talk option" where
  "talk_pass reg ops ru = (\<lambda>(readable, now) t.
     map_option (talk_sweep ru now) (if readable then talk_serve reg ops ru now t else Some t))"

fun talk_run :: "registry \<Rightarrow> 's sock_ops \<Rightarrow> 's rules \<Rightarrow> (bool \<times> int) list \<Rightarrow> 's talk \<Rightarrow> 's talk option" where
  "talk_run reg ops ru [] t = Some t"
| "talk_run reg ops ru (x # xs) t =
     (case talk_pass reg ops ru x t of None \<Rightarrow> None | Some t' \<Rightarrow> talk_run reg ops ru xs t')"

section \<open>The server projects to its conversations\<close>

lemma talk_of_simps [simp]:
  "talk_of (self\<lparr>sv_last_print := time\<rparr>) c = talk_of self c"
  "rules_of (self\<lparr>sv_last_print := time\<rparr>) = rules_of self"
  "rules_of (self\<lparr>sv_closed := closed\<rparr>) = rules_of self"
  "rules_of (self\<lparr>sv_net := net\<rparr>) = rules_of self"
  "rules_of (self\<lparr>sv_last_activity := seen\<rparr>) = rules_of self"
  "rules_of (self\<lparr>sv_peercerts := certs\<rparr>) = rules_of self"
  "rules_of (server_forget conn self) = rules_of self"
  "rules_of (server_record conn addr now self) = rules_of self"
  "rules_of (server_sweep_one srv now conn self) = rules_of self"
  by (simp_all add: talk_of_def rules_of_def server_forget_def server_disconnect_def server_record_def server_sweep_one_def
      Let_def split: option.split)

lemma talk_of_forget: "talk_of (server_forget conn self) c = (if c = conn then talk_end (talk_of self c) else talk_of self c)"
  by (simp add: talk_of_def talk_end_def)

text \<open>Serving is the conversation's step, as far as it is caught, and no one else's.\<close>

lemma server_serve_talk:
  "talk_serve reg ops (rules_of self) now (talk_of self c) =
     (case server_serve reg ops c now self of Some (Inr _, self') \<Rightarrow> Some (talk_of self' c) | _ \<Rightarrow> None)"
  by (auto simp: talk_serve_def server_serve_def rules_stream_def talk_of_def talk_end_def rules_of_def Let_def
      split: option.split sum.split list.split prod.split)

lemma server_serve_rules: "server_serve reg ops c now self = Some (r, self') \<Longrightarrow> rules_of self' = rules_of self"
  by (elim server_serve_effect) auto

lemma server_serve_apart:
  assumes "server_serve reg ops conn now self = Some (r, self')" and "c \<noteq> conn"
  shows "talk_of self' c = talk_of self c"
  using server_serve_others [OF assms] by (simp add: talk_of_def)

lemma server_serve_all_talk:
  assumes "server_serve_all reg ops srv now ready self = Some (Inr (), self')" and "distinct ready" and "c \<noteq> srv"
  shows "(if c \<in> set ready then talk_serve reg ops (rules_of self) now (talk_of self c) else Some (talk_of self c)) =
      Some (talk_of self' c) \<and> rules_of self' = rules_of self"
  using assms
proof (induction ready arbitrary: self)
  case (Cons conn ready)
  show ?case
  proof (cases "conn = srv")
    case True
    then show ?thesis using Cons by auto
  next
    case False
    then obtain self1 where serve: "server_serve reg ops conn now self = Some (Inr (), self1)"
      and rest: "server_serve_all reg ops srv now ready self1 = Some (Inr (), self')"
      using Cons.prems(1) by (auto split: option.splits sum.splits)
    have "distinct ready" using Cons.prems(2) by simp
    from Cons.IH [OF rest this Cons.prems(3)] show ?thesis
      using Cons.prems(2) server_serve_rules [OF serve] server_serve_apart [OF serve, of c]
        server_serve_talk [of reg ops self now conn] serve
      by (cases "c = conn") auto
  qed
qed simp

lemma server_sweep_talk:
  assumes "distinct conns"
  shows "talk_of (fold (server_sweep_one srv now) conns self) c =
      (if c \<in> set conns \<and> c \<noteq> srv then talk_sweep (rules_of self) now (talk_of self c) else talk_of self c) \<and>
    rules_of (fold (server_sweep_one srv now) conns self) = rules_of self"
  using assms
proof (induction conns arbitrary: self)
  case (Cons conn conns)
  have "talk_of (server_sweep_one srv now conn self) c =
      (if c = conn \<and> c \<noteq> srv then talk_sweep (rules_of self) now (talk_of self c) else talk_of self c)"
    by (auto simp: server_sweep_one_def talk_of_forget talk_sweep_def rules_of_def split: option.split)
      (simp_all add: talk_of_def)
  then show ?case using Cons.IH [of "server_sweep_one srv now conn self"] Cons.prems by auto
qed simp

text \<open>A connection the server has, or has had: no socket accepted later goes by its name.\<close>

definition known :: "('c, 's) ModbusServerSimulator \<Rightarrow> 'c \<Rightarrow> bool" where
  "known self c = (c \<in> set (sv_conns self) \<or> c \<in> set (sv_closed self) \<and> c \<notin> set (sv_read_list self))"

lemma server_accept_connection_talk:
  assumes "server_accept_connection accepted wrap now self = (r, self')" and "fresh_accepted self accepted wrap"
    and "known self c" and "server_ok srv self"
  shows "talk_of self' c = talk_of self c \<and> rules_of self' = rules_of self \<and> known self' c"
proof -
  have c: "c \<noteq> d" if "fresh_socket self d" for d
    using that assms(3) server_ok_conn [OF assms(4), of c] by (auto simp: known_def fresh_socket_def)
  obtain conns where "sv_read_list self = srv # conns" using assms(4) by (auto simp: server_ok_def)
  then show ?thesis
    using assms(3) by (cases rule: server_accept_connection_effect [OF assms(1,2)]) (use c in \<open>auto simp: talk_of_def known_def\<close>)
qed

lemma server_serve_all_known:
  assumes "server_serve_all reg ops srv now ready self = Some (Inr (), self')" and "set ready \<subseteq> set (sv_read_list self)"
    and "distinct ready" and "server_ok srv self" and "known self c"
  shows "known self' c"
  using assms
proof (induction ready arbitrary: self)
  case (Cons conn ready)
  show ?case
  proof (cases "conn = srv")
    case True
    then show ?thesis using Cons by auto
  next
    case False
    then obtain self1 where serve: "server_serve reg ops conn now self = Some (Inr (), self1)"
      and rest: "server_serve_all reg ops srv now ready self1 = Some (Inr (), self')"
      using Cons.prems(1) by (auto split: option.splits sum.splits)
    have conn: "conn \<in> set (sv_conns self)"
      using Cons.prems(2,4) False by (cases "sv_read_list self") (auto simp: server_ok_def)
    note ok = server_serve_ok [OF Cons.prems(4) conn serve]
    have "set ready \<subseteq> set (sv_read_list self1)"
      using server_serve_ready [OF serve] Cons.prems(2,3) by simp
    moreover have "known self1 c"
      using Cons.prems(4,5) ok conn
      by (cases rule: server_serve_effect [OF serve]) (auto simp: known_def server_ok_def)
    ultimately show ?thesis using Cons.IH [OF rest _ _ ok] Cons.prems(3) by simp
  qed
qed simp

lemma known_listener: "server_ok srv self \<Longrightarrow> known self c \<Longrightarrow> c \<noteq> srv"
  using server_ok_conn [of srv self c] server_ok_listener [of srv self] by (auto simp: known_def)

lemma server_sweep_inactive_talk:
  assumes "server_ok srv self" and "known self c"
  shows "talk_of (server_sweep_inactive srv now self) c = talk_sweep (rules_of self) now (talk_of self c)"
    and "rules_of (server_sweep_inactive srv now self) = rules_of self"
    and "known (server_sweep_inactive srv now self) c"
proof -
  have "distinct (sv_read_list self)" using assms(1) by (simp only: server_ok_def)
  note fold = server_sweep_talk [OF this, of srv now self c]
  have "c \<notin> set (sv_read_list self) \<Longrightarrow> sv_last_activity self c = None"
    using assms known_listener [OF assms] unfolding server_ok_def by (metis domIff set_ConsD list.set_intros(2))
  then show "talk_of (server_sweep_inactive srv now self) c = talk_sweep (rules_of self) now (talk_of self c)"
    using fold known_listener [OF assms] by (auto simp: server_sweep_inactive_def talk_sweep_def talk_of_def)
  show "rules_of (server_sweep_inactive srv now self) = rules_of self" using fold by (simp add: server_sweep_inactive_def)
  obtain conns where "sv_read_list self = srv # conns" using assms(1) by (auto simp: server_ok_def)
  then show "known (server_sweep_inactive srv now self) c"
    using server_sweep_exact [OF assms(1), of now] assms(2) known_listener [OF assms] by (auto simp: known_def)
qed

text \<open>One pass: each conversation takes its own step.\<close>

lemma server_pass_talk:
  assumes ok: "server_ok srv self" and inp: "input_ok self inp" and known: "known self c"
    and pass: "server_pass reg ops srv inp self = Some (Inr (), self')"
  shows "talk_pass reg ops (rules_of self) (c \<in> set (in_ready inp), in_now inp) (talk_of self c) = Some (talk_of self' c)"
    and "rules_of self' = rules_of self" and "known self' c"
proof -
  obtain self1 where acc: "(if srv \<in> set (in_ready inp)
      then server_accept_connection (in_accepted inp) (in_wrap inp) (in_now inp) self else (Inr (), self)) = (Inr (), self1)"
    using pass by (auto simp: server_pass_def split: if_splits prod.splits sum.splits)
  have fresh: "fresh_accepted self (in_accepted inp) (in_wrap inp)" using inp by (simp add: input_ok_def)
  have ok1: "server_ok srv self1" and sub: "set (sv_read_list self) \<subseteq> set (sv_read_list self1)"
    using acc ok server_accept_connection_ok [OF ok fresh] server_accept_connection_keeps [OF _ fresh]
    by (auto split: if_splits)
  have 1: "talk_of self1 c = talk_of self c" "rules_of self1 = rules_of self" "known self1 c"
    using acc known server_accept_connection_talk [OF _ fresh known ok] by (auto split: if_splits)
  have ready: "distinct (in_ready inp)" "set (in_ready inp) \<subseteq> set (sv_read_list self1)"
    using inp sub by (auto simp: input_ok_def)
  obtain self2 where serve: "server_serve_all reg ops srv (in_now inp) (in_ready inp) self1 = Some (Inr (), self2)"
    and print: "server_print_status inp (server_sweep_inactive srv (in_now inp) self2) = (Inr (), self')"
    using pass acc by (auto simp: server_pass_def split: if_splits option.splits sum.splits)
  have ok2: "server_ok srv self2" using server_serve_all_ok [OF ok1 ready serve] by simp
  have 2: "known self2 c" by (rule server_serve_all_known [OF serve ready(2,1) ok1 1(3)])
  note served = server_serve_all_talk [OF serve ready(1) known_listener [OF ok known]]
  note swept = server_sweep_inactive_talk [OF ok2 2, of "in_now inp"]
  obtain t where self': "self' = (server_sweep_inactive srv (in_now inp) self2)\<lparr>sv_last_print := t\<rparr>"
    by (rule server_print_status_state [OF print])
  show "talk_pass reg ops (rules_of self) (c \<in> set (in_ready inp), in_now inp) (talk_of self c) = Some (talk_of self' c)"
    using served swept(1) 1(1,2) by (auto simp: talk_pass_def self' split: if_splits)
  show "rules_of self' = rules_of self" using served swept(2) 1(2) by (simp add: self')
  show "known self' c" using swept(3) by (simp add: self' known_def)
qed

section \<open>A run\<close>

text \<open>In each pass \<open>select\<close> and \<open>accept\<close> answer as they do, as long as the run goes on.\<close>

fun inputs_ok :: "registry \<Rightarrow> 's sock_ops \<Rightarrow> 'c \<Rightarrow> 'c pass_input list \<Rightarrow> ('c, 's) ModbusServerSimulator \<Rightarrow> bool" where
  "inputs_ok reg ops srv [] self = True"
| "inputs_ok reg ops srv (inp # inps) self = (input_ok self inp \<and>
     (case server_pass reg ops srv inp self of Some (Inr _, self') \<Rightarrow> inputs_ok reg ops srv inps self' | _ \<Rightarrow> True))"

definition passes :: "'c pass_input list \<Rightarrow> ('c pass_input \<times> (('c, 's) ModbusServerSimulator \<Rightarrow> ('c, 's) ModbusServerSimulator)) list" where
  "passes inps = map (\<lambda>inp. (inp, id)) inps"

text \<open>What a run has for one connection.\<close>

definition share :: "'c \<Rightarrow> 'c pass_input list \<Rightarrow> (bool \<times> int) list" where
  "share c inps = map (\<lambda>inp. (c \<in> set (in_ready inp), in_now inp)) inps"

lemma server_run_passes:
  assumes "\<not> sv_quit self"
  shows "server_run reg ops srv (passes []) self = Some (Inr (), self)"
    and "server_pass reg ops srv inp self = Some (Inr (), self1) \<Longrightarrow>
      server_run reg ops srv (passes (inp # inps)) self = server_run reg ops srv (passes inps) self1"
  using assms by (subst server_run.simps, simp add: passes_def del: server_run.simps)+

lemma server_print_status_quit: "server_print_status inp self = (r, self') \<Longrightarrow> sv_quit self' = sv_quit self"
  by (erule server_print_status_state) simp

lemma server_serve_all_quit: "server_serve_all reg ops srv now ready self = Some (r, self') \<Longrightarrow> sv_quit self' = sv_quit self"
proof (induction ready arbitrary: self)
  case (Cons conn ready)
  then show ?case by (auto split: if_splits option.splits sum.splits dest: server_serve_keeps(3))
qed simp

lemma server_pass_quit:
  assumes "server_pass reg ops srv inp self = Some (r, self')" and "input_ok self inp"
  shows "sv_quit self' = sv_quit self"
  using assms server_accept_connection_keeps [of "in_accepted inp" "in_wrap inp" "in_now inp" self]
  by (auto simp: server_pass_def input_ok_def server_sweep_keeps split: if_splits option.splits sum.splits prod.splits
      dest!: server_serve_all_quit server_print_status_quit)

lemma server_run_talk:
  assumes "server_run reg ops srv (passes inps) self = Some (Inr (), self')" and "\<not> sv_quit self"
    and "server_ok srv self" and "known self c" and "inputs_ok reg ops srv inps self"
  shows "talk_run reg ops (rules_of self) (share c inps) (talk_of self c) = Some (talk_of self' c) \<and>
    known self' c \<and> server_ok srv self' \<and> \<not> sv_quit self'"
  using assms
proof (induction inps arbitrary: self)
  case Nil
  then show ?case by (simp add: passes_def share_def server_run.simps [of reg ops srv "[]"])
next
  case (Cons inp inps)
  then obtain self1 where pass: "server_pass reg ops srv inp self = Some (Inr (), self1)"
    and rest: "server_run reg ops srv (passes inps) self1 = Some (Inr (), self')"
    by (auto simp: passes_def server_run.simps [of reg ops srv "_ # _"] split: option.splits sum.splits)
  have inp: "input_ok self inp" and inps: "inputs_ok reg ops srv inps self1" using Cons.prems(5) pass by simp_all
  note step = server_pass_talk [OF Cons.prems(3) inp Cons.prems(4) pass]
  have "server_ok srv self1" using server_pass_ok [OF Cons.prems(3) inp pass] by simp
  moreover have "\<not> sv_quit self1" using server_pass_quit [OF pass inp] Cons.prems(2) by simp
  ultimately show ?case using Cons.IH [OF rest _ _ step(3) inps] step(1,2) by (simp add: share_def)
qed

lemma well_fed_inputs_ok: "well_fed reg ops inbox hung_up srv inps self \<Longrightarrow> inputs_ok reg ops srv inps self"
  by (induction inps arbitrary: self) (auto split: option.splits sum.splits)

lemma well_fed_single:
  "well_fed reg ops inbox hung_up srv [inp] self \<longleftrightarrow> input_ok self inp \<and> accept_returns self inp \<and> peers_answer inp \<and>
     (\<forall>c\<in>set (in_ready inp) - {srv}. \<not> stalled inbox hung_up (sv_net self c))"
  by (auto split: option.split sum.split)

context blocking_socket begin

lemma server_passes_return:
  assumes "server_ok srv self" and "server_live self" and "0 \<le> sv_frag_size self" and "\<not> sv_quit self"
    and "well_fed reg ops inbox hung_up srv inps self"
  shows "\<exists>self'. server_run reg ops srv (passes inps) self = Some (Inr (), self')"
  using assms
proof (induction inps arbitrary: self)
  case Nil
  then show ?case by (simp add: server_run_passes del: server_run.simps)
next
  case (Cons inp inps)
  obtain self1 where pass: "server_pass reg ops srv inp self = Some (Inr (), self1)"
    and next_ok: "server_ok srv self1" "server_live self1" "0 \<le> sv_frag_size self1" "well_fed reg ops inbox hung_up srv inps self1"
    by (rule server_pass_fed [OF Cons.prems(1-3,5)])
  have "\<not> sv_quit self1" using Cons.prems(4,5) server_pass_quit [OF pass] by simp
  then show ?case
    using Cons.IH [of self1] next_ok server_run_passes(2) [OF Cons.prems(4) pass] by (simp del: server_run.simps)
qed

text \<open>
  No client can tell what the others do. Two servers under the same rules, in states that agree on one
  connection, are given passes they survive, which find that connection readable at the same times: whoever
  else connects, sends or hangs up, both runs go through and leave the connection in the same state.
\<close>

lemma server_runs_agree:
  assumes "server_ok srv self" "server_live self" "0 \<le> sv_frag_size self" "\<not> sv_quit self"
    and "server_ok srv' other" "server_live other" "0 \<le> sv_frag_size other" "\<not> sv_quit other"
    and fed: "well_fed reg ops inbox hung_up srv inps self" "well_fed reg ops inbox hung_up srv' inps' other"
    and "known self c" "known other c" and "rules_of self = rules_of other" and "talk_of self c = talk_of other c"
    and "share c inps = share c inps'"
  shows "\<exists>self' other'. server_run reg ops srv (passes inps) self = Some (Inr (), self') \<and>
    server_run reg ops srv' (passes inps') other = Some (Inr (), other') \<and> talk_of self' c = talk_of other' c"
proof -
  obtain self' other' where runs: "server_run reg ops srv (passes inps) self = Some (Inr (), self')"
    "server_run reg ops srv' (passes inps') other = Some (Inr (), other')"
    using server_passes_return [OF assms(1-4) fed(1)] server_passes_return [OF assms(5-8) fed(2)] by blast
  have "talk_of self' c = talk_of other' c"
    using server_run_talk [OF runs(1) assms(4,1,11) well_fed_inputs_ok [OF fed(1)]]
      server_run_talk [OF runs(2) assms(8,5,12) well_fed_inputs_ok [OF fed(2)]] assms(13-15) by auto
  with runs show ?thesis by blast
qed

end

section \<open>A server that answers plainly\<close>

text \<open>No data handler, no failure asked for, no negative setting: what the constructor's defaults give.\<close>

definition plain_rules :: "'s rules \<Rightarrow> bool" where
  "plain_rules ru = (cfg_handler (ru_handling ru) = None \<and> 0 \<le> cfg_delay (ru_handling ru) \<and>
     \<not> cfg_fail (ru_handling ru) \<and> 0 \<le> ru_frag_size ru \<and> 0 \<le> ru_timeout ru)"

definition serves_plainly :: "('c, 's) ModbusServerSimulator \<Rightarrow> bool" where
  "serves_plainly self = (cfg_handler (sv_handling self) = None \<and> 0 \<le> cfg_delay (sv_handling self) \<and>
     \<not> cfg_fail (sv_handling self) \<and> 0 \<le> sv_frag_size self \<and> 0 \<le> sv_inactive_timeout self)"

lemma serves_plainly_rules: "serves_plainly self = plain_rules (rules_of self)"
  by (simp add: serves_plainly_def plain_rules_def rules_of_def)

lemma framed_receive:
  assumes "framed_header m = Some h" and "length m \<noteq> HEADER_SIZE"
  shows "receive_spec (m @ rest) = (Inr m, rest)" and "m \<noteq> []"
proof -
  note facts = framed_header_facts [OF assms(1)]
  have h: "ModbusHeader_deserialize (take HEADER_SIZE m) = Inr h"
    using assms(1) by (auto simp: framed_header_def split: sum.splits if_splits)
  have long: "HEADER_SIZE < length m"
    using header_ser_size [OF facts(1)] assms(2) by (simp add: min_def split: if_splits)
  then have "tcp_pdu_length (take HEADER_SIZE m) = Inr (hdr_length h - 1)"
    using h facts(2) by (simp add: tcp_pdu_length_def Let_def)
  from receive_spec_message [OF this, of rest] show "receive_spec (m @ rest) = (Inr m, rest)"
    using facts(2) long by simp
  show "m \<noteq> []" using long by auto
qed

lemmas framed_whole = framed_receive(1) [where rest = "[]", unfolded append_Nil2] framed_receive(2)

text \<open>A frame, the header it carries and the request in it; and a response to it.\<close>

definition answers_frame :: "bytes \<Rightarrow> ModbusHeader \<times> pdu \<Rightarrow> bool" where
  "answers_frame m = (\<lambda>(h, q). framed_header m = Some h \<and>
     parse_request default_registry (drop HEADER_SIZE m) = Inr q \<and> answerable q)"

definition response_to :: "bytes \<Rightarrow> ModbusHeader \<times> pdu \<Rightarrow> bool" where
  "response_to r = (\<lambda>(h, q). ModbusTcpResponse_deserialize (parse_response default_registry) r =
     Inr \<lparr>tcp_header = response_header h (response_size q), tcp_pdu = response_pdu q\<rparr>)"

text \<open>The server's end of a connection: reading does not write, and writing does not read.\<close>

locale served_socket = blocking_socket ops inbox hung_up + greedy_socket ops outbox
  for ops :: "'s sock_ops" and inbox :: "'s \<Rightarrow> bytes" and hung_up :: "'s \<Rightarrow> bool" and outbox :: "'s \<Rightarrow> bytes" +
  assumes recv_keeps_outbox: "recv_keeps ops (\<lambda>s. outbox s = out)"
    and send_keeps_inbox: "send_keeps ops (\<lambda>s. inbox s = b)"
begin

lemma frame_answered:
  assumes "answers_frame m (h, q)" and "plain_rules ru" and "inbox s = m @ rest"
  shows "\<exists>s1 s2 r. tcp_receive ops (rules_stream ru s) = Some (Inr m, rules_stream ru s1) \<and> m \<noteq> [] \<and>
    on_data default_registry ops (ru_handling ru) m s1 = (Inr (), s2) \<and>
    inbox s2 = rest \<and> outbox s2 = outbox s @ r \<and>
    ModbusTcpResponse_deserialize (parse_response default_registry) r =
      Inr \<lparr>tcp_header = response_header h (response_size q), tcp_pdu = response_pdu q\<rparr>"
proof -
  have m: "framed_header m = Some h" "parse_request default_registry (drop HEADER_SIZE m) = Inr q" "answerable q"
    using assms(1) by (simp_all add: answers_frame_def)
  have plain: "cfg_handler (ru_handling ru) = None" "0 \<le> cfg_delay (ru_handling ru)" "\<not> cfg_fail (ru_handling ru)"
    using assms(2) by (simp_all add: plain_rules_def)
  have "drop HEADER_SIZE m \<noteq> []" using m(2) by auto
  then have "length m \<noteq> HEADER_SIZE" by auto
  note frame = framed_receive [OF m(1) this]
  obtain s1 where rec: "tcp_receive ops (rules_stream ru s) = Some (Inr m, rules_stream ru s1)" and s1: "inbox s1 = rest"
    using receive_frame [of "rules_stream ru s" m rest] frame assms(2,3) by (auto simp: rules_stream_def plain_rules_def)
  have out1: "outbox s1 = outbox s"
    using tcp_receive_keeps [OF rec recv_keeps_outbox] by (simp add: rules_stream_def)
  obtain s2 r where ans: "on_data default_registry ops (ru_handling ru) m s1 = (Inr (), s2)"
    and r: "outbox s2 = outbox s1 @ r" "ModbusTcpResponse_deserialize (parse_response default_registry) r =
      Inr \<lparr>tcp_header = response_header h (response_size q), tcp_pdu = response_pdu q\<rparr>"
    using on_data_answers_sized [OF m plain] by blast
  have "inbox s2 = rest"
    using on_data_keeps [OF send_keeps_inbox s1 plain(1), of default_registry m] ans by simp
  then show ?thesis using rec ans frame(2) r out1 by (intro exI [of _ s1] exI [of _ s2] exI [of _ r]) simp
qed

lemma talk_answers:
  assumes "answers_frame m x" and "plain_rules ru" and "inbox (tk_sock t) = m @ rest"
  shows "\<exists>s r. talk_serve default_registry ops ru now t = Some (t\<lparr>tk_sock := s, tk_seen := Some now\<rparr>) \<and>
    inbox s = rest \<and> outbox s = outbox (tk_sock t) @ r \<and> response_to r x"
proof -
  obtain h q where x: "x = (h, q)" by (rule prod.exhaust)
  obtain s1 s2 r where "tcp_receive ops (rules_stream ru (tk_sock t)) = Some (Inr m, rules_stream ru s1)" and "m \<noteq> []"
    and "on_data default_registry ops (ru_handling ru) m s1 = (Inr (), s2)"
    and r: "inbox s2 = rest" "outbox s2 = outbox (tk_sock t) @ r" "response_to r x"
    using frame_answered [OF _ assms(2,3), of h q] assms(1) unfolding x response_to_def by blast
  then have "talk_serve default_registry ops ru now t = Some (t\<lparr>tk_sock := s2, tk_seen := Some now\<rparr>)"
    by (cases m) (simp_all add: talk_serve_def rules_stream_def)
  then show ?thesis using r by blast
qed

section \<open>Requests sent ahead are answered in order\<close>

lemma talk_run_answers:
  assumes "plain_rules ru" and "list_all2 answers_frame ms xs" and "inbox (tk_sock t) = concat ms @ rest"
    and "length (filter fst ps) = length ms" and "\<forall>(b, now)\<in>set ps. start \<le> now \<and> now \<le> start + ru_timeout ru"
    and "tk_seen t = Some seen" and "start \<le> seen"
  shows "\<exists>t' rs. talk_run default_registry ops ru ps t = Some t' \<and> list_all2 response_to rs xs \<and>
    outbox (tk_sock t') = outbox (tk_sock t) @ concat rs \<and> inbox (tk_sock t') = rest \<and> tk_closed t' = tk_closed t"
  using assms(2-7)
proof (induction ps arbitrary: ms xs t seen)
  case Nil
  then show ?case by simp
next
  case (Cons p ps)
  obtain b now where p: "p = (b, now)" by (rule prod.exhaust)
  have now: "start \<le> now" "now \<le> start + ru_timeout ru" using Cons.prems(4) by (simp_all add: p)
  have awake: "talk_sweep ru now (t'\<lparr>tk_seen := Some s\<rparr>) = t'\<lparr>tk_seen := Some s\<rparr>" if "start \<le> s" for t' :: "'s talk" and s
    using now that by (simp add: talk_sweep_def)
  show ?case
  proof (cases b)
    case False
    have "talk_sweep ru now t = t" using Cons.prems(5,6) now by (simp add: talk_sweep_def)
    then show ?thesis using Cons.IH [of ms xs t seen] Cons.prems False by (simp add: p talk_pass_def)
  next
    case True
    then obtain m ms' where ms: "ms = m # ms'" using Cons.prems(3) by (cases ms) (simp_all add: p)
    then obtain x xs' where xs: "xs = x # xs'" using Cons.prems(1) by (cases xs) simp_all
    obtain s r where served: "talk_serve default_registry ops ru now t = Some (t\<lparr>tk_sock := s, tk_seen := Some now\<rparr>)"
      and s: "inbox s = concat ms' @ rest" "outbox s = outbox (tk_sock t) @ r" "response_to r x"
      using talk_answers [OF _ assms(1), of m x t "concat ms' @ rest" now] Cons.prems(1,2) by (auto simp: ms xs)
    obtain t' rs where run: "talk_run default_registry ops ru ps (t\<lparr>tk_sock := s, tk_seen := Some now\<rparr>) = Some t'"
      and t': "list_all2 response_to rs xs'" "outbox (tk_sock t') = outbox s @ concat rs" "inbox (tk_sock t') = rest"
        "tk_closed t' = tk_closed t"
      using Cons.IH [of ms' xs' "t\<lparr>tk_sock := s, tk_seen := Some now\<rparr>" now] Cons.prems(1,3,4) now s(1) True
      by (auto simp: ms xs p)
    have "talk_pass default_registry ops ru p t = Some (t\<lparr>tk_sock := s, tk_seen := Some now\<rparr>)"
      using served awake [OF now(1), of "t\<lparr>tk_sock := s\<rparr>"] True by (simp add: p talk_pass_def)
    then show ?thesis using run t' s by (intro exI [of _ t'] exI [of _ "r # rs"]) (simp add: xs)
  qed
qed

text \<open>
  One client's frames are answered in the order they came, one per pass that finds it readable, whatever
  the other clients do in those passes.
\<close>

lemma server_answers_among_clients:
  assumes "server_ok srv self" and "server_live self" and "\<not> sv_quit self" and "serves_plainly self"
    and "well_fed default_registry ops inbox hung_up srv inps self" and "c \<in> set (sv_conns self)"
    and "inbox (sv_net self c) = concat ms @ rest" and "list_all2 answers_frame ms xs"
    and "length (filter (\<lambda>inp. c \<in> set (in_ready inp)) inps) = length ms"
    and "sv_last_activity self c = Some seen"
    and "\<forall>inp\<in>set inps. seen \<le> in_now inp \<and> in_now inp \<le> seen + sv_inactive_timeout self"
  shows "\<exists>self' rs. server_run default_registry ops srv (passes inps) self = Some (Inr (), self') \<and>
    list_all2 response_to rs xs \<and> outbox (sv_net self' c) = outbox (sv_net self c) @ concat rs \<and>
    inbox (sv_net self' c) = rest \<and> c \<in> set (sv_conns self')"
proof -
  obtain self' where run: "server_run default_registry ops srv (passes inps) self = Some (Inr (), self')"
    using server_passes_return [OF assms(1,2) _ assms(3,5)] assms(4) by (auto simp: serves_plainly_def)
  have known: "known self c" using assms(6) by (simp add: known_def)
  note proj = server_run_talk [OF run assms(3,1) known well_fed_inputs_ok [OF assms(5)]]
  have "length (filter fst (share c inps)) = length ms"
    using assms(9) by (simp add: share_def filter_map o_def)
  moreover have "\<forall>(b, now)\<in>set (share c inps). seen \<le> now \<and> now \<le> seen + ru_timeout (rules_of self)"
    using assms(11) by (auto simp: share_def rules_of_def)
  ultimately obtain t' rs where t': "talk_run default_registry ops (rules_of self) (share c inps) (talk_of self c) = Some t'"
    and rs: "list_all2 response_to rs xs" "outbox (tk_sock t') = outbox (sv_net self c) @ concat rs"
      "inbox (tk_sock t') = rest" "tk_closed t' = (c \<in> set (sv_closed self))"
    using talk_run_answers [of "rules_of self" ms xs "talk_of self c" rest "share c inps" seen seen] assms(4,7,8,10)
    by (auto simp: serves_plainly_rules talk_of_def)
  have "t' = talk_of self' c" using t' proj by simp
  moreover have "c \<notin> set (sv_closed self)"
    using assms(2) server_ok_conn [OF assms(1,6)] by (auto simp: server_live_def)
  ultimately show ?thesis
    using run rs proj by (intro exI [of _ self'] exI [of _ rs]) (auto simp: talk_of_def known_def)
qed

end

interpretation conn_served: served_socket conn_ops conn_inbox "\<lambda>_. True" cn_out
  by unfold_locales (auto simp: recv_keeps_def send_keeps_def conn_inbox_def split: list.splits)

interpretation oc_served: served_socket oc_ops oc_inbox oc_hung_up oc_outbox
  by unfold_locales
    (auto simp: recv_keeps_def send_keeps_def oc_inbox_def oc_outbox_def conn_inbox_def split: list.splits if_splits prod.splits)

end
