(* ===== verification/Simulation.thy ===== *)
theory Simulation imports Examples Client_Socket Server_Clients begin

text \<open>
  Both simulators at once. A client's socket is a network: the server at its other end, which serves
  what it can as soon as bytes arrive. So the client's code, the server's code and the streams between
  them run as one program, which is what \<open>examples/run_the_simulators.py\<close> and
  \<open>examples/fragmented_send.py\<close> do.
\<close>

section \<open>The network\<close>

text \<open>
  The server's end of the client's connection is \<open>nt_peer\<close>. \<open>nt_clock\<close> is what the server's clock shows
  in each pass, and \<open>nt_up\<close> holds while the server thread runs; \<open>nt_sent\<close> keeps what the client wrote.
  The operating system takes whatever a connected client writes.
\<close>

record 'c net =
  nt_server :: "('c, conn) ModbusServerSimulator"
  nt_listener :: 'c
  nt_peer :: 'c
  nt_addr :: peer
  nt_up :: bool
  nt_clock :: "nat \<Rightarrow> int"
  nt_passes :: nat
  nt_sent :: bytes
  nt_closed :: bool

definition net_conn :: "'c net \<Rightarrow> conn" where
  "net_conn w = sv_net (nt_server w) (nt_peer w)"

definition set_net_conn :: "conn \<Rightarrow> 'c net \<Rightarrow> 'c net" where
  "set_net_conn s w = w\<lparr>nt_server := (nt_server w)\<lparr>sv_net := (sv_net (nt_server w))(nt_peer w := s)\<rparr>\<rparr>"

definition net_input :: "'c list \<Rightarrow> 'c net \<Rightarrow> 'c pass_input" where
  "net_input ready w = \<lparr>in_ready = ready, in_now = nt_clock w (nt_passes w), in_accepted = Inr (nt_peer w, nt_addr w),
     in_wrap = (\<lambda>_. Inl SSLError), in_getpeername = (\<lambda>_. Inr (nt_addr w))\<rparr>"

text \<open>A pass of the server thread, which ends where the pass raises or does not return.\<close>

definition net_pass :: "'c list \<Rightarrow> 'c net \<Rightarrow> 'c net" where
  "net_pass ready w =
     (case server_pass default_registry conn_ops (nt_listener w) (net_input ready w) (nt_server w) of
        None \<Rightarrow> w\<lparr>nt_up := False\<rparr>
      | Some (Inl e, server) \<Rightarrow> w\<lparr>nt_server := server, nt_up := False\<rparr>
      | Some (Inr _, server) \<Rightarrow> w\<lparr>nt_server := server, nt_passes := Suc (nt_passes w)\<rparr>)"

text \<open>The connection is one the server selects on.\<close>

definition net_selected :: "'c net \<Rightarrow> bool" where
  "net_selected w = (nt_up w \<and> nt_peer w \<in> set (sv_read_list (nt_server w)) \<and> nt_peer w \<notin> set (sv_closed (nt_server w)))"

fun net_catch_up :: "nat \<Rightarrow> 'c net \<Rightarrow> 'c net" where
  "net_catch_up 0 w = w"
| "net_catch_up (Suc n) w =
     (if net_selected w \<and> decided (conn_inbox (net_conn w)) then net_catch_up n (net_pass [nt_peer w] w) else w)"

definition net_push :: "bytes \<Rightarrow> 'c net \<Rightarrow> 'c net" where
  "net_push m w = (set_net_conn ((net_conn w)\<lparr>cn_in := cn_in (net_conn w) @ [m]\<rparr>) w)\<lparr>nt_sent := nt_sent w @ m\<rparr>"

definition net_send :: "'c net \<Rightarrow> bytes \<Rightarrow> int pyres \<times> 'c net" where
  "net_send w m =
     (let w = net_push m w in (Inr (int (length m)), net_catch_up (length (conn_inbox (net_conn w))) w))"

text \<open>Where nothing was written to it, a client reads the end of a connection the server closed, or it times out.\<close>

definition net_recv :: "'c net \<Rightarrow> int \<Rightarrow> bytes pyres \<times> 'c net" where
  "net_recv w n =
     (let s = net_conn w; out = cn_out s
      in if out \<noteq> [] then (Inr (take (nat n) out), set_net_conn (s\<lparr>cn_out := drop (nat n) out\<rparr>) w)
         else if nt_peer w \<in> set (sv_closed (nt_server w)) then (Inr [], w)
         else (Inl TimeoutError, w))"

definition net_ops :: "'c net sock_ops" where
  "net_ops = \<lparr>sock_recv = (\<lambda>w n. Some (net_recv w n)), sock_send = net_send, sock_nodelay = (\<lambda>w. (Inr (), w))\<rparr>"

text \<open>The server notices a client that hangs up when it next looks.\<close>

definition net_close :: "'c net \<Rightarrow> unit pyres \<times> 'c net" where
  "net_close w = (Inr (), (if net_selected w \<and> \<not> nt_closed w then net_pass [nt_peer w] w else w)\<lparr>nt_closed := True\<rparr>)"

definition net_connect :: "'c net \<Rightarrow> string \<times> int \<Rightarrow> unit pyres \<times> 'c net" where
  "net_connect w addr =
     (if nt_up w \<and> snd addr = sv_port (nt_server w) then (Inr (), net_pass [nt_listener w] w) else (Inl OSError, w))"

definition net_os :: "'c net client_os" where
  "net_os = \<lparr>
     os_settimeout = (\<lambda>w t. if nt_closed w then (Inl OSError, w)
       else if (case t of None \<Rightarrow> False | Some n \<Rightarrow> n < 0) then (Inl ValueError, w) else (Inr (), w)),
     os_wrap_socket = (\<lambda>c h w. (Inl SSLError, w)),
     os_connect = net_connect,
     os_is_ssl = (\<lambda>w. False),
     os_unwrap = (\<lambda>w. (Inl ValueError, w)),
     os_shutdown = (\<lambda>w. (Inr (), w)),
     os_close = net_close,
     os_setsockopt = (\<lambda>w l n v. if nt_closed w then (Inl OSError, w) else (Inr (), w)),
     os_getsockopt = (\<lambda>w l n. if nt_closed w then Inl OSError else Inr 65536),
     os_SOL_SOCKET = 1, os_SO_RCVBUF = 8, os_SO_LINGER = 13\<rparr>"

section \<open>The two scripts\<close>

text \<open>
  What the operating system settles: the listening socket and its port, what \<open>start\<close> sees while it
  waits, the socket and name the client is accepted under, and the clock.
\<close>

record 'c scene =
  sc_listen :: "'c listen_input"
  sc_now :: int
  sc_polls :: "poll list"
  sc_peer :: 'c
  sc_addr :: peer
  sc_clock :: "nat \<Rightarrow> int"

definition new_net :: "'c scene \<Rightarrow> ('c, conn) ModbusServerSimulator \<Rightarrow> 'c net" where
  "new_net sc server = \<lparr>nt_server = server, nt_listener = li_sock (sc_listen sc), nt_peer = sc_peer sc, nt_addr = sc_addr sc,
     nt_up = sv_started server, nt_clock = sc_clock sc, nt_passes = 0, nt_sent = [], nt_closed = False\<rparr>"

text \<open>\<open>server.stop()\<close> and \<open>server.join()\<close>.\<close>

definition net_stop :: "'c net \<Rightarrow> 'c net" where
  "net_stop w =
     (let server = server_stop (nt_server w)
      in if nt_up w
         then (case server_run default_registry conn_ops (nt_listener w) [] server of
                 None \<Rightarrow> w\<lparr>nt_server := server\<rparr>
               | Some (_, server') \<Rightarrow> w\<lparr>nt_server := server', nt_up := False\<rparr>)
         else w\<lparr>nt_server := server\<rparr>)"

text \<open>What both scripts do around their exchange; no network is left where no server came up.\<close>

definition with_server ::
  "ssl_io \<Rightarrow> 'c scene \<Rightarrow> ('c net \<Rightarrow> (unit run \<times> 'c net) option) \<Rightarrow> (unit run \<times> 'c net option) option" where
  "with_server io sc body =
     (case server_init io (\<lambda>_. \<lparr>cn_in = [], cn_out = [], cn_room = 0\<rparr>) [] 0 0 0 0 10 SECOND None of
        Inl e \<Rightarrow> Some (call (Inl e), None)
      | Inr (self, _) \<Rightarrow>
          (case server_start (Inr ()) (sc_now sc) (sc_polls sc) True STARTUP_TIMEOUT self of
             (None, _) \<Rightarrow> None
           | (Some (Inl e), _) \<Rightarrow> Some (call (Inl e), None)
           | (Some (Inr _), self') \<Rightarrow>
               (let server = thread_started (sc_listen sc) (sc_now sc) self'
                in if \<not> sv_started server then Some (call (Inl SystemExit), None)
                   else case body (new_net sc server) of
                          None \<Rightarrow> None
                        | Some (r, w) \<Rightarrow>
                            Some (and_then (say (''server listening on port '' @ dec_string (sv_port server))) (\<lambda>_. r),
                                  Some (net_stop w)))))"

text \<open>\<open>finally\<close>, where what the clause raises wins.\<close>

definition and_finally :: "unit run \<Rightarrow> unit pyres \<Rightarrow> unit run" where
  "and_finally r d = (fst r, case d of Inl e \<Rightarrow> Inl e | Inr _ \<Rightarrow> snd r)"

definition say_answer :: "(ModbusHeader \<times> pdu) option \<Rightarrow> unit run" where
  "say_answer x = (case x of
     None \<Rightarrow> and_then (say ''None'') (\<lambda>_. say ''None'')
   | Some (header, pdu) \<Rightarrow> and_then (say (ModbusHeader_str header)) (\<lambda>_. and_then (call (dyn_str pdu)) say))"

text \<open>
  The session, from making the client on. The script makes it before its own \<open>try\<close>; the constructor only
  sets a positive time-out on a new socket, which does not raise, so \<open>with_server\<close> stops the server
  after every session there is.
\<close>

definition client_session :: "ssl_io \<Rightarrow> request_args \<Rightarrow> 'c net \<Rightarrow> (unit run \<times> 'c net) option" where
  "client_session io a w =
     (case client_init io net_os w ''localhost'' (sv_port (nt_server w)) 1 0 0 None (Some (10 * SECOND)) of
        Inl e \<Rightarrow> Some (call (Inl e), w)
      | Inr (client, _) \<Rightarrow>
          (case client_connect net_os w None None client of
             (Inl e, client') \<Rightarrow> Some (call (Inl e), stream_sock w client')
           | (Inr _, client') \<Rightarrow>
               (case client_request default_registry net_ops w client' a of
                  None \<Rightarrow> None
                | Some (r, client'') \<Rightarrow>
                    (case client_disconnect net_os client'' of (d, client3, left) \<Rightarrow>
                       Some (and_finally (and_then (call r) say_answer) d,
                             case left of None \<Rightarrow> stream_sock w client3 | Some w' \<Rightarrow> w')))))"

definition read_ten :: request_args where
  "read_ten = (default_args 1)\<lparr>rq_read_address := 0, rq_read_count := 10\<rparr>"

definition run_the_simulators :: "ssl_io \<Rightarrow> 'c scene \<Rightarrow> (unit run \<times> 'c net option) option" where
  "run_the_simulators io sc = with_server io sc (client_session io read_ten)"

text \<open>\<open>run_client\<close>, the console entry point of the client.\<close>

definition run_client ::
  "ssl_io \<Rightarrow> 's sock_ops \<Rightarrow> 's client_os \<Rightarrow> 's \<Rightarrow> (unit pyres \<times> 's ModbusClientSimulator option) option" where
  "run_client io ops os fresh =
     (case client_init io os fresh ''localhost'' 502 1 0 0 None (Some (10 * SECOND)) of
        Inl e \<Rightarrow> Some (Inl e, None)
      | Inr (client, _) \<Rightarrow> (case client_test default_registry ops os fresh 0 16 client of
          None \<Rightarrow> None | Some (r, client') \<Rightarrow> Some (r, Some client')))"

text \<open>\<open>fragmented_send.py\<close>: the stream is used as it is, in pieces of eight bytes.\<close>

definition fragmented_stream :: "'c net \<Rightarrow> 'c net ModbusTcpStream" where
  "fragmented_stream w = \<lparr>ts_sock = w, ts_fragmenter = ModbusFragmenter, ts_frag_delay = 0, ts_frag_size = 8, ts_burst = False\<rparr>"

definition fragmented_exchange :: "'c net \<Rightarrow> (tcp_adu pyres \<times> 'c net) option" where
  "fragmented_exchange w =
     (case bindE (framed (read_coils 0 1)) ModbusTcpRequest_serialize of
        Inl e \<Rightarrow> Some (Inl e, w)
      | Inr message \<Rightarrow>
          (case tcp_send net_ops (fragmented_stream w) message of
             (Inl e, stream) \<Rightarrow> Some (Inl e, ts_sock stream)
           | (Inr _, stream) \<Rightarrow>
               (case tcp_receive net_ops stream of
                  None \<Rightarrow> None
                | Some (r, stream') \<Rightarrow>
                    Some (bindE r (ModbusTcpResponse_deserialize (parse_response default_registry)), ts_sock stream'))))"

definition fragmented_session :: "'c net \<Rightarrow> (unit run \<times> 'c net) option" where
  "fragmented_session w =
     (case os_settimeout net_os w (Some (10 * SECOND)) of
        (Inl e, w1) \<Rightarrow> Some (call (Inl e), w1)
      | (Inr _, w1) \<Rightarrow>
          (case os_connect net_os w1 (''127.0.0.1'', sv_port (nt_server w)) of
             (Inl e, w2) \<Rightarrow> Some (call (Inl e), w2)
           | (Inr _, w2) \<Rightarrow>
               (case fragmented_exchange w2 of
                  None \<Rightarrow> None
                | Some (r, w3) \<Rightarrow>
                    (case os_close net_os w3 of (d, w4) \<Rightarrow>
                       Some (and_finally (and_then (call (bindE r ModbusTcpResponse_str)) say) d, w4)))))"

definition fragmented_send :: "ssl_io \<Rightarrow> 'c scene \<Rightarrow> (unit run \<times> 'c net option) option" where
  "fragmented_send io sc = with_server io sc fragmented_session"

section \<open>The network carries what a stream needs\<close>

lemma net_ops_simps [simp]:
  "sock_recv net_ops w n = Some (net_recv w n)" "socket_read net_ops = net_recv"
  "sock_send net_ops = net_send" "sock_nodelay net_ops w = (Inr (), w)"
  by (simp_all add: net_ops_def socket_read_def fun_eq_iff)

lemma set_net_conn_simps [simp]:
  "net_conn (set_net_conn s w) = s" "nt_peer (set_net_conn s w) = nt_peer w" "nt_up (set_net_conn s w) = nt_up w"
  "nt_listener (set_net_conn s w) = nt_listener w" "nt_sent (set_net_conn s w) = nt_sent w"
  "net_conn (w\<lparr>nt_sent := b\<rparr>) = net_conn w" "set_net_conn (net_conn w) w = w"
  by (simp_all add: net_conn_def set_net_conn_def)

lemma net_pass_keeps [simp]:
  "nt_peer (net_pass ready w) = nt_peer w" "nt_listener (net_pass ready w) = nt_listener w"
  "nt_sent (net_pass ready w) = nt_sent w" "nt_addr (net_pass ready w) = nt_addr w" "nt_clock (net_pass ready w) = nt_clock w"
  by (simp_all add: net_pass_def split: option.split prod.split sum.split)

lemma net_catch_up_keeps [simp]:
  "nt_peer (net_catch_up n w) = nt_peer w" "nt_listener (net_catch_up n w) = nt_listener w"
  "nt_sent (net_catch_up n w) = nt_sent w"
  by (induction n w rule: net_catch_up.induct) simp_all

interpretation net: frame_source net_ops "\<lambda>w. cn_out (net_conn w)"
proof unfold_locales
  fix n :: int and w :: "'c net"
  assume "0 < n" and "cn_out (net_conn w) \<noteq> []"
  then show "\<exists>chunk w'. socket_read net_ops w n = (Inr chunk, w') \<and> chunk \<noteq> [] \<and> int (length chunk) \<le> n \<and>
      cn_out (net_conn w) = chunk @ cn_out (net_conn w')"
    by (simp only: net_ops_simps) (simp add: net_recv_def Let_def)
qed

interpretation net_out: greedy_socket net_ops nt_sent
  by unfold_locales (simp_all add: net_send_def net_push_def Let_def)

interpretation net_life: socket_life net_os nt_closed
  by unfold_locales (auto simp: net_os_def net_close_def is_OSError_def)

section \<open>A frame that is answered\<close>

lemma serve_answers:
  assumes "framed_header m = Some h" and "parse_request default_registry (drop HEADER_SIZE m) = Inr q"
    and "answerable q" and "serves_plainly self" and "conn_inbox (sv_net self c) = m"
  shows "\<exists>s r. server_serve default_registry conn_ops c now self =
      Some (Inr (), self\<lparr>sv_net := (sv_net self)(c := s), sv_last_activity := (sv_last_activity self)(c \<mapsto> now)\<rparr>) \<and>
    conn_inbox s = [] \<and> cn_out s = cn_out (sv_net self c) @ r \<and>
    ModbusTcpResponse_deserialize (parse_response default_registry) r =
      Inr \<lparr>tcp_header = response_header h (response_size q), tcp_pdu = response_pdu q\<rparr>"
proof -
  obtain s1 s2 r where rec: "tcp_receive conn_ops (rules_stream (rules_of self) (sv_net self c)) =
      Some (Inr m, rules_stream (rules_of self) s1)" and "m \<noteq> []"
    and ans: "on_data default_registry conn_ops (sv_handling self) m s1 = (Inr (), s2)"
    and r: "conn_inbox s2 = []" "cn_out s2 = cn_out (sv_net self c) @ r"
      "ModbusTcpResponse_deserialize (parse_response default_registry) r =
        Inr \<lparr>tcp_header = response_header h (response_size q), tcp_pdu = response_pdu q\<rparr>"
    using conn_served.frame_answered [of m h q "rules_of self" "sv_net self c" "[]"] assms
    by (auto simp: answers_frame_def serves_plainly_rules rules_of_def)
  then have "server_serve default_registry conn_ops c now self =
      Some (Inr (), self\<lparr>sv_net := (sv_net self)(c := s2), sv_last_activity := (sv_last_activity self)(c \<mapsto> now)\<rparr>)"
    by (simp add: server_serve_def rules_stream_def rules_of_def Let_def)
  then show ?thesis using r by (intro exI [of _ s2] exI [of _ r]) simp
qed

section \<open>A connection that is up\<close>

text \<open>The server knows the client and no one else, and \<open>u\<close> is what of a frame has reached it.\<close>

definition net_holding :: "bytes \<Rightarrow> 'c net \<Rightarrow> bool" where
  "net_holding u w = (nt_up w \<and> nt_peer w \<noteq> nt_listener w \<and> sv_read_list (nt_server w) = [nt_listener w, nt_peer w] \<and>
     nt_listener w \<notin> set (sv_closed (nt_server w)) \<and> nt_peer w \<notin> set (sv_closed (nt_server w)) \<and>
     serves_plainly (nt_server w) \<and> \<not> sv_quit (nt_server w) \<and> \<not> nt_closed w \<and> conn_inbox (net_conn w) = u)"

lemma print_status_answered:
  assumes "sv_read_list self = c # cs" and "\<And>c. in_getpeername inp c = Inr addr"
  shows "\<exists>t. server_print_status inp self = (Inr (), self\<lparr>sv_last_print := t\<rparr>)"
proof -
  have "server_get_peers (in_getpeername inp) self = Inr (map (\<lambda>_. addr) cs)"
    using assms(2) unfolding server_get_peers_def assms(1) list.sel by (induction cs) simp_all
  then have "server_print_status inp self = (Inr (), self\<lparr>sv_last_print :=
      (if sv_last_print self + SECOND < in_now inp \<and> sv_process_connections self then in_now inp else sv_last_print self)\<rparr>)"
    by (simp add: server_print_status_def)
  then show ?thesis by blast
qed

lemma pass_answers:
  assumes "net_holding m w" and "framed_header m = Some h"
    and "parse_request default_registry (drop HEADER_SIZE m) = Inr q" and "answerable q"
  shows "\<exists>r. net_holding [] (net_pass [nt_peer w] w) \<and> cn_out (net_conn (net_pass [nt_peer w] w)) = cn_out (net_conn w) @ r \<and>
    ModbusTcpResponse_deserialize (parse_response default_registry) r =
      Inr \<lparr>tcp_header = response_header h (response_size q), tcp_pdu = response_pdu q\<rparr>"
proof -
  let ?self = "nt_server w" and ?c = "nt_peer w" and ?now = "nt_clock w (nt_passes w)"
  have up: "nt_peer w \<noteq> nt_listener w" "sv_read_list ?self = [nt_listener w, ?c]" "serves_plainly ?self"
    "nt_listener w \<notin> set (sv_closed ?self)" "?c \<notin> set (sv_closed ?self)" "conn_inbox (sv_net ?self ?c) = m"
    using assms(1) by (simp_all add: net_holding_def net_conn_def)
  obtain s r where served: "server_serve default_registry conn_ops ?c ?now ?self =
      Some (Inr (), ?self\<lparr>sv_net := (sv_net ?self)(?c := s), sv_last_activity := (sv_last_activity ?self)(?c \<mapsto> ?now)\<rparr>)"
    and s: "conn_inbox s = []" "cn_out s = cn_out (sv_net ?self ?c) @ r"
    and r: "ModbusTcpResponse_deserialize (parse_response default_registry) r =
      Inr \<lparr>tcp_header = response_header h (response_size q), tcp_pdu = response_pdu q\<rparr>"
    using serve_answers [OF assms(2-4) up(3,6)] by blast
  define self1 where "self1 = ?self\<lparr>sv_net := (sv_net ?self)(?c := s), sv_last_activity := (sv_last_activity ?self)(?c \<mapsto> ?now)\<rparr>"
  have sweep: "server_sweep_inactive (nt_listener w) ?now self1 = self1"
    using up by (simp add: server_sweep_inactive_def server_sweep_one_def self1_def serves_plainly_def)
  obtain t where "server_print_status (net_input [?c] w) self1 = (Inr (), self1\<lparr>sv_last_print := t\<rparr>)"
    using print_status_answered [of self1 "nt_listener w" "[?c]" "net_input [?c] w" "nt_addr w"] up(2)
    by (auto simp: self1_def net_input_def)
  then have "server_pass default_registry conn_ops (nt_listener w) (net_input [?c] w) ?self =
      Some (Inr (), self1\<lparr>sv_last_print := t\<rparr>)"
    using up served sweep by (simp add: server_pass_def net_input_def flip: self1_def)
  then have "net_pass [?c] w = w\<lparr>nt_server := self1\<lparr>sv_last_print := t\<rparr>, nt_passes := Suc (nt_passes w)\<rparr>"
    by (simp add: net_pass_def)
  then show ?thesis
    using assms(1) s r by (intro exI [of _ r]) (simp add: net_holding_def net_conn_def self1_def serves_plainly_def)
qed

text \<open>A frame is not decided on before its last byte.\<close>

lemma frame_decided:
  assumes "receive_spec m = (Inr m, [])" and "m \<noteq> []"
  shows "decided m" and "m = x @ y \<Longrightarrow> y \<noteq> [] \<Longrightarrow> \<not> decided x"
proof -
  have m: "7 \<le> length m" "announced m \<noteq> 0" "length m = 6 + announced m"
    using assms by (auto simp: receive_spec_def split: if_splits)
  then show "decided m" by (simp add: decided_def)
  assume xy: "m = x @ y" "y \<noteq> []"
  then have "7 \<le> length x \<Longrightarrow> announced x = announced m" by (simp add: announced_def nth_append)
  moreover have "length x < length m" using xy by simp
  ultimately show "\<not> decided x" using m by (auto simp: decided_def)
qed

lemma net_push_holding:
  assumes "net_holding u w"
  shows "net_holding (u @ f) (net_push f w)" and "cn_out (net_conn (net_push f w)) = cn_out (net_conn w)"
    and "nt_sent (net_push f w) = nt_sent w @ f"
  using assms by (simp_all add: net_holding_def net_push_def set_net_conn_def net_conn_def conn_inbox_def serves_plainly_def)

lemma net_catch_up_rest: "\<not> decided (conn_inbox (net_conn w)) \<Longrightarrow> net_catch_up n w = w"
  by (cases n) simp_all

text \<open>What of a message has been written is held, and all of it is answered.\<close>

definition answered_with :: "ModbusHeader \<Rightarrow> pdu \<Rightarrow> bytes \<Rightarrow> 'c net \<Rightarrow> bool" where
  "answered_with h q out w = (net_holding [] w \<and> (\<exists>r. cn_out (net_conn w) = out @ r \<and>
     ModbusTcpResponse_deserialize (parse_response default_registry) r =
       Inr \<lparr>tcp_header = response_header h (response_size q), tcp_pdu = response_pdu q\<rparr>))"

definition sending :: "bytes \<Rightarrow> bytes \<Rightarrow> bytes \<Rightarrow> ModbusHeader \<Rightarrow> pdu \<Rightarrow> 'c net \<Rightarrow> bool" where
  "sending before out m h q w = (\<exists>x. nt_sent w = before @ x \<and> (\<forall>y. m = x @ y \<longrightarrow>
     (if y = [] then answered_with h q out w else net_holding x w \<and> cn_out (net_conn w) = out)))"

lemma net_send_holding:
  assumes "net_holding u w"
  shows "\<not> decided (u @ f) \<Longrightarrow> snd (net_send w f) = net_push f w"
    and "framed_header (u @ f) = Some h \<Longrightarrow> parse_request default_registry (drop HEADER_SIZE (u @ f)) = Inr q \<Longrightarrow>
      answerable q \<Longrightarrow> answered_with h q (cn_out (net_conn w)) (snd (net_send w f))"
proof -
  note pushed = net_push_holding [OF assms, of f]
  have inbox: "conn_inbox (net_conn (net_push f w)) = u @ f" using pushed(1) by (simp add: net_holding_def)
  show "snd (net_send w f) = net_push f w" if "\<not> decided (u @ f)"
    using that by (simp add: net_send_def Let_def net_catch_up_rest inbox)
  assume frame: "framed_header (u @ f) = Some h" and q: "parse_request default_registry (drop HEADER_SIZE (u @ f)) = Inr q"
    and ok: "answerable q"
  have "drop HEADER_SIZE (u @ f) \<noteq> []" using q by auto
  then have "length (u @ f) \<noteq> HEADER_SIZE" by auto
  note whole = framed_whole [OF frame this]
  obtain k where k: "length (u @ f) = Suc k" using whole(2) by (cases "length (u @ f)") auto
  let ?w = "net_pass [nt_peer w] (net_push f w)"
  have peer: "nt_peer (net_push f w) = nt_peer w" by (simp add: net_push_def set_net_conn_def)
  obtain r where r: "net_holding [] ?w" "cn_out (net_conn ?w) = cn_out (net_conn w) @ r"
    "ModbusTcpResponse_deserialize (parse_response default_registry) r =
      Inr \<lparr>tcp_header = response_header h (response_size q), tcp_pdu = response_pdu q\<rparr>"
    using pass_answers [OF pushed(1) frame q ok] pushed(2) peer by auto
  have "net_selected (net_push f w)" using pushed(1) by (simp add: net_selected_def net_holding_def)
  then have "snd (net_send w f) = net_catch_up k ?w"
    using frame_decided(1) [OF whole] by (simp add: net_send_def Let_def inbox k peer del: length_append)
  also have "\<dots> = ?w" using r(1) by (intro net_catch_up_rest) (simp add: net_holding_def)
  finally show "answered_with h q (cn_out (net_conn w)) (snd (net_send w f))"
    using r by (auto simp: answered_with_def)
qed

lemma net_send_nothing:
  assumes "net_holding [] w"
  shows "net_holding [] (snd (net_send w []))" and "cn_out (net_conn (snd (net_send w []))) = cn_out (net_conn w)"
  using net_send_holding(1) [OF assms, of "[]"] net_push_holding [OF assms, of "[]"] by simp_all

lemma sending_kept:
  assumes "framed_header m = Some h" and "parse_request default_registry (drop HEADER_SIZE m) = Inr q" and "answerable q"
  shows "send_keeps net_ops (sending before out m h q :: 'c net \<Rightarrow> bool)"
proof -
  have "drop HEADER_SIZE m \<noteq> []" using assms(2) by auto
  then have "length m \<noteq> HEADER_SIZE" by auto
  note whole = framed_whole [OF assms(1) this]
  {
    fix w :: "'c net" and f
    assume "sending before out m h q w"
    then obtain x where x: "nt_sent w = before @ x"
      and all: "\<forall>y. m = x @ y \<longrightarrow> (if y = [] then answered_with h q out w else net_holding x w \<and> cn_out (net_conn w) = out)"
      unfolding sending_def by blast
    note now = all [rule_format]
    have "if y = [] then answered_with h q out (snd (net_send w f))
        else net_holding (x @ f) (snd (net_send w f)) \<and> cn_out (net_conn (snd (net_send w f))) = out"
      if m: "m = (x @ f) @ y" for y
    proof (cases "f @ y = []")
      case True
      then show ?thesis using now [of "[]"] m net_send_nothing [of w] by (auto simp: answered_with_def)
    next
      case False
      then have held: "net_holding x w" "cn_out (net_conn w) = out" using now [of "f @ y"] m by auto
      show ?thesis
        using net_send_holding [OF held(1), of f] net_push_holding [OF held(1), of f] held(2) assms m
          frame_decided(2) [OF whole m] by auto
    qed
    moreover have "nt_sent (snd (net_send w f)) = before @ (x @ f)"
      using x by (simp add: net_send_def net_push_def Let_def)
    ultimately have "sending before out m h q (snd (net_send w f))" unfolding sending_def by blast
  }
  then show ?thesis by (simp add: send_keeps_def)
qed

section \<open>A request is answered\<close>

definition net_idle :: "'c net \<Rightarrow> bool" where
  "net_idle w = (net_holding [] w \<and> cn_out (net_conn w) = [])"

definition net_ends :: "'c net \<Rightarrow> 'c \<times> 'c" where
  "net_ends w = (nt_listener w, nt_peer w)"

lemma ends_kept: "recv_keeps net_ops (\<lambda>w. net_ends w = e)" "send_keeps net_ops (\<lambda>w. net_ends w = e)"
  by (auto simp: recv_keeps_def send_keeps_def net_recv_def net_send_def net_push_def net_ends_def Let_def)

lemma recv_keeps_holding: "recv_keeps net_ops (net_holding u)"
  by (auto simp: recv_keeps_def net_recv_def Let_def net_holding_def set_net_conn_def net_conn_def conn_inbox_def serves_plainly_def)

lemma request_answered:
  fixes w :: "'c net"
  assumes "client_pdu a = Inr p" and "dyn_serialize p = Inr b" and "length b \<le> 65534" and "dyn_violations p = Inr []"
    and "client_ready self" and "cl_sock self = Some w" and "net_idle w"
  shows "\<exists>w'. client_request default_registry net_ops fresh self a =
      Some (Inr (Some (response_header (request_header self (int (length b))) (response_size p), response_pdu p)),
        (awaiting self w')\<lparr>cl_pending_trans_id := None\<rparr>) \<and> net_idle w' \<and> net_ends w' = net_ends w"
proof -
  let ?h = "request_header self (int (length b))"
  obtain w1 m where sent: "send_request net_ops fresh self a = (Inr (), awaiting self w1)" "nt_sent w1 = nt_sent w @ m"
    and m: "framed_header m = Some ?h" "drop HEADER_SIZE m = b"
    using net_out.send_request_sends [OF assms(1-3,5,6)] by blast
  have parsed: "parse_request default_registry (drop HEADER_SIZE m) = Inr p"
    using request_parser.des_ser [OF _ assms(2)] client_pdu_registered [OF assms(1)] by (simp add: m)
  note keeps = sending_kept [OF m(1) parsed client_pdu_answerable [OF assms(1,4)]]
  have "b \<noteq> []" using parsed m by auto
  then have "m \<noteq> []" using m by auto
  then have "sending (nt_sent w) [] m ?h p w" using assms(7) by (auto simp: sending_def net_idle_def)
  from send_request_keeps_sock [OF keeps assms(6) this, of fresh a] sent
  have "sending (nt_sent w) [] m ?h p w1" by (auto simp: awaiting_def)
  then have "answered_with ?h p [] w1" using sent(2) by (auto simp: sending_def)
  then obtain r where w1: "net_holding [] w1" and r: "cn_out (net_conn w1) = r"
    "ModbusTcpResponse_deserialize (parse_response default_registry) r =
      Inr \<lparr>tcp_header = response_header ?h (response_size p), tcp_pdu = response_pdu p\<rparr>"
    by (auto simp: answered_with_def)
  have wait: "cl_pending_trans_id (awaiting self w1) = Some (cl_next_trans_id self)" "cl_sock (awaiting self w1) = Some w1"
    by (simp_all add: awaiting_def take_trans_id_def Let_def)
  from net.wait_response_finds [OF wait list_all2_Nil [THEN iffD2, OF refl] _ r(2), of "[]" fresh] r(1)
  obtain w2 where out: "cn_out (net_conn w2) = []"
    and got: "wait_response default_registry net_ops fresh (awaiting self w1) =
      Some (Inr (Some (response_header ?h (response_size p), response_pdu p)), (awaiting self w1)\<lparr>cl_pending_trans_id := None, cl_sock := Some w2\<rparr>)"
    by (auto simp: response_header_def request_header_def)
  have "net_holding [] w2" using wait_response_keeps_sock [OF got recv_keeps_holding wait(2) w1] by simp
  moreover have "net_ends w1 = net_ends w"
    using send_request_keeps_sock [OF ends_kept(2) assms(6) refl, of fresh a] sent(1) by (simp add: awaiting_def)
  then have "net_ends w2 = net_ends w" using wait_response_keeps_sock [OF got ends_kept(1) wait(2)] by simp
  ultimately show ?thesis
    using sent(1) got out by (intro exI [of _ w2]) (simp add: client_request_def net_idle_def awaiting_def)
qed

section \<open>A session\<close>

text \<open>One request after another, the answers kept.\<close>

fun ask_all ::
  "registry \<Rightarrow> 's sock_ops \<Rightarrow> 's \<Rightarrow> request_args list \<Rightarrow> 's ModbusClientSimulator \<Rightarrow>
     ((ModbusHeader \<times> pdu) option list pyres \<times> 's ModbusClientSimulator) option" where
  "ask_all reg ops fresh [] self = Some (Inr [], self)"
| "ask_all reg ops fresh (a # as) self =
     (case client_request reg ops fresh self a of
        None \<Rightarrow> None
      | Some (Inl e, self') \<Rightarrow> Some (Inl e, self')
      | Some (Inr x, self') \<Rightarrow>
          (case ask_all reg ops fresh as self' of
             None \<Rightarrow> None
           | Some (r, self'') \<Rightarrow> Some (bindE r (\<lambda>xs. Inr (x # xs)), self'')))"

definition conforms :: "request_args \<Rightarrow> pdu \<Rightarrow> bool" where
  "conforms a p = (client_pdu a = Inr p \<and> dyn_violations p = Inr [] \<and>
     (case dyn_serialize p of Inl _ \<Rightarrow> False | Inr b \<Rightarrow> length b \<le> 65534))"

text \<open>What the client is left as: ready, on the same settings, with the next identifier.\<close>

definition asked :: "'s ModbusClientSimulator \<Rightarrow> 's \<Rightarrow> 's ModbusClientSimulator" where
  "asked self s = (awaiting self s)\<lparr>cl_pending_trans_id := None\<rparr>"

lemma asked_simps [simp]:
  "cl_sock (asked self s) = Some s" "client_ready self \<Longrightarrow> client_ready (asked self s)"
  "cl_unit_id (asked self s) = cl_unit_id self" "cl_next_trans_id (asked self s) = (cl_next_trans_id self + 1) mod TRANS_ID_MODULO"
  "cl_host (asked self s) = cl_host self" "cl_port (asked self s) = cl_port self"
  by (simp_all add: asked_def awaiting_def take_trans_id_def Let_def client_ready_def trans_id_ok_def TRANS_ID_MODULO_def)

lemma session_answered:
  fixes w :: "'c net"
  assumes "list_all2 conforms as ps" and "client_ready self" and "cl_sock self = Some w" and "net_idle w"
  shows "\<exists>hs self' w'. ask_all default_registry net_ops fresh as self = Some (Inr (map Some (zip hs (map response_pdu ps))), self') \<and>
    length hs = length ps \<and> map trans_id hs = take_trans_ids (length ps) self \<and> (\<forall>h\<in>set hs. unit_id h = cl_unit_id self) \<and>
    cl_sock self' = Some w' \<and> net_idle w' \<and> net_ends w' = net_ends w \<and> client_ready self'"
  using assms
proof (induction as ps arbitrary: self w rule: list_all2_induct)
  case Nil
  then show ?case by simp
next
  case (Cons a as p ps)
  obtain b where b: "client_pdu a = Inr p" "dyn_violations p = Inr []" "dyn_serialize p = Inr b" "length b \<le> 65534"
    using Cons.hyps(1) by (auto simp: conforms_def split: sum.splits)
  let ?h = "response_header (request_header self (int (length b))) (response_size p)"
  obtain w1 where one: "client_request default_registry net_ops fresh self a = Some (Inr (Some (?h, response_pdu p)), asked self w1)"
    and w1: "net_idle w1" "net_ends w1 = net_ends w"
    using request_answered [OF b(1,3,4,2) Cons.prems] unfolding asked_def by blast
  obtain hs self' w' where rest: "ask_all default_registry net_ops fresh as (asked self w1) =
      Some (Inr (map Some (zip hs (map response_pdu ps))), self')"
    and hs: "length hs = length ps" "map trans_id hs = take_trans_ids (length ps) (asked self w1)"
      "\<forall>h\<in>set hs. unit_id h = cl_unit_id self"
    and end_state: "cl_sock self' = Some w'" "net_idle w'" "net_ends w' = net_ends w" "client_ready self'"
    using Cons.IH [of "asked self w1" w1] Cons.prems(1) w1 by auto
  have "take_trans_ids k (asked self w1) = take_trans_ids k (snd (take_trans_id self))" for k
    using Cons.prems(1)
    by (subst (1 2) take_trans_ids_eq) (simp_all add: client_ready_def trans_id_ok_def take_trans_id_def Let_def TRANS_ID_MODULO_def)
  then have "take_trans_ids (length (p # ps)) self = cl_next_trans_id self # take_trans_ids (length ps) (asked self w1)"
    by (simp add: take_trans_id_def Let_def)
  then show ?case
    using one rest hs end_state
    by (intro exI [of _ "?h # hs"] exI [of _ self'] exI [of _ w']) (simp add: response_header_def request_header_def)
qed

section \<open>Coming and going\<close>

text \<open>A server that has just come up on its defaults, before the client connects.\<close>

definition net_listening :: "'c net \<Rightarrow> bool" where
  "net_listening w = (nt_up w \<and> nt_peer w \<noteq> nt_listener w \<and> sv_read_list (nt_server w) = [nt_listener w] \<and>
     sv_closed (nt_server w) = [] \<and> \<not> sv_tls (nt_server w) \<and> sv_process_connections (nt_server w) \<and>
     0 < sv_connection_limit (nt_server w) \<and> serves_plainly (nt_server w) \<and> \<not> sv_quit (nt_server w) \<and> \<not> nt_closed w \<and>
     conn_inbox (net_conn w) = [] \<and> cn_out (net_conn w) = [])"

lemma net_accepts:
  assumes "net_listening w"
  shows "net_idle (net_pass [nt_listener w] w)"
proof -
  let ?now = "nt_clock w (nt_passes w)"
  define self1 where "self1 = server_record (nt_peer w) (nt_addr w) ?now (nt_server w)"
  have up: "nt_peer w \<noteq> nt_listener w" "sv_read_list (nt_server w) = [nt_listener w]" "sv_closed (nt_server w) = []"
    "serves_plainly (nt_server w)"
    using assms by (simp_all add: net_listening_def)
  have self1: "sv_read_list self1 = [nt_listener w, nt_peer w]" "sv_last_activity self1 (nt_peer w) = Some ?now"
    "sv_inactive_timeout self1 = sv_inactive_timeout (nt_server w)"
    using assms by (simp_all add: self1_def server_record_def net_listening_def Let_def)
  have acc: "server_accept_connection (Inr (nt_peer w, nt_addr w)) wrap ?now (nt_server w) = (Inr (), self1)" for wrap
    using assms by (simp add: server_accept_connection_def server_secure_def net_listening_def self1_def)
  have sweep: "server_sweep_inactive (nt_listener w) ?now self1 = self1"
    using up self1 by (simp add: server_sweep_inactive_def server_sweep_one_def serves_plainly_def)
  obtain t where "server_print_status (net_input [nt_listener w] w) self1 = (Inr (), self1\<lparr>sv_last_print := t\<rparr>)"
    using print_status_answered [OF self1(1), of "net_input [nt_listener w] w" "nt_addr w"] by (auto simp: net_input_def)
  then have "net_pass [nt_listener w] w = w\<lparr>nt_server := self1\<lparr>sv_last_print := t\<rparr>, nt_passes := Suc (nt_passes w)\<rparr>"
    using up acc sweep by (simp add: net_pass_def server_pass_def net_input_def)
  then show ?thesis
    using assms self1 by (simp add: net_idle_def net_holding_def net_listening_def net_conn_def self1_def server_record_def
        serves_plainly_def Let_def)
qed

text \<open>A client that hangs up is forgotten, and the listener is left.\<close>

definition net_left :: "'c net \<Rightarrow> bool" where
  "net_left w = (nt_up w \<and> nt_closed w \<and> sv_read_list (nt_server w) = [nt_listener w] \<and>
     nt_listener w \<notin> set (sv_closed (nt_server w)) \<and> nt_peer w \<in> set (sv_closed (nt_server w)))"

lemma net_hangs_up:
  assumes "net_idle w"
  shows "\<exists>w'. net_close w = (Inr (), w') \<and> net_left w' \<and> nt_listener w' = nt_listener w \<and> nt_peer w' = nt_peer w"
proof -
  let ?self = "nt_server w" and ?c = "nt_peer w" and ?now = "nt_clock w (nt_passes w)"
  have up: "nt_peer w \<noteq> nt_listener w" "sv_read_list ?self = [nt_listener w, ?c]" "serves_plainly ?self"
    "nt_listener w \<notin> set (sv_closed ?self)" "?c \<notin> set (sv_closed ?self)" "conn_inbox (sv_net ?self ?c) = []"
    using assms by (simp_all add: net_idle_def net_holding_def net_conn_def)
  define st where "st = \<lparr>ts_sock = sv_net ?self ?c, ts_fragmenter = ModbusFragmenter,
    ts_frag_delay = sv_frag_delay ?self, ts_frag_size = sv_frag_size ?self, ts_burst = False\<rparr>"
  obtain s where rec: "tcp_receive conn_ops st = Some (Inr [], st\<lparr>ts_sock := s\<rparr>)"
    using conn.receive_refines [of st] up(3,6) by (auto simp: st_def serves_plainly_def receive_spec_def)
  define self1 where "self1 = server_forget ?c (?self\<lparr>sv_net := (sv_net ?self)(?c := s)\<rparr>)"
  have served: "server_serve default_registry conn_ops ?c ?now ?self = Some (Inr (), self1)"
    using rec by (simp add: server_serve_def st_def [symmetric] Let_def self1_def)
  have self1: "sv_read_list self1 = [nt_listener w]" "sv_closed self1 = ?c # sv_closed ?self"
    using up by (simp_all add: self1_def server_forget_def server_disconnect_def Let_def)
  have sweep: "server_sweep_inactive (nt_listener w) ?now self1 = self1"
    by (simp add: server_sweep_inactive_def server_sweep_one_def self1)
  obtain t where "server_print_status (net_input [?c] w) self1 = (Inr (), self1\<lparr>sv_last_print := t\<rparr>)"
    using print_status_answered [OF self1(1), of "net_input [?c] w" "nt_addr w"] by (auto simp: net_input_def)
  then have "net_pass [?c] w = w\<lparr>nt_server := self1\<lparr>sv_last_print := t\<rparr>, nt_passes := Suc (nt_passes w)\<rparr>"
    using up served sweep by (simp add: net_pass_def server_pass_def net_input_def)
  then show ?thesis
    using assms up self1
    by (simp add: net_close_def net_selected_def net_idle_def net_holding_def net_left_def)
qed

lemma net_stops:
  assumes "net_left w"
  shows "\<not> sv_started (nt_server (net_stop w)) \<and> \<not> nt_up (net_stop w) \<and> nt_closed (net_stop w) \<and>
    {nt_listener w, nt_peer w} \<subseteq> set (sv_closed (nt_server (net_stop w)))"
  using assms
  by (simp add: net_stop_def net_left_def server_stop_def server_close_listener_def server_disconnect_def Let_def)

section \<open>What the scripts do\<close>

text \<open>A listener that binds and listens, is seen to be up in time, and accepts the client on another socket.\<close>

definition scene_ok :: "'c scene \<Rightarrow> bool" where
  "scene_ok sc = (li_bind (sc_listen sc) ([], 0) = Inr () \<and> li_listen (sc_listen sc) 10 = Inr () \<and>
     start_wait (sc_polls sc) (sc_now sc + STARTUP_TIMEOUT) = Some (Inr ()) \<and> sc_peer sc \<noteq> li_sock (sc_listen sc))"

lemma with_server_runs:
  fixes sc :: "'c scene"
  assumes "scene_ok sc"
  obtains w where "net_listening w" and "nt_listener w = li_sock (sc_listen sc)" and "nt_peer w = sc_peer sc"
    and "sv_port (nt_server w) = li_port (sc_listen sc)"
    and "with_server io sc body = (case body w of None \<Rightarrow> None
      | Some (r, w') \<Rightarrow> Some (and_then (say (''server listening on port '' @ dec_string (li_port (sc_listen sc)))) (\<lambda>_. r),
          Some (net_stop w')))"
proof -
  obtain self :: "('c, conn) ModbusServerSimulator" where init: "server_init io (\<lambda>_. \<lparr>cn_in = [], cn_out = [], cn_room = 0\<rparr>) [] 0 0 0 0 10 SECOND None = Inr (self, [])"
    and self: "sv_host self = []" "sv_port self = 0" "sv_connection_limit self = 10" "sv_read_list self = []" "sv_closed self = []"
      "\<not> sv_tls self" "serves_plainly self" "\<not> sv_quit self" "sv_net self = (\<lambda>_. \<lparr>cn_in = [], cn_out = [], cn_room = 0\<rparr>)"
    by (simp add: server_init_def simulator_port_def serves_plainly_def SECOND_def)
  define self1 where "self1 = self\<lparr>sv_process_connections := True, sv_startup_error := None\<rparr>"
  define server where "server = self1\<lparr>sv_port := li_port (sc_listen sc), sv_read_list := [li_sock (sc_listen sc)],
    sv_last_activity := Map.empty, sv_last_print := sc_now sc, sv_started := True\<rparr>"
  have start: "server_start (Inr ()) (sc_now sc) (sc_polls sc) True STARTUP_TIMEOUT self = (Some (Inr ()), self1)"
    using assms by (simp add: server_start_def self1_def scene_ok_def)
  have up: "thread_started (sc_listen sc) (sc_now sc) self1 = server"
    using assms self by (simp add: thread_started_def server_open_listener_def self1_def server_def scene_ok_def Let_def)
  have srv: "sv_port server = li_port (sc_listen sc)" "sv_started server" by (simp_all add: server_def)
  let ?w = "new_net sc server"
  have "net_listening ?w"
    using assms self
    by (simp add: net_listening_def new_net_def server_def self1_def serves_plainly_def net_conn_def conn_inbox_def scene_ok_def)
  moreover have "nt_listener ?w = li_sock (sc_listen sc)" "nt_peer ?w = sc_peer sc" "sv_port (nt_server ?w) = li_port (sc_listen sc)"
    by (simp_all add: new_net_def server_def)
  moreover have "with_server io sc body = (case body ?w of None \<Rightarrow> None
      | Some (r, w') \<Rightarrow> Some (and_then (say (''server listening on port '' @ dec_string (li_port (sc_listen sc)))) (\<lambda>_. r),
          Some (net_stop w')))"
    using init start up srv by (simp add: with_server_def Let_def split: option.split)
  ultimately show thesis by (rule that)
qed

text \<open>What a client prints of an answer, and how a session over a server that came up ends.\<close>

definition answer_lines :: "pdu \<Rightarrow> string list" where
  "answer_lines p = [ModbusHeader_str \<lparr>trans_id = 0, prot_id = 0, hdr_length = response_size p + 1, unit_id = 1\<rparr>,
     shown_text (shown (response_pdu p))]"

lemma client_session_runs:
  fixes w :: "'c net"
  assumes "net_listening w" and "conforms a p"
  shows "\<exists>w'. client_session io a w = Some ((answer_lines p, Inr ()), w') \<and>
    net_left w' \<and> nt_listener w' = nt_listener w \<and> nt_peer w' = nt_peer w"
proof -
  obtain b where b: "client_pdu a = Inr p" "dyn_violations p = Inr []" "dyn_serialize p = Inr b" "length b \<le> 65534"
    using assms(2) by (auto simp: conforms_def split: sum.splits)
  define client where "client = \<lparr>cl_timeout = Some (10 * SECOND), cl_host = ''localhost'', cl_port = sv_port (nt_server w),
    cl_unit_id = 1, cl_frag_size = 0, cl_frag_delay = 0, cl_next_trans_id = 0, cl_pending_trans_id = None,
    cl_tls = None, cl_crypto = None, cl_sock = Some w\<rparr>"
  have open': "\<not> nt_closed w" "nt_up w" using assms(1) by (simp_all add: net_listening_def)
  have init: "client_init io net_os w ''localhost'' (sv_port (nt_server w)) 1 0 0 None (Some (10 * SECOND)) = Inr (client, [])"
    using open' by (simp add: client_init_def client_def net_os_def SECOND_def simulator_port_def)
  let ?w1 = "net_pass [nt_listener w] w"
  let ?client1 = "client\<lparr>cl_sock := Some ?w1\<rparr>"
  have conn: "client_connect net_os w None None client = (Inr (), ?client1)"
    using open' by (simp add: client_connect_def client_def stream_sock_def net_os_def net_connect_def SECOND_def Let_def)
  have ready: "client_ready ?client1" by (simp add: client_ready_def client_def trans_id_ok_def TRANS_ID_MODULO_def fits_def code_max_def)
  obtain w2 where ask: "client_request default_registry net_ops w ?client1 a = Some (Inr (Some (response_header
      (request_header ?client1 (int (length b))) (response_size p), response_pdu p)), asked ?client1 w2)" and w2: "net_idle w2" "net_ends w2 = net_ends ?w1"
    using request_answered [OF b(1,3,4,2) ready _ net_accepts [OF assms(1)], of w] unfolding asked_def by auto
  obtain w3 where close: "net_close w2 = (Inr (), w3)" and w3: "net_left w3" "nt_listener w3 = nt_listener w2" "nt_peer w3 = nt_peer w2"
    using net_hangs_up [OF w2(1)] by blast
  have "client_disconnect net_os (asked ?client1 w2) = (Inr (), (asked ?client1 w2)\<lparr>cl_sock := None\<rparr>, Some w3)"
    using close by (simp add: client_disconnect_def say_goodbye_def ignore_OSError_def net_os_def)
  moreover have "say_answer (Some (response_header (request_header ?client1 (int (length b))) (response_size p), response_pdu p)) =
      (answer_lines p, Inr ())"
    by (simp add: say_answer_def answer_lines_def dyn_str_shown say_def call_def and_then_def response_header_def request_header_def client_def)
  ultimately have "client_session io a w = Some ((answer_lines p, Inr ()), w3)"
    using init conn ask by (simp add: client_session_def and_finally_def and_then_def call_def)
  moreover have "nt_listener w2 = nt_listener w" "nt_peer w2 = nt_peer w" using w2(2) by (simp_all add: net_ends_def)
  ultimately show ?thesis using w3 by auto
qed

text \<open>The stream reassembles its reply, whatever pieces the request left in.\<close>

lemma fragmented_exchange_runs:
  assumes "net_idle w"
  shows "\<exists>w'. fragmented_exchange w = Some (Inr \<lparr>tcp_header = \<lparr>trans_id = 0, prot_id = 0, hdr_length = 4, unit_id = 1\<rparr>,
      tcp_pdu = response_pdu (read_coils 0 1)\<rparr>, w') \<and> net_idle w' \<and> net_ends w' = net_ends w"
proof -
  let ?m = "[0, 0, 0, 0, 0, 6, 1, 1, 0, 0, 0, 1] :: bytes" and ?h = "\<lparr>trans_id = 0, prot_id = 0, hdr_length = 6, unit_id = 1\<rparr>"
  have m: "bindE (framed (read_coils 0 1)) ModbusTcpRequest_serialize = Inr ?m" by code_simp
  have h: "framed_header ?m = Some ?h" "parse_request default_registry (drop HEADER_SIZE ?m) = Inr (read_coils 0 1)"
    "response_size (read_coils 0 1) = 3"
    by code_simp+
  have ok: "answerable (read_coils 0 1)" by code_simp
  note keeps = sending_kept [OF h(1,2) ok]
  obtain fs where fs: "fragment ModbusFragmenter ?m 8 = Inr fs" "concat fs = ?m"
    using fragmenter.fragment_ok [of 8 ?m] by auto
  obtain w1 where sent: "tcp_send net_ops (fragmented_stream w) ?m = (Inr (), fragmented_stream w1)" "nt_sent w1 = nt_sent w @ ?m"
    using net_out.tcp_send_all [OF _ _ fs(2), of "fragmented_stream w"] fs(1) by (auto simp: fragmented_stream_def)
  have "sending (nt_sent w) [] ?m ?h (read_coils 0 1) w" using assms by (auto simp: sending_def net_idle_def)
  then have "sending (nt_sent w) [] ?m ?h (read_coils 0 1) w1" and ends1: "net_ends w1 = net_ends w"
    using tcp_send_keeps [OF keeps, where st = "fragmented_stream w" and m = ?m]
      tcp_send_keeps [OF ends_kept(2), where st = "fragmented_stream w" and m = ?m] sent(1)
    by (simp_all add: fragmented_stream_def)
  then have "answered_with ?h (read_coils 0 1) [] w1" using sent(2) by (auto simp: sending_def)
  then obtain r where w1: "net_holding [] w1" and r: "cn_out (net_conn w1) = r"
    "ModbusTcpResponse_deserialize (parse_response default_registry) r =
      Inr \<lparr>tcp_header = \<lparr>trans_id = 0, prot_id = 0, hdr_length = 4, unit_id = 1\<rparr>, tcp_pdu = response_pdu (read_coils 0 1)\<rparr>"
    by (auto simp: answered_with_def response_header_def h(3))
  obtain w2 where rec: "tcp_receive net_ops (fragmented_stream w1) = Some (Inr r, fragmented_stream w2)" and out: "cn_out (net_conn w2) = []"
    using net.receive_frame [of "fragmented_stream w1" r "[]"] response_frame(1) [OF r(2), where rest = "[]"] response_frame(2) [OF r(2)] r(1)
    by (auto simp: fragmented_stream_def)
  have "net_holding [] w2" "net_ends w2 = net_ends w"
    using tcp_receive_keeps [OF rec recv_keeps_holding] tcp_receive_keeps [OF rec ends_kept(1)] w1 ends1
    by (simp_all add: fragmented_stream_def)
  then show ?thesis
    using m sent(1) rec r(2) out by (intro exI [of _ w2]) (simp add: fragmented_exchange_def net_idle_def, simp add: fragmented_stream_def)
qed

lemma fragmented_session_runs:
  fixes w :: "'c net"
  assumes "net_listening w"
  shows "\<exists>w'. fragmented_session w = Some (([''MODBUS TCP RSP -> | HEADER: (Trans-ID: 0, Prot-ID: 0, Length: 4, Unit-ID: 1) | '' @
      shown_text (shown (response_pdu (read_coils 0 1)))], Inr ()), w') \<and>
    net_left w' \<and> nt_listener w' = nt_listener w \<and> nt_peer w' = nt_peer w"
proof -
  let ?w1 = "net_pass [nt_listener w] w"
  have open': "\<not> nt_closed w" "nt_up w" using assms by (simp_all add: net_listening_def)
  then have conn: "os_settimeout net_os w (Some (10 * SECOND)) = (Inr (), w)"
    "os_connect net_os w (''127.0.0.1'', sv_port (nt_server w)) = (Inr (), ?w1)"
    by (simp_all add: net_os_def net_connect_def SECOND_def)
  obtain w2 where ex: "fragmented_exchange ?w1 = Some (Inr \<lparr>tcp_header = \<lparr>trans_id = 0, prot_id = 0, hdr_length = 4, unit_id = 1\<rparr>,
      tcp_pdu = response_pdu (read_coils 0 1)\<rparr>, w2)" and w2: "net_idle w2" "net_ends w2 = net_ends ?w1"
    using fragmented_exchange_runs [OF net_accepts [OF assms]] by blast
  obtain w3 where close: "net_close w2 = (Inr (), w3)" and w3: "net_left w3" "nt_listener w3 = nt_listener w2" "nt_peer w3 = nt_peer w2"
    using net_hangs_up [OF w2(1)] by blast
  have "ModbusHeader_str \<lparr>trans_id = 0, prot_id = 0, hdr_length = 4, unit_id = 1\<rparr> =
      ''HEADER: (Trans-ID: 0, Prot-ID: 0, Length: 4, Unit-ID: 1)''"
    by (simp add: ModbusHeader_str_def printing)
  then have "fragmented_session w = Some (([''MODBUS TCP RSP -> | HEADER: (Trans-ID: 0, Prot-ID: 0, Length: 4, Unit-ID: 1) | '' @
      shown_text (shown (response_pdu (read_coils 0 1)))], Inr ()), w3)"
    using conn ex close
    by (simp add: fragmented_session_def net_os_def and_finally_def and_then_def call_def say_def ModbusTcpResponse_str_def
        tcp_str_def dyn_str_shown)
  then show ?thesis using w3 w2(2) by (simp add: net_ends_def)
qed

section \<open>The scripts, from start to end\<close>

text \<open>The server is down at the end, and the listener and both ends of the connection are closed.\<close>

definition shut_down :: "'c scene \<Rightarrow> 'c net \<Rightarrow> bool" where
  "shut_down sc w = (\<not> nt_up w \<and> \<not> sv_started (nt_server w) \<and> nt_closed w \<and>
     {li_sock (sc_listen sc), sc_peer sc} \<subseteq> set (sv_closed (nt_server w)))"

lemma with_server_ends:
  assumes "scene_ok sc"
    and "\<And>w. net_listening w \<Longrightarrow> \<exists>w'. body w = Some ((lines, Inr ()), w') \<and> net_left w' \<and>
      nt_listener w' = nt_listener w \<and> nt_peer w' = nt_peer w"
  shows "\<exists>w. with_server io sc body =
    Some (((''server listening on port '' @ dec_string (li_port (sc_listen sc))) # lines, Inr ()), Some w) \<and> shut_down sc w"
proof (rule with_server_runs [OF assms(1), of io body])
  fix w
  assume w: "net_listening w" "nt_listener w = li_sock (sc_listen sc)" "nt_peer w = sc_peer sc"
    and run: "with_server io sc body = (case body w of None \<Rightarrow> None
      | Some (r, w') \<Rightarrow> Some (and_then (say (''server listening on port '' @ dec_string (li_port (sc_listen sc)))) (\<lambda>_. r),
          Some (net_stop w')))"
  obtain w' where "body w = Some ((lines, Inr ()), w')" and w': "net_left w'" "nt_listener w' = nt_listener w" "nt_peer w' = nt_peer w"
    using assms(2) [OF w(1)] by blast
  then show ?thesis
    using run net_stops [OF w'(1)] w(2,3) by (simp add: and_then_def say_def shut_down_def)
qed

lemma run_the_simulators_runs:
  assumes "scene_ok sc"
  shows "\<exists>w. run_the_simulators io sc = Some (([''server listening on port '' @ dec_string (li_port (sc_listen sc)),
      ''HEADER: (Trans-ID: 0, Prot-ID: 0, Length: 5, Unit-ID: 1)'', ''PDU: (FC: 01, Data: (2, 255, 255))''], Inr ()), Some w) \<and>
    shut_down sc w"
proof -
  have "client_pdu read_ten = Inr (BitsPdu (ModbusRequestFC1 0 10))"
    "dyn_violations (BitsPdu (ModbusRequestFC1 0 10)) = Inr []"
    "dyn_serialize (BitsPdu (ModbusRequestFC1 0 10)) = Inr [1, 0, 0, 0, 10]"
    by code_simp+
  then have ask: "conforms read_ten (BitsPdu (ModbusRequestFC1 0 10))" by (simp add: conforms_def)
  have lines: "answer_lines (BitsPdu (ModbusRequestFC1 0 10)) =
      [''HEADER: (Trans-ID: 0, Prot-ID: 0, Length: 5, Unit-ID: 1)'', ''PDU: (FC: 01, Data: (2, 255, 255))'']"
    by code_simp
  show ?thesis
    unfolding run_the_simulators_def
    by (intro with_server_ends [OF assms]) (use client_session_runs [OF _ ask, of _ io] lines in simp)
qed

lemma fragmented_send_runs:
  assumes "scene_ok sc"
  shows "\<exists>w. fragmented_send io sc = Some (([''server listening on port '' @ dec_string (li_port (sc_listen sc)),
      ''MODBUS TCP RSP -> | HEADER: (Trans-ID: 0, Prot-ID: 0, Length: 4, Unit-ID: 1) | PDU: (FC: 01, Data: (1, 255))''], Inr ()),
      Some w) \<and> shut_down sc w"
proof -
  have "shown_text (shown (response_pdu (read_coils 0 1))) = ''PDU: (FC: 01, Data: (1, 255))''" by code_simp
  then show ?thesis
    unfolding fragmented_send_def
    by (intro with_server_ends [OF assms]) (use fragmented_session_runs in simp)
qed

section \<open>The built-in exercise against the built-in server\<close>

lemma list_all2_mapI: "map f xs = map Inr ys \<Longrightarrow> \<forall>y\<in>set ys. Q y \<Longrightarrow> list_all2 (\<lambda>x y. f x = Inr y \<and> Q y) xs ys"
  by (induction xs arbitrary: ys) auto

lemma test_requests_conform:
  assumes "0 \<le> addr" and "addr \<le> 0xFFFF" and "1 \<le> count" and "count \<le> 0x79"
  shows "list_all2 conforms (test_requests addr count) (test_pdus addr count)"
proof -
  have "dyn_violations p = Inr [] \<and> (case dyn_serialize p of Inl _ \<Rightarrow> False | Inr b \<Rightarrow> length b \<le> 65534)"
    if p: "p \<in> set (test_pdus addr count)" for p
  proof -
    have "count_agrees p" using p assms(3) by (auto simp: test_pdus_def Let_def)
    then have "\<exists>b. dyn_serialize p = Inr b"
      unfolding dyn_serializes using test_pdus_size [OF p assms(3,4)] test_pdus_typed [OF assms p] by simp
    then obtain b where "dyn_serialize p = Inr b" ..
    then show ?thesis
      using test_pdus_conform [OF assms(3,4) p] dyn_ser_len [of p b] test_pdus_len [OF p assms(3,4)] by simp
  qed
  then show ?thesis
    unfolding conforms_def by (intro list_all2_mapI test_requests_pdus [OF assms(3)]) blast
qed

lemma request_all_asked:
  "ask_all reg ops fresh as self = Some (Inr xs, self') \<Longrightarrow> request_all reg ops fresh as self = Some (Inr (), self')"
  by (induction as arbitrary: self xs) (auto simp: res_simps split: option.splits sum.splits)

lemma client_test_runs:
  fixes w :: "'c net"
  assumes "net_listening w" and "cl_port self = sv_port (nt_server w)" and "cl_tls self = None"
    and "client_ready self" and "cl_sock self = Some w" and "\<forall>t. cl_timeout self = Some t \<longrightarrow> 0 \<le> t"
    and "0 \<le> addr" and "addr \<le> 0xFFFF" and "1 \<le> count" and "count \<le> 0x79"
  shows "\<exists>self1 hs self2 self'. client_connect net_os fresh None None self = (Inr (), self1) \<and>
    ask_all default_registry net_ops fresh (test_requests addr count) self1 =
      Some (Inr (map Some (zip hs (map response_pdu (test_pdus addr count)))), self2) \<and>
    length hs = length (test_pdus addr count) \<and> map trans_id hs = take_trans_ids (length hs) self1 \<and>
    request_all default_registry net_ops fresh (test_requests addr count) self1 = Some (Inr (), self2) \<and>
    client_test default_registry net_ops net_os fresh addr count self = Some (Inr (), self') \<and> cl_sock self' = None"
proof -
  have open': "\<not> nt_closed w" "nt_up w" using assms(1) by (simp_all add: net_listening_def)
  let ?self1 = "self\<lparr>cl_sock := Some (net_pass [nt_listener w] w)\<rparr>"
  have conn: "client_connect net_os fresh None None self = (Inr (), ?self1)"
    using open' assms by (auto simp: client_connect_def stream_sock_def net_os_def net_connect_def Let_def split: option.split)
  have ready: "client_ready ?self1" using assms(4) by (simp add: client_ready_def trans_id_ok_def)
  obtain hs self2 w2 where ask: "ask_all default_registry net_ops fresh (test_requests addr count) ?self1 =
      Some (Inr (map Some (zip hs (map response_pdu (test_pdus addr count)))), self2)"
    and hs: "length hs = length (test_pdus addr count)" "map trans_id hs = take_trans_ids (length hs) ?self1"
    and w2: "cl_sock self2 = Some w2" "net_idle w2"
    using session_answered [OF test_requests_conform [OF assms(7-10)] ready _ net_accepts [OF assms(1)], of fresh] by auto
  have "client_disconnect net_os self2 = (Inr (), self2\<lparr>cl_sock := None\<rparr>, Some (snd (net_close w2)))"
    using w2(1) by (simp add: client_disconnect_def say_goodbye_def ignore_OSError_def net_os_def net_close_def)
  then show ?thesis
    using conn ask hs request_all_asked [OF ask]
    by (intro exI [of _ ?self1] exI [of _ hs] exI [of _ self2] exI [of _ "self2\<lparr>cl_sock := None\<rparr>"]) (simp add: client_test_def)
qed

lemma run_client_runs:
  fixes w :: "'c net"
  assumes "net_listening w" and "sv_port (nt_server w) = 502"
  shows "\<exists>client. run_client io net_ops net_os w = Some (Inr (), Some client) \<and> cl_sock client = None"
proof -
  define client where "client = \<lparr>cl_timeout = Some (10 * SECOND), cl_host = ''localhost'', cl_port = 502, cl_unit_id = 1,
    cl_frag_size = 0, cl_frag_delay = 0, cl_next_trans_id = 0, cl_pending_trans_id = None, cl_tls = None, cl_crypto = None,
    cl_sock = Some w\<rparr>"
  have "client_init io net_os w ''localhost'' 502 1 0 0 None (Some (10 * SECOND)) = Inr (client, [])"
    using assms(1) by (simp add: client_init_def client_def net_os_def SECOND_def simulator_port_def net_listening_def)
  moreover have "client_ready client"
    by (simp add: client_ready_def client_def trans_id_ok_def TRANS_ID_MODULO_def fits_def code_max_def)
  then have "\<exists>self'. client_test default_registry net_ops net_os w 0 16 client = Some (Inr (), self') \<and> cl_sock self' = None"
    using client_test_runs [OF assms(1), of client 0 16 w] assms(2) by (auto simp: client_def SECOND_def)
  ultimately show ?thesis by (auto simp: run_client_def)
qed

end
