(* ===== verification/Server_Bounds.thy ===== *)
theory Server_Bounds imports Server_Response begin

text \<open>
  How much the server writes. Whatever bytes it is handed, an answer is no longer than the longest
  response a count byte can announce, behind its header, or than what was sent: no request makes the
  server write more. The specification's own limits on a read are tighter, and the server does not check
  them, so a read just beyond them is answered with a frame the specification has no room for.
\<close>

lemma counted_length:
  assumes "struct_pack (fmt_format (PduFormat e [UByte, UByte] (Some c)) n) (fc # count # vs) = Inr s"
  shows "count \<le> 255 \<and> 0 \<le> n \<and> int (length s) = 2 + n * int (code_size c) \<and> int (length vs) = n"
proof -
  have "list_all2 fits ([UByte, UByte] @ replicate (nat n) c) (fc # count # vs)"
    using assms pack_format_Inr_iff [of e "[UByte, UByte]" c n "fc # count # vs"] by blast
  then show ?thesis using struct_pack_repeat [OF assms] by (simp add: fits_def code_max_def)
qed

lemma error_common_length: "common_serialize (create_err_rsp fc) = Inr r \<Longrightarrow> length r = 2"
  using error_length by simp

lemma bits_response_bound:
  assumes "dyn_serialize (response_pdu (BitsPdu p)) = Inr r"
  shows "length r \<le> 257"
  using assms
  by (cases p) (auto simp: create_fc1_rsp_def create_fc2_rsp_def create_fc5_rsp_def create_fc15_rsp_def Let_def
      bits_serialize_eqs res_simps dest!: fixed_length counted_length error_common_length)

lemma registers_response_bound:
  assumes "dyn_serialize (response_pdu (RegistersPdu p)) = Inr r"
  shows "length r \<le> 257"
  using assms
  by (cases p) (auto simp: create_fc3_rsp_def create_fc4_rsp_def create_fc6_rsp_def create_fc16_rsp_def create_fc22_rsp_def
      create_fc23_rsp_def Let_def registers_serialize_eqs res_simps dest!: fixed_length counted_length error_common_length split: if_splits)

lemma response_bound:
  assumes "dyn_serialize q = Inr b" and "dyn_serialize (response_pdu q) = Inr r"
  shows "length r \<le> max 257 (length b)"
proof (cases q)
  case (CommonPdu p)
  then show ?thesis using assms(2) error_length [of "pdu_fc q" r] by (cases p) (simp_all del: dyn_serialize.simps)
next
  case (DiagnosticsPdu p)
  then show ?thesis
    using assms by (cases p) (auto simp: create_fc7_rsp_def diagnostics_serialize_eqs res_simps dest!: fixed_length error_common_length)
next
  case (EncapsulatedPdu p)
  then show ?thesis
    using assms by (cases p) (auto simp: create_fc43_rsp_def encapsulated_serialize_eqs dest!: error_common_length)
next
  case (BitsPdu p)
  then show ?thesis using bits_response_bound [of p r] assms(2) by simp
next
  case (RegistersPdu p)
  then show ?thesis using registers_response_bound [of p r] assms(2) by simp
qed

context greedy_socket begin

lemma answer_bounded:
  obtains m where "outbox (snd (answer ops h rsp conn)) = outbox conn @ m"
    and "m = [] \<or> (\<exists>b. dyn_serialize rsp = Inr b \<and> length m = HEADER_SIZE + length b)"
proof (cases "snd (answer ops h rsp conn) = conn")
  case True
  then show thesis using that [of "[]"] by simp
next
  case False
  then obtain n where n: "dyn_len rsp = Inr n" by (auto simp: answer_def split: sum.splits)
  define p where "p = \<lparr>tcp_header = \<lparr>trans_id = trans_id h, prot_id = prot_id h, hdr_length = n + 1, unit_id = unit_id h\<rparr>, tcp_pdu = rsp\<rparr>"
  define st where "st = \<lparr>ts_sock = conn, ts_fragmenter = ModbusFragmenter, ts_frag_delay = 0, ts_frag_size = 0, ts_burst = False\<rparr>"
  obtain message where message: "ModbusTcpResponse_serialize p = Inr message"
    using False n by (auto simp: answer_def p_def Let_def split: sum.splits)
  then obtain hb b where b: "message = hb @ b" "ModbusHeader_serialize (tcp_header p) = Inr hb" "dyn_serialize rsp = Inr b"
    by (auto simp: ModbusTcpResponse_serialize_same ModbusTcpPacket_serialize_Inr p_def)
  have "fragment (ts_fragmenter st) message (ts_frag_size st) = Inr [message]"
    by (simp add: st_def ModbusFragmenter_def fragmenter_fragment_def)
  then obtain s' where "tcp_send ops st message = (Inr (), st\<lparr>ts_sock := s'\<rparr>)" and "outbox s' = outbox conn @ message"
    using tcp_send_all [of st message "[message]"] by (auto simp: st_def)
  then have "outbox (snd (answer ops h rsp conn)) = outbox conn @ message"
    using n message by (simp add: answer_def Let_def p_def st_def)
  moreover have "length message = HEADER_SIZE + length b" using b header_ser_size [OF b(2)] by simp
  ultimately show thesis using that b(3) by blast
qed

lemma on_data_bounded:
  assumes "cfg_handler cfg = None"
  shows "\<exists>m. outbox (snd (on_data default_registry ops cfg data conn)) = outbox conn @ m \<and>
    length m \<le> max (HEADER_SIZE + 257) (length data)"
proof (cases "ModbusTcpRequest_deserialize (parse_request default_registry) data")
  case (Inl e)
  show ?thesis
  proof (cases "\<exists>h fc. e = ModbusPduParseError h fc")
    case True
    then obtain h fc where e: "e = ModbusPduParseError h fc" by blast
    obtain m where "outbox (snd (answer ops h (CommonPdu (ModbusError fc OMB_EXCEPTION_ILLEGAL_DATA_VALUE)) conn)) = outbox conn @ m"
      and "m = [] \<or> (\<exists>b. dyn_serialize (CommonPdu (ModbusError fc OMB_EXCEPTION_ILLEGAL_DATA_VALUE)) = Inr b \<and> length m = HEADER_SIZE + length b)"
      by (rule answer_bounded)
    then show ?thesis using Inl e by (intro exI [of _ m]) (auto simp: on_data_def ModbusError_serialize_iff)
  next
    case False
    then show ?thesis using Inl by (intro exI [of _ "[]"]) (auto simp: on_data_def split: py_exc.split)
  qed
next
  case (Inr request)
  obtain h q where request: "request = \<lparr>tcp_header = h, tcp_pdu = q\<rparr>" by (cases request) simp
  have "parse_request default_registry (drop HEADER_SIZE data) = Inr q"
    using Inr by (simp add: request request_parser.tcp_request_deserialize_eq split: option.splits sum.splits if_splits)
  then have q: "dyn_serialize q = Inr (drop HEADER_SIZE data)"
    by (rule parse_request_exact [OF registry_ok_default])
  define rsp where "rsp = (if cfg_fail cfg then CommonPdu (create_err_rsp (pdu_fc q)) else response_pdu q)"
  have len: "length b \<le> max 257 (length data - HEADER_SIZE)" if "dyn_serialize rsp = Inr b" for b
    using that response_bound [OF q] error_length [of "pdu_fc q" b] by (auto simp: rsp_def split: if_splits)
  obtain m where m: "outbox (snd (answer ops h rsp conn)) = outbox conn @ m"
    "m = [] \<or> (\<exists>b. dyn_serialize rsp = Inr b \<and> length m = HEADER_SIZE + length b)"
    by (rule answer_bounded)
  have "outbox (snd (on_data default_registry ops cfg data conn)) = outbox conn \<or>
      outbox (snd (on_data default_registry ops cfg data conn)) = outbox conn @ m"
    using Inr assms m(1) by (auto simp: on_data_def request rsp_def Let_def split: sum.split prod.split)
  moreover have "length m \<le> max (HEADER_SIZE + 257) (length data)" using m(2) len by fastforce
  ultimately show ?thesis by auto
qed

end

end
