(* ===== verification/Rtu_Recovery.thy ===== *)
theory Rtu_Recovery imports Rtu_Framing begin

text \<open>
  How the splitter of \<open>src/pyomb/transport/rtu.py\<close> finds its way back. Bytes that are no frame are
  dropped one by one, and a byte that announces a frame that never comes is waited on for no more than
  the longest frame there is. So behind any noise that does not hold a frame itself, every frame sent is
  found as soon as that many bytes have followed, and only the noise is dropped.
\<close>

definition holds_no_frame :: "registry \<Rightarrow> RtuSide \<Rightarrow> bytes \<Rightarrow> bytes \<Rightarrow> bool" where
  "holds_no_frame reg side noise s =
     (\<forall>k<length noise. packet (read_rtu_frame reg (drop k (noise @ s)) side) = None)"

lemma holds_no_frame_Cons:
  "holds_no_frame reg side (b # noise) s \<longleftrightarrow>
     packet (read_rtu_frame reg (b # noise @ s) side) = None \<and> holds_no_frame reg side noise s"
  unfolding holds_no_frame_def by (auto simp: All_less_Suc2)

lemma read_decided:
  assumes "LARGEST_ANNOUNCED_FRAME \<le> length s"
  shows "\<not> incomplete (read_rtu_frame reg s side)"
  using read_rtu_frame_waits [of reg s side] assms by auto

lemma splitter_take_noise:
  assumes "holds_no_frame reg side noise s" and "LARGEST_ANNOUNCED_FRAME \<le> length s"
  shows "splitter_take reg \<lparr>sp_side = side, sp_buffer = noise @ s, sp_resyncs = k\<rparr> =
    splitter_take reg \<lparr>sp_side = side, sp_buffer = s, sp_resyncs = k + length noise\<rparr>"
  using assms
proof (induction noise arbitrary: k)
  case (Cons b noise)
  have "\<not> incomplete (read_rtu_frame reg (b # noise @ s) side)" using Cons.prems(2) by (intro read_decided) simp
  then have "splitter_take reg \<lparr>sp_side = side, sp_buffer = b # noise @ s, sp_resyncs = k\<rparr> =
      splitter_take reg \<lparr>sp_side = side, sp_buffer = noise @ s, sp_resyncs = Suc k\<rparr>"
    using Cons.prems(1) splitter_take_discard [of reg "\<lparr>sp_side = side, sp_buffer = b # noise @ s, sp_resyncs = k\<rparr>"]
    by (simp add: holds_no_frame_Cons splitter_discard_def)
  then show ?case using Cons.IH [of "Suc k"] Cons.prems by (simp add: holds_no_frame_Cons)
qed simp

lemma splitter_drain_noise:
  assumes "holds_no_frame reg side noise s" and "LARGEST_ANNOUNCED_FRAME \<le> length s"
  shows "splitter_drain reg \<lparr>sp_side = side, sp_buffer = noise @ s, sp_resyncs = k\<rparr> =
    splitter_drain reg \<lparr>sp_side = side, sp_buffer = s, sp_resyncs = k + length noise\<rparr>"
  using splitter_take_noise [OF assms] by (simp add: splitter_drain.simps)

lemma splitter_recovers_in_time:
  assumes "list_all2 (sent_sized reg side) selves fs" and "LARGEST_ANNOUNCED_FRAME \<le> length (concat fs)"
    and "holds_no_frame reg side noise (concat fs)" and "concat (d # ds) = noise @ concat fs"
  shows "\<exists>ps. list_all2 (\<lambda>p f. ModbusRtuPacket_deserialize f True = Inr p) ps fs \<and>
    splitter_push_all reg (splitter_init side) (d # ds) =
      (ps, \<lparr>sp_side = side, sp_buffer = [], sp_resyncs = length noise\<rparr>)"
proof -
  have "splitter_push_all reg (splitter_init side) (d # ds) = splitter_push reg (splitter_init side) (noise @ concat fs)"
    using assms(4) splitter_push_all_concat by metis
  also have "\<dots> = splitter_drain reg \<lparr>sp_side = side, sp_buffer = concat fs, sp_resyncs = length noise\<rparr>"
    using splitter_drain_noise [OF assms(3,2), of 0] by (simp add: splitter_push_def splitter_init_def splitter_extend_def)
  finally show ?thesis using splitter_drain_sent [OF assms(1), of "length noise"] by auto
qed

end
