(* ===== verification/Adu_Parsers.thy ===== *)
theory Adu_Parsers imports Adu_Rtu Adu_Tcp begin

text \<open>
  The parser each packet class of \<open>src/pyomb/adu\<close> keeps in its attribute \<open>_pdu_parser\<close>, which \<open>get_parser\<close>
  hands out and \<open>set_parser\<close> replaces, and \<open>deserialize\<close> as it is called: on the parser the class has. A
  parser is a class, its two methods and whether it derives from \<open>ModbusPduParserAbc\<close>.
\<close>

record parser_class =
  pc_derived :: bool
  pc_parse_request :: "bytes \<Rightarrow> pdu pyres"
  pc_parse_response :: "bytes \<Rightarrow> pdu pyres"

datatype adu_class = TcpRequest | TcpResponse | RtuRequest | RtuResponse

type_synonym adu_parsers = "adu_class \<Rightarrow> parser_class"

text \<open>The packaged parser over its registry, and the abstract class, which derives from itself.\<close>

definition ModbusPduParser :: "registry \<Rightarrow> parser_class" where
  "ModbusPduParser reg = \<lparr>pc_derived = True, pc_parse_request = parse_request reg, pc_parse_response = parse_response reg\<rparr>"

definition ModbusPduParserAbc :: parser_class where
  "ModbusPduParserAbc = \<lparr>pc_derived = True, pc_parse_request = (\<lambda>_. Inl NotImplementedError),
     pc_parse_response = (\<lambda>_. Inl NotImplementedError)\<rparr>"

definition default_parsers :: "registry \<Rightarrow> adu_parsers" where
  "default_parsers reg = (\<lambda>_. ModbusPduParser reg)"

definition adu_set_parser :: "adu_class \<Rightarrow> parser_class \<Rightarrow> adu_parsers \<Rightarrow> unit pyres \<times> adu_parsers" where
  "adu_set_parser cls parser st = (if \<not> pc_derived parser then (Inl ModbusPacketError, st) else (Inr (), st(cls := parser)))"

definition ModbusTcpRequest_get_parser :: "adu_parsers \<Rightarrow> parser_class" where
  "ModbusTcpRequest_get_parser st = st TcpRequest"

definition ModbusTcpRequest_set_parser :: "parser_class \<Rightarrow> adu_parsers \<Rightarrow> unit pyres \<times> adu_parsers" where
  "ModbusTcpRequest_set_parser = adu_set_parser TcpRequest"

definition ModbusTcpResponse_get_parser :: "adu_parsers \<Rightarrow> parser_class" where
  "ModbusTcpResponse_get_parser st = st TcpResponse"

definition ModbusTcpResponse_set_parser :: "parser_class \<Rightarrow> adu_parsers \<Rightarrow> unit pyres \<times> adu_parsers" where
  "ModbusTcpResponse_set_parser = adu_set_parser TcpResponse"

definition ModbusRtuRequest_get_parser :: "adu_parsers \<Rightarrow> parser_class" where
  "ModbusRtuRequest_get_parser st = st RtuRequest"

definition ModbusRtuRequest_set_parser :: "parser_class \<Rightarrow> adu_parsers \<Rightarrow> unit pyres \<times> adu_parsers" where
  "ModbusRtuRequest_set_parser = adu_set_parser RtuRequest"

definition ModbusRtuResponse_get_parser :: "adu_parsers \<Rightarrow> parser_class" where
  "ModbusRtuResponse_get_parser st = st RtuResponse"

definition ModbusRtuResponse_set_parser :: "parser_class \<Rightarrow> adu_parsers \<Rightarrow> unit pyres \<times> adu_parsers" where
  "ModbusRtuResponse_set_parser = adu_set_parser RtuResponse"

definition tcp_request_read :: "adu_parsers \<Rightarrow> bytes \<Rightarrow> tcp_adu pyres" where
  "tcp_request_read st = ModbusTcpRequest_deserialize (pc_parse_request (ModbusTcpRequest_get_parser st))"

definition tcp_response_read :: "adu_parsers \<Rightarrow> bytes \<Rightarrow> tcp_adu pyres" where
  "tcp_response_read st = ModbusTcpResponse_deserialize (pc_parse_response (ModbusTcpResponse_get_parser st))"

definition rtu_request_read :: "adu_parsers \<Rightarrow> bytes \<Rightarrow> bool \<Rightarrow> rtu_adu pyres" where
  "rtu_request_read st = ModbusRtuRequest_deserialize (pc_parse_request (ModbusRtuRequest_get_parser st))"

definition rtu_response_read :: "adu_parsers \<Rightarrow> bytes \<Rightarrow> bool \<Rightarrow> rtu_adu pyres" where
  "rtu_response_read st = ModbusRtuResponse_deserialize (pc_parse_response (ModbusRtuResponse_get_parser st))"

lemmas adu_parser_defs =
  ModbusTcpRequest_get_parser_def ModbusTcpResponse_get_parser_def ModbusRtuRequest_get_parser_def
  ModbusRtuResponse_get_parser_def ModbusTcpRequest_set_parser_def ModbusTcpResponse_set_parser_def
  ModbusRtuRequest_set_parser_def ModbusRtuResponse_set_parser_def adu_set_parser_def

section \<open>What is kept\<close>

text \<open>Any sequence of \<open>set_parser\<close> calls, each caught where it raises, leaves a parser in every class.\<close>

definition adu_set_parsers :: "(adu_class \<times> parser_class) list \<Rightarrow> adu_parsers \<Rightarrow> adu_parsers" where
  "adu_set_parsers calls st = foldl (\<lambda>st (cls, parser). snd (adu_set_parser cls parser st)) st calls"

lemma set_parsers_derived: "(\<And>c. pc_derived (st c)) \<Longrightarrow> pc_derived (adu_set_parsers calls st c)"
proof (induction calls arbitrary: st)
  case (Cons x calls)
  have "pc_derived (snd (adu_set_parser (fst x) (snd x) st) c)" for c using Cons.prems by (simp add: adu_set_parser_def)
  from Cons.IH [OF this] show ?case by (simp add: adu_set_parsers_def case_prod_beta)
qed (simp add: adu_set_parsers_def)

text \<open>A class reads with the parser last accepted for it, and with no other class's.\<close>

lemma set_parsers_last:
  assumes "pc_derived parser" and "\<forall>call\<in>set calls. fst call = cls \<longrightarrow> \<not> pc_derived (snd call)"
  shows "adu_set_parsers ((cls, parser) # calls) st cls = parser"
proof -
  have "adu_set_parsers calls st cls = st cls" for st
    using assms(2)
    by (induction calls arbitrary: st) (simp_all add: adu_set_parsers_def adu_set_parser_def case_prod_beta)
  then show ?thesis using assms(1) by (simp add: adu_set_parsers_def adu_set_parser_def)
qed

text \<open>
  \<open>set_parser\<close> looks at where a class derives from, not at what it implements: with the abstract class
  itself set, a whole frame raises what no caller of \<open>deserialize\<close> is told to expect.
\<close>

lemma abstract_parser_raises:
  assumes "framed_header s = Some h"
  shows "tcp_request_read (snd (ModbusTcpRequest_set_parser ModbusPduParserAbc st)) s = Inl NotImplementedError"
  using assms
  by (auto simp: tcp_request_read_def adu_parser_defs ModbusPduParserAbc_def ModbusTcpRequest_deserialize_def framed_header_def
      res_simps Let_def split: sum.splits if_splits)

end
