(* ===== verification/Registry_Store.thy ===== *)
theory Registry_Store imports Pdu_Parser begin

text \<open>
  The registry as the object it is in \<open>src/pyomb/pdu/common.py\<close>: \<open>_registry\<close> refers to a dictionary,
  \<open>register\<close>, \<open>unregister\<close> and \<open>clear_registry\<close> change that dictionary in place, \<open>set_registry\<close> makes
  the class refer to a caller's and \<open>get_registry\<close> hands out the one in use. So two holders of one
  dictionary see each other's changes. Dictionaries are named by their identity, a number; the
  operations refine those of \<open>Pdu_Parser\<close> on the dictionary in use.
\<close>

section \<open>The class and the dictionaries\<close>

record parser_state =
  ps_dicts :: "nat \<Rightarrow> registry"
  ps_registry :: nat

definition current :: "parser_state \<Rightarrow> registry" where
  "current st = ps_dicts st (ps_registry st)"

definition set_dict :: "nat \<Rightarrow> registry \<Rightarrow> parser_state \<Rightarrow> parser_state" where
  "set_dict a reg st = st\<lparr>ps_dicts := (ps_dicts st)(a := reg)\<rparr>"

definition parser_register :: "pdu_type \<Rightarrow> parser_state \<Rightarrow> parser_state" where
  "parser_register t st = set_dict (ps_registry st) (registry_register (current st) t) st"

definition parser_unregister :: "pdu_type \<Rightarrow> parser_state \<Rightarrow> unit pyres \<times> parser_state" where
  "parser_unregister t st = (case registry_unregister (current st) t of
     Inl e \<Rightarrow> (Inl e, st) | Inr reg \<Rightarrow> (Inr (), set_dict (ps_registry st) reg st))"

definition parser_set_registry :: "nat \<Rightarrow> parser_state \<Rightarrow> parser_state" where
  "parser_set_registry a st = st\<lparr>ps_registry := a\<rparr>"

definition parser_get_registry :: "parser_state \<Rightarrow> nat" where
  "parser_get_registry st = ps_registry st"

definition parser_clear_registry :: "parser_state \<Rightarrow> parser_state" where
  "parser_clear_registry st = set_dict (ps_registry st) (registry_clear (current st)) st"

text \<open>\<open>dict(d)\<close>: a dictionary of its own, filed under a fresh identity.\<close>

definition copy_dict :: "nat \<Rightarrow> nat \<Rightarrow> parser_state \<Rightarrow> parser_state" where
  "copy_dict d fresh st = set_dict fresh (ps_dicts st d) st"

section \<open>Any sequence of calls\<close>

datatype parser_call = Register pdu_type | Unregister pdu_type | ClearRegistry | SetRegistry nat

fun parser_step :: "parser_call \<Rightarrow> parser_state \<Rightarrow> unit pyres \<times> parser_state" where
  "parser_step (Register t) st = (Inr (), parser_register t st)"
| "parser_step (Unregister t) st = parser_unregister t st"
| "parser_step ClearRegistry st = (Inr (), parser_clear_registry st)"
| "parser_step (SetRegistry a) st = (Inr (), parser_set_registry a st)"

text \<open>A caller that catches what a call raises goes on with the state it left.\<close>

definition parser_calls :: "parser_call list \<Rightarrow> parser_state \<Rightarrow> parser_state" where
  "parser_calls calls st = foldl (\<lambda>st c. snd (parser_step c st)) st calls"

lemma current_set_dict [simp]:
  "current (set_dict a reg st) = (if a = ps_registry st then reg else current st)"
  "ps_registry (set_dict a reg st) = ps_registry st"
  "ps_dicts (set_dict a reg st) d = (if d = a then reg else ps_dicts st d)"
  by (simp_all add: current_def set_dict_def)

text \<open>On the dictionary in use each call is the registry's operation.\<close>

lemma current_refines:
  "current (parser_register t st) = registry_register (current st) t"
  "current (parser_clear_registry st) = registry_clear (current st)"
  "registry_unregister (current st) t = bindE (fst (parser_unregister t st)) (\<lambda>_. Inr (current (snd (parser_unregister t st))))"
  by (simp_all add: parser_register_def parser_clear_registry_def parser_unregister_def split: sum.split)

text \<open>A dictionary that is not in use is out of reach until it is put to use.\<close>

lemma parser_step_apart:
  assumes "ps_registry st \<noteq> a" and "c \<noteq> SetRegistry a"
  shows "ps_dicts (snd (parser_step c st)) a = ps_dicts st a" and "ps_registry (snd (parser_step c st)) \<noteq> a"
  using assms
  by (cases c; auto simp: parser_register_def parser_unregister_def parser_clear_registry_def parser_set_registry_def
      split: sum.splits)+

lemma parser_calls_apart:
  assumes "ps_registry st \<noteq> a" and "SetRegistry a \<notin> set calls"
  shows "ps_dicts (parser_calls calls st) a = ps_dicts st a"
  using assms
proof (induction calls arbitrary: st)
  case (Cons c calls)
  then have "c \<noteq> SetRegistry a" by auto
  with Cons show ?case using parser_step_apart [of st a c] by (simp add: parser_calls_def)
qed (simp add: parser_calls_def)

lemma copy_restores:
  assumes "fresh \<noteq> parser_get_registry st" and "SetRegistry fresh \<notin> set calls"
  shows "current (parser_set_registry fresh (parser_calls calls (copy_dict (parser_get_registry st) fresh st))) = current st"
proof -
  define saved where "saved = copy_dict (parser_get_registry st) fresh st"
  have "ps_registry saved \<noteq> fresh" "ps_dicts saved fresh = current st"
    using assms(1) by (simp_all add: saved_def copy_dict_def parser_get_registry_def current_def)
  then have "ps_dicts (parser_calls calls saved) fresh = current st"
    using parser_calls_apart [of saved fresh calls] assms(2) by simp
  then show ?thesis by (simp add: saved_def parser_set_registry_def current_def)
qed

text \<open>The dictionary itself is no copy: cleared, it stays cleared when it is set again.\<close>

lemma alias_is_cleared:
  "current (parser_set_registry (parser_get_registry st) (parser_clear_registry st)) k = None"
  by (simp add: current_def parser_set_registry_def parser_get_registry_def parser_clear_registry_def registry_clear_def
      set_dict_def)

lemma alias_parses_generic:
  assumes "s \<noteq> []"
  shows "parse_request (current (parser_set_registry (parser_get_registry st) (parser_clear_registry st))) s =
    dyn_deserialize ModbusPdu_type s"
  unfolding parse_request_eq [OF assms] registry_get_def alias_is_cleared by simp

end
