(* ===== verification/Package.thy ===== *)
theory Package imports Errors begin

text \<open>
  What \<open>import pyomb\<close> and its subpackages offer (\<open>src/pyomb/__init__.py\<close> and the \<open>__init__.py\<close> of
  \<open>adu\<close>, \<open>pdu\<close>, \<open>transport\<close> and \<open>simulators\<close>). A name is bound when the package is imported, or it is
  deferred: then the package's \<open>__getattr__\<close>, which Python calls for a name the package does not hold,
  imports the submodule that defines it. The top package also answers the spellings its protocol errors
  had before, with a warning. Names are strings; what they are bound to is modelled elsewhere.
\<close>

section \<open>A package and reading a name of it\<close>

record package =
  pk_bound :: "string list"
  pk_all :: "string list"
  pk_deferred :: "(string \<times> string) list"
  pk_renamed :: "(string \<times> string) list"

text \<open>Where a name is found: in the package, as its replacement (with a warning), or in a submodule.\<close>

datatype found = Bound string | Renamed string | InSubmodule string string

text \<open>What the submodules behind a deferred name define themselves.\<close>

definition submodule_names :: "(string \<times> string list) list" where
  "submodule_names = [
     (''simulators.client'', [''ModbusClientSimulator'', ''RequestFactory'', ''run_client'']),
     (''simulators.server'', [''DataHandler'', ''ModbusServerSimulator'', ''ResponseFactory'', ''run_server'']),
     (''transport.tls'', [''_UnsetType'', ''UNSET'', ''_T'', ''_resolved'', ''TlsRole'', ''_RoleDefaults'', ''_ROLE_DEFAULTS'',
        ''TlsSettings''])]"

text \<open>\<open>getattr(import_module("." + submodule, package), name)\<close>; \<open>prefix\<close> is the package's own path.\<close>

definition import_attr :: "string \<Rightarrow> string \<Rightarrow> string \<Rightarrow> found pyres" where
  "import_attr prefix submodule name =
     (case map_of submodule_names (prefix @ submodule) of
        None \<Rightarrow> Inl ImportError
      | Some names \<Rightarrow> if name \<in> set names then Inr (InSubmodule (prefix @ submodule) name) else Inl AttributeError)"

definition package_getattr :: "string \<Rightarrow> package \<Rightarrow> string \<Rightarrow> found pyres" where
  "package_getattr prefix p name =
     (case map_of (pk_renamed p) name of
        Some renamed \<Rightarrow> if renamed \<in> set (pk_bound p) then Inr (Renamed renamed) else Inl KeyError
      | None \<Rightarrow>
          (case map_of (pk_deferred p) name of
             None \<Rightarrow> Inl AttributeError
           | Some submodule \<Rightarrow> import_attr prefix submodule name))"

definition package_read :: "string \<Rightarrow> package \<Rightarrow> string \<Rightarrow> found pyres" where
  "package_read prefix p name = (if name \<in> set (pk_bound p) then Inr (Bound name) else package_getattr prefix p name)"

section \<open>The packages\<close>

definition pyomb :: package where
  "pyomb = \<lparr>
   pk_bound = [
     ''warnings'', ''import_module'', ''TYPE_CHECKING'', ''ModbusHeader'', ''ModbusRtuPacket'',
     ''ModbusRtuRequest'', ''ModbusRtuResponse'', ''ModbusTcpPacket'', ''ModbusTcpRequest'',
     ''ModbusTcpResponse'', ''ModbusAcknowledgeError'', ''ModbusBaseError'',
     ''ModbusGatewayPathUnavailableError'', ''ModbusGatewayTargetDeviceFailedToRespondError'',
     ''ModbusIllegalDataAddressError'', ''ModbusIllegalDataValueError'', ''ModbusIllegalFunctionError'',
     ''ModbusMemoryParityError'', ''ModbusModeError'', ''ModbusNetworkError'', ''ModbusPacketError'',
     ''ModbusPduParseError'', ''ModbusProtocolError'', ''ModbusSlaveDeviceBusyError'',
     ''ModbusSlaveDeviceFailureError'', ''ModbusTimeoutError'', ''Logger'', ''ModbusError'', ''ModbusPdu'',
     ''ModbusPduParser'', ''ModbusViolation'', ''MAX_RTU_FRAME'', ''MIN_RTU_FRAME'', ''BytePort'',
     ''ModbusFragmenter'', ''ModbusRtuSplitter'', ''ModbusRtuStream'', ''ModbusTcpReceiver'',
     ''ModbusTcpSender'', ''ModbusTcpStream'', ''RtuRead'', ''RtuSide'', ''read_rtu_frame'', ''_DEFERRED'',
     ''_RENAMED'', ''__version__'', ''__all__'', ''__getattr__''],
   pk_all = [
     ''__version__'', ''ModbusHeader'', ''ModbusPdu'', ''ModbusPduParser'', ''ModbusError'',
     ''ModbusTcpPacket'', ''ModbusTcpRequest'', ''ModbusTcpResponse'', ''ModbusRtuPacket'',
     ''ModbusRtuRequest'', ''ModbusRtuResponse'', ''ModbusViolation'', ''ModbusTcpStream'',
     ''ModbusTcpSender'', ''ModbusTcpReceiver'', ''ModbusFragmenter'', ''ModbusRtuStream'',
     ''ModbusRtuSplitter'', ''BytePort'', ''RtuSide'', ''RtuRead'', ''read_rtu_frame'', ''MIN_RTU_FRAME'',
     ''MAX_RTU_FRAME'', ''ModbusBaseError'', ''ModbusProtocolError'', ''ModbusNetworkError'',
     ''ModbusTimeoutError'', ''ModbusPacketError'', ''ModbusPduParseError'', ''ModbusModeError'',
     ''ModbusIllegalFunctionError'', ''ModbusIllegalDataAddressError'', ''ModbusIllegalDataValueError'',
     ''ModbusSlaveDeviceFailureError'', ''ModbusAcknowledgeError'', ''ModbusSlaveDeviceBusyError'',
     ''ModbusMemoryParityError'', ''ModbusGatewayPathUnavailableError'',
     ''ModbusGatewayTargetDeviceFailedToRespondError'', ''Logger'', ''ModbusClientSimulator'',
     ''ModbusServerSimulator'', ''TlsSettings'', ''TlsRole'', ''UNSET''],
   pk_deferred = [
     (''ModbusClientSimulator'', ''simulators.client''),
     (''ModbusServerSimulator'', ''simulators.server''),
     (''TlsSettings'', ''transport.tls''),
     (''TlsRole'', ''transport.tls''),
     (''UNSET'', ''transport.tls'')],
   pk_renamed = [
     (''ModbusIllegalFunction'', ''ModbusIllegalFunctionError''),
     (''ModbusIllegalDataAddress'', ''ModbusIllegalDataAddressError''),
     (''ModbusIllegalDataValue'', ''ModbusIllegalDataValueError''),
     (''ModbusSlaveDeviceFailure'', ''ModbusSlaveDeviceFailureError''),
     (''ModbusAcknowledge'', ''ModbusAcknowledgeError''),
     (''ModbusSlaveDeviceBusy'', ''ModbusSlaveDeviceBusyError''),
     (''ModbusGatewayPathUnavailable'', ''ModbusGatewayPathUnavailableError''),
     (''ModbusGatewayTargetDeviceFailedToRespond'', ''ModbusGatewayTargetDeviceFailedToRespondError'')]\<rparr>"

definition pyomb_adu :: package where
  "pyomb_adu = \<lparr>
   pk_bound = [
     ''CRC_FMT'', ''CRC_SIZE'', ''ModbusRtuPacket'', ''ModbusRtuRequest'', ''ModbusRtuResponse'',
     ''calc_crc16'', ''validate_crc'', ''ModbusHeader'', ''ModbusTcpPacket'', ''ModbusTcpRequest'',
     ''ModbusTcpResponse'', ''validate_mbap_length'', ''__all__''],
   pk_all = [
     ''CRC_FMT'', ''CRC_SIZE'', ''ModbusHeader'', ''ModbusRtuPacket'', ''ModbusRtuRequest'',
     ''ModbusRtuResponse'', ''ModbusTcpPacket'', ''ModbusTcpRequest'', ''ModbusTcpResponse'', ''calc_crc16'',
     ''validate_crc'', ''validate_mbap_length''],
   pk_deferred = [],
   pk_renamed = []\<rparr>"

definition pyomb_pdu :: package where
  "pyomb_pdu = \<lparr>
   pk_bound = [
     ''ModbusRequestFC1'', ''ModbusRequestFC2'', ''ModbusRequestFC5'', ''ModbusRequestFC15'',
     ''ModbusResponseFC1'', ''ModbusResponseFC2'', ''ModbusResponseFC5'', ''ModbusResponseFC15'',
     ''ModbusError'', ''ModbusPacketAbc'', ''ModbusPdu'', ''ModbusPduParser'', ''ModbusPduParserAbc'',
     ''ModbusViolation'', ''ModbusRequestFC7'', ''ModbusRequestFC8'', ''ModbusResponseFC7'',
     ''ModbusResponseFC8'', ''ModbusRequestFC43'', ''ModbusResponseFC43'', ''ModbusRequestFC3'',
     ''ModbusRequestFC4'', ''ModbusRequestFC6'', ''ModbusRequestFC16'', ''ModbusRequestFC22'',
     ''ModbusRequestFC23'', ''ModbusResponseFC3'', ''ModbusResponseFC4'', ''ModbusResponseFC6'',
     ''ModbusResponseFC16'', ''ModbusResponseFC22'', ''ModbusResponseFC23'', ''__all__''],
   pk_all = [
     ''ModbusError'', ''ModbusPacketAbc'', ''ModbusPdu'', ''ModbusPduParser'', ''ModbusPduParserAbc'',
     ''ModbusRequestFC1'', ''ModbusRequestFC2'', ''ModbusRequestFC3'', ''ModbusRequestFC4'',
     ''ModbusRequestFC5'', ''ModbusRequestFC6'', ''ModbusRequestFC7'', ''ModbusRequestFC8'',
     ''ModbusRequestFC15'', ''ModbusRequestFC16'', ''ModbusRequestFC22'', ''ModbusRequestFC23'',
     ''ModbusRequestFC43'', ''ModbusResponseFC1'', ''ModbusResponseFC2'', ''ModbusResponseFC3'',
     ''ModbusResponseFC4'', ''ModbusResponseFC5'', ''ModbusResponseFC6'', ''ModbusResponseFC7'',
     ''ModbusResponseFC8'', ''ModbusResponseFC15'', ''ModbusResponseFC16'', ''ModbusResponseFC22'',
     ''ModbusResponseFC23'', ''ModbusResponseFC43'', ''ModbusViolation''],
   pk_deferred = [],
   pk_renamed = []\<rparr>"

definition pyomb_transport :: package where
  "pyomb_transport = \<lparr>
   pk_bound = [
     ''import_module'', ''TYPE_CHECKING'', ''MAX_RTU_FRAME'', ''MIN_RTU_FRAME'', ''BytePort'',
     ''ModbusRtuSplitter'', ''ModbusRtuStream'', ''RtuRead'', ''RtuSide'', ''read_rtu_frame'',
     ''ModbusFragmenter'', ''ModbusFragmenterAbc'', ''ModbusReceiverAbc'', ''ModbusSenderAbc'',
     ''ModbusStreamAbc'', ''ModbusTcpReceiver'', ''ModbusTcpSender'', ''ModbusTcpStream'', ''_DEFERRED'',
     ''__all__'', ''__getattr__''],
   pk_all = [
     ''MAX_RTU_FRAME'', ''MIN_RTU_FRAME'', ''UNSET'', ''BytePort'', ''ModbusFragmenter'',
     ''ModbusFragmenterAbc'', ''ModbusReceiverAbc'', ''ModbusRtuSplitter'', ''ModbusRtuStream'',
     ''ModbusSenderAbc'', ''ModbusStreamAbc'', ''ModbusTcpReceiver'', ''ModbusTcpSender'', ''ModbusTcpStream'',
     ''RtuRead'', ''RtuSide'', ''TlsRole'', ''TlsSettings'', ''read_rtu_frame''],
   pk_deferred = [
     (''TlsSettings'', ''tls''),
     (''TlsRole'', ''tls''),
     (''UNSET'', ''tls'')],
   pk_renamed = []\<rparr>"

definition pyomb_simulators :: package where
  "pyomb_simulators = \<lparr>
   pk_bound = [
     ''import_module'', ''TYPE_CHECKING'', ''_DEFERRED'', ''__all__'', ''__getattr__''],
   pk_all = [
     ''ModbusClientSimulator'', ''ModbusServerSimulator'', ''RequestFactory'', ''ResponseFactory'',
     ''run_client'', ''run_server''],
   pk_deferred = [
     (''ModbusClientSimulator'', ''client''),
     (''RequestFactory'', ''client''),
     (''run_client'', ''client''),
     (''ModbusServerSimulator'', ''server''),
     (''ResponseFactory'', ''server''),
     (''run_server'', ''server'')],
   pk_renamed = []\<rparr>"

definition packages :: "(string \<times> package) list" where
  "packages = [([], pyomb), ([], pyomb_adu), ([], pyomb_pdu), (''transport.'', pyomb_transport), (''simulators.'', pyomb_simulators)]"

definition transport_getattr :: "string \<Rightarrow> found pyres" where
  "transport_getattr = package_getattr ''transport.'' pyomb_transport"

definition simulators_getattr :: "string \<Rightarrow> found pyres" where
  "simulators_getattr = package_getattr ''simulators.'' pyomb_simulators"

section \<open>What every package keeps\<close>

definition resolves :: "found pyres \<Rightarrow> bool" where
  "resolves r = (case r of Inl _ \<Rightarrow> False | Inr _ \<Rightarrow> True)"

lemma exported_resolve:
  assumes "(prefix, p) \<in> set packages" and "name \<in> set (pk_all p)"
  shows "resolves (package_read prefix p name)"
proof -
  have "list_all (\<lambda>(prefix, p). list_all (\<lambda>name. resolves (package_read prefix p name)) (pk_all p)) packages"
    by code_simp
  then show ?thesis using assms by (auto simp: list_all_iff)
qed

text \<open>The two tables of a package lead somewhere: to a bound name, and to a submodule that has it.\<close>

definition tables_ok :: "string \<Rightarrow> package \<Rightarrow> bool" where
  "tables_ok prefix p =
     (list_all (\<lambda>(name, renamed). renamed \<in> set (pk_bound p)) (pk_renamed p) \<and>
      list_all (\<lambda>(name, submodule). import_attr prefix submodule name = Inr (InSubmodule (prefix @ submodule) name)) (pk_deferred p))"

lemma packages_tables_ok: "(prefix, p) \<in> set packages \<Longrightarrow> tables_ok prefix p"
proof -
  have "list_all (\<lambda>(prefix, p). tables_ok prefix p) packages" by code_simp
  then show "(prefix, p) \<in> set packages \<Longrightarrow> tables_ok prefix p" by (auto simp: list_all_iff)
qed

text \<open>So \<open>__getattr__\<close> answers the names of its tables and raises \<open>AttributeError\<close> for any other.\<close>

lemma package_getattr_eq:
  assumes "(prefix, p) \<in> set packages"
  shows "package_getattr prefix p name =
    (case map_of (pk_renamed p) name of
       Some renamed \<Rightarrow> Inr (Renamed renamed)
     | None \<Rightarrow> (case map_of (pk_deferred p) name of
                 Some submodule \<Rightarrow> Inr (InSubmodule (prefix @ submodule) name)
               | None \<Rightarrow> Inl AttributeError))"
  using packages_tables_ok [OF assms]
  by (auto simp: package_getattr_def tables_ok_def list_all_iff dest!: map_of_SomeD split: option.split)

text \<open>A retired spelling is its replacement without the suffix, is no longer exported, and its replacement is.\<close>

lemma retired_names:
  assumes "(name, renamed) \<in> set (pk_renamed pyomb)"
  shows "renamed = name @ ''Error''" and "name \<notin> set (pk_all pyomb)" and "renamed \<in> set (pk_all pyomb)"
    and "package_read [] pyomb name = Inr (Renamed renamed)"
proof -
  have "list_all (\<lambda>(name, renamed). renamed = name @ ''Error'' \<and> name \<notin> set (pk_all pyomb) \<and>
      renamed \<in> set (pk_all pyomb) \<and> package_read [] pyomb name = Inr (Renamed renamed)) (pk_renamed pyomb)"
    by code_simp
  then show "renamed = name @ ''Error''" and "name \<notin> set (pk_all pyomb)" and "renamed \<in> set (pk_all pyomb)"
    and "package_read [] pyomb name = Inr (Renamed renamed)"
    using assms by (auto simp: list_all_iff)
qed

text \<open>No name is deferred that is bound already, and each package exports a name once.\<close>

lemma exports_once:
  assumes "(prefix, p) \<in> set packages"
  shows "distinct (pk_all p)" and "set (map fst (pk_deferred p)) \<inter> set (pk_bound p) = {}"
proof -
  have "list_all (\<lambda>(prefix, p). distinct (pk_all p) \<and>
      list_all (\<lambda>name. name \<notin> set (pk_bound p)) (map fst (pk_deferred p))) packages"
    by code_simp
  then show "distinct (pk_all p)" and "set (map fst (pk_deferred p)) \<inter> set (pk_bound p) = {}"
    using assms by (auto simp: list_all_iff)
qed

end
