(* ===== verification/Changelog.thy ===== *)
theory Changelog imports Packet_Text "HOL-Library.Sublist" begin

text \<open>
  The changelog reader the repository's release gates share, \<open>checks/changelog.py\<close>: the version sections
  of a Markdown file, the bullets under one of them, and the links at its foot, each reading past fenced
  blocks. Text is a list of characters of Latin-1, and the two regular expressions are matched as they
  are written: neither has a choice that backtracking could change.
\<close>

section \<open>Strings\<close>

text \<open>White space, to \<open>str.strip\<close> and to \<open>\s\<close> alike.\<close>

definition is_space :: "char \<Rightarrow> bool" where
  "is_space c = (let k = (of_char c :: nat) in 9 \<le> k \<and> k \<le> 13 \<or> 28 \<le> k \<and> k \<le> 32 \<or> k = 133 \<or> k = 160)"

definition lstrip :: "string \<Rightarrow> string" where
  "lstrip s = dropWhile is_space s"

definition str_strip :: "string \<Rightarrow> string" where
  "str_strip s = rev (dropWhile is_space (rev (lstrip s)))"

definition newline :: char where
  "newline = CHR 0x0A"

text \<open>\<open>text.split("\n")\<close>, and its converse.\<close>

fun split_lines :: "string \<Rightarrow> string list" where
  "split_lines [] = [[]]"
| "split_lines (c # cs) =
     (if c = newline then [] # split_lines cs
      else case split_lines cs of [] \<Rightarrow> [[c]] | l # ls \<Rightarrow> (c # l) # ls)"

definition join_lines :: "string list \<Rightarrow> string" where
  "join_lines = str_join [newline]"

definition is_fence :: "string \<Rightarrow> bool" where
  "is_fence line = prefix ''```'' (lstrip line)"

section \<open>The two patterns\<close>

definition UNRELEASED :: string where
  "UNRELEASED = ''Unreleased''"

type_synonym changelog_section = "string \<times> string option"

text \<open>What is left of a string after a prefix.\<close>

definition after :: "string \<Rightarrow> string \<Rightarrow> string option" where
  "after p s = (if prefix p s then Some (drop (length p) s) else None)"

text \<open>\<open>[^\]]+\]\<close>: a label up to its bracket, and what follows.\<close>

definition match_label :: "string \<Rightarrow> (string \<times> string) option" where
  "match_label s =
     (let label = takeWhile (\<lambda>c. c \<noteq> CHR '']'') s
      in case dropWhile (\<lambda>c. c \<noteq> CHR '']'') s of
           [] \<Rightarrow> None
         | _ # rest \<Rightarrow> if label = [] then None else Some (label, rest))"

text \<open>\<open>(\S+)\s*$\<close>, after white space.\<close>

definition match_word :: "string \<Rightarrow> string option" where
  "match_word s =
     (let t = lstrip s; word = takeWhile (\<lambda>c. \<not> is_space c) t
      in if word \<noteq> [] \<and> list_all is_space (dropWhile (\<lambda>c. \<not> is_space c) t) then Some word else None)"

definition match_section :: "string \<Rightarrow> changelog_section option" where
  "match_section line =
     (case after ''## ['' line of
        None \<Rightarrow> None
      | Some s \<Rightarrow>
          (case match_label s of
             None \<Rightarrow> None
           | Some (label, rest) \<Rightarrow>
               (case lstrip rest of
                  [] \<Rightarrow> Some (label, None)
                | c # t \<Rightarrow>
                    if c = CHR ''-'' then (case match_word t of None \<Rightarrow> None | Some date \<Rightarrow> Some (label, Some date))
                    else None)))"

definition match_link :: "string \<Rightarrow> (string \<times> string) option" where
  "match_link line =
     (case after ''['' line of
        None \<Rightarrow> None
      | Some s \<Rightarrow>
          (case match_label s of
             None \<Rightarrow> None
           | Some (label, rest) \<Rightarrow>
               (case after '':'' rest of
                  None \<Rightarrow> None
                | Some t \<Rightarrow> (case match_word t of None \<Rightarrow> None | Some target \<Rightarrow> Some (label, target)))))"

section \<open>The readers\<close>

fun sections_loop :: "bool \<Rightarrow> string list \<Rightarrow> changelog_section list" where
  "sections_loop fenced [] = []"
| "sections_loop fenced (line # lines) =
     (if is_fence line then sections_loop (\<not> fenced) lines
      else if fenced then sections_loop fenced lines
      else case match_section line of
             Some (label, date) \<Rightarrow>
               if label \<noteq> UNRELEASED then (label, date) # sections_loop fenced lines else sections_loop fenced lines
           | None \<Rightarrow> sections_loop fenced lines)"

definition read_sections :: "string \<Rightarrow> changelog_section list" where
  "read_sections text = sections_loop False (split_lines text)"

record body_state =
  bd_entries :: "string list"
  bd_current :: "string list option"
  bd_in_section :: bool
  bd_fenced :: bool

definition flush :: "body_state \<Rightarrow> body_state" where
  "flush st = (case bd_current st of
     None \<Rightarrow> st
   | Some c \<Rightarrow> st\<lparr>bd_entries := bd_entries st @ [str_join '' '' c], bd_current := None\<rparr>)"

definition body_step :: "string \<Rightarrow> string \<Rightarrow> body_state \<Rightarrow> body_state" where
  "body_step label line st =
     (if is_fence line then st\<lparr>bd_fenced := \<not> bd_fenced st\<rparr>
      else if bd_fenced st then st
      else case match_section line of
             Some (l, _) \<Rightarrow> (flush st)\<lparr>bd_in_section := (l = label)\<rparr>
           | None \<Rightarrow>
               if \<not> bd_in_section st then st
               else if prefix ''- '' line then (flush st)\<lparr>bd_current := Some [str_strip (drop 2 line)]\<rparr>
               else (case bd_current st of
                       None \<Rightarrow> st
                     | Some c \<Rightarrow>
                         if str_strip line \<noteq> [] \<and> \<not> prefix ''#'' line
                         then st\<lparr>bd_current := Some (c @ [str_strip line])\<rparr>
                         else flush st))"

definition body_init :: body_state where
  "body_init = \<lparr>bd_entries = [], bd_current = None, bd_in_section = False, bd_fenced = False\<rparr>"

definition read_section_body :: "string \<Rightarrow> string \<Rightarrow> string list" where
  "read_section_body text label = bd_entries (flush (fold (body_step label) (split_lines text) body_init))"

fun links_loop :: "bool \<Rightarrow> string list \<Rightarrow> (string \<times> string) list \<Rightarrow> (string \<times> string) list" where
  "links_loop fenced [] links = links"
| "links_loop fenced (line # lines) links =
     (if is_fence line then links_loop (\<not> fenced) lines links
      else if fenced then links_loop fenced lines links
      else case match_link line of
             Some (label, target) \<Rightarrow> links_loop fenced lines (AList.update label target links)
           | None \<Rightarrow> links_loop fenced lines links)"

definition read_links :: "string \<Rightarrow> (string \<times> string) list" where
  "read_links text = links_loop False (split_lines text) []"

section \<open>Lines\<close>

lemma split_lines_ne [simp]: "split_lines s \<noteq> []"
  by (induction s) (auto split: list.split)

lemma split_lines_line: "newline \<notin> set l \<Longrightarrow> split_lines l = [l]"
  by (induction l) auto

lemma split_lines_append: "newline \<notin> set l \<Longrightarrow> split_lines (l @ newline # s) = l # split_lines s"
  by (induction l) auto

lemma split_join_lines:
  assumes "ls \<noteq> []" and "\<forall>l\<in>set ls. newline \<notin> set l"
  shows "split_lines (join_lines ls) = ls"
  using assms
proof (induction ls)
  case (Cons l ls)
  then show ?case
    by (cases ls) (simp_all add: join_lines_def split_lines_line split_lines_append)
qed simp

section \<open>A heading is read back\<close>

text \<open>What a release writes: a label without a bracket, and a date that is one word.\<close>

definition heading :: "changelog_section \<Rightarrow> string" where
  "heading h = ''## ['' @ fst h @ '']'' @ (case snd h of None \<Rightarrow> [] | Some date \<Rightarrow> '' - '' @ date)"

definition heading_ok :: "changelog_section \<Rightarrow> bool" where
  "heading_ok h = (fst h \<noteq> [] \<and> CHR '']'' \<notin> set (fst h) \<and> newline \<notin> set (fst h) \<and>
     (case snd h of None \<Rightarrow> True | Some date \<Rightarrow> date \<noteq> [] \<and> list_all (\<lambda>c. \<not> is_space c) date))"

lemma space_chars [simp]:
  "is_space (CHR '' '')" "is_space newline" "\<not> is_space (CHR ''-'')" "\<not> is_space (CHR ''`'')" "\<not> is_space (CHR ''#'')"
  by (simp_all add: is_space_def newline_def)

lemma takeWhile_bracket: "CHR '']'' \<notin> set l \<Longrightarrow> takeWhile (\<lambda>c. c \<noteq> CHR '']'') (l @ CHR '']'' # r) = l"
  "CHR '']'' \<notin> set l \<Longrightarrow> dropWhile (\<lambda>c. c \<noteq> CHR '']'') (l @ CHR '']'' # r) = CHR '']'' # r"
  by (induction l) auto

lemma match_word_word: "w \<noteq> [] \<Longrightarrow> list_all (\<lambda>c. \<not> is_space c) w \<Longrightarrow> match_word (CHR '' '' # w) = Some w"
  by (cases w) (auto simp: match_word_def lstrip_def list_all_iff takeWhile_eq_all_conv [THEN iffD2] dropWhile_eq_Nil_conv [THEN iffD2])

lemma match_heading: "heading_ok h \<Longrightarrow> match_section (heading h) = Some h"
  by (cases h; cases "snd h")
    (auto simp: heading_ok_def heading_def match_section_def after_def match_label_def takeWhile_bracket lstrip_def
      match_word_word)

lemma newline_chars [simp]: "newline \<noteq> CHR ''#''" "newline \<noteq> CHR ''[''" "newline \<noteq> CHR '']''" "newline \<noteq> CHR '' ''" "newline \<noteq> CHR ''-''"
  by (simp_all add: newline_def)

lemma heading_newline: "heading_ok h \<Longrightarrow> newline \<notin> set (heading h)"
  using space_chars(2) by (cases "snd h") (auto simp: heading_ok_def heading_def list_all_iff)

lemma heading_fence [simp]: "\<not> is_fence (heading h)"
  by (simp add: heading_def is_fence_def lstrip_def)

section \<open>A document\<close>

text \<open>A bullet is a first line and the lines it was wrapped onto; an entry is a heading and its bullets.\<close>

type_synonym bullet = "string \<times> string list"
type_synonym changelog_entry = "changelog_section \<times> bullet list"

definition bullet_lines :: "bullet \<Rightarrow> string list" where
  "bullet_lines b = (''- '' @ fst b) # map (\<lambda>l. ''  '' @ l) (snd b)"

definition entry_lines :: "changelog_entry \<Rightarrow> string list" where
  "entry_lines e = heading (fst e) # [] # concat (map bullet_lines (snd e)) @ [[]]"

definition bullet_ok :: "bullet \<Rightarrow> bool" where
  "bullet_ok b = (str_strip (fst b) = fst b \<and> newline \<notin> set (fst b) \<and>
     list_all (\<lambda>l. str_strip l = l \<and> l \<noteq> [] \<and> newline \<notin> set l \<and> \<not> prefix ''```'' l) (snd b))"

definition entry_ok :: "changelog_entry \<Rightarrow> bool" where
  "entry_ok e = (heading_ok (fst e) \<and> list_all bullet_ok (snd e))"

definition bullet_text :: "bullet \<Rightarrow> string" where
  "bullet_text b = str_join '' '' (fst b # snd b)"

lemma stripped_head: "str_strip l = l \<Longrightarrow> l \<noteq> [] \<Longrightarrow> \<not> is_space (hd l)"
proof -
  assume l: "str_strip l = l" "l \<noteq> []"
  then have "length l \<le> length (lstrip l)"
    unfolding str_strip_def by (metis length_dropWhile_le length_rev)
  then have "dropWhile is_space l = l"
    by (metis lstrip_def dropWhile_eq_self_iff length_dropWhile_le order_antisym suffix_dropWhile suffix_length_less
        linorder_not_le strict_suffix_def)
  then show ?thesis using l(2) by (metis dropWhile_eq_self_iff)
qed

lemma indented:
  assumes "str_strip l = l" and "l \<noteq> []" and "\<not> prefix ''```'' l"
  shows "str_strip (''  '' @ l) = l" and "\<not> is_fence (''  '' @ l)" and "match_section (''  '' @ l) = None"
proof -
  have "lstrip (''  '' @ l) = l" "lstrip l = l"
    using stripped_head [OF assms(1,2)] assms(2) by (cases l; simp add: lstrip_def)+
  then show "str_strip (''  '' @ l) = l" and "\<not> is_fence (''  '' @ l)"
    using assms(1,3) by (simp_all add: str_strip_def is_fence_def)
qed (simp add: match_section_def after_def)

lemma bullet_head: "\<not> is_fence (''- '' @ a)" "match_section (''- '' @ a) = None"
  by (simp_all add: is_fence_def lstrip_def match_section_def after_def)

lemma blank_line: "\<not> is_fence []" "match_section [] = None" "str_strip [] = []"
  by (simp_all add: is_fence_def lstrip_def match_section_def after_def str_strip_def)

section \<open>The sections of a document\<close>

definition shipped :: "changelog_entry \<Rightarrow> changelog_section list" where
  "shipped e = (if fst (fst e) = UNRELEASED then [] else [fst e])"

lemma sections_skip:
  assumes "list_all (\<lambda>l. \<not> is_fence l \<and> match_section l = None) ls"
  shows "sections_loop False (ls @ rest) = sections_loop False rest"
  using assms by (induction ls) auto

lemma bullets_skip:
  assumes "list_all bullet_ok bs"
  shows "list_all (\<lambda>l. \<not> is_fence l \<and> match_section l = None) (concat (map bullet_lines bs))"
  using assms indented bullet_head
  by (induction bs) (auto simp: bullet_lines_def bullet_ok_def list_all_iff)

lemma sections_document:
  assumes "list_all entry_ok es"
  shows "sections_loop False (concat (map entry_lines es)) = concat (map shipped es)"
  using assms
proof (induction es)
  case (Cons e es)
  obtain h bs where e: "e = (h, bs)" by fastforce
  then have h: "heading_ok h" and bs: "list_all bullet_ok bs" using Cons.prems by (simp_all add: entry_ok_def)
  have lines: "entry_lines e @ ls = heading h # [] # concat (map bullet_lines bs) @ [] # ls" for ls
    by (simp add: e entry_lines_def)
  have ship: "shipped e = (if fst h = UNRELEASED then [] else [h])" by (simp add: e shipped_def)
  have "sections_loop False (entry_lines e @ ls) = shipped e @ sections_loop False ls" for ls
    unfolding lines ship
    using sections_skip [OF bullets_skip [OF bs], of "[] # ls"] match_heading [OF h] blank_line
    by (cases h) simp
  then show ?case using Cons by simp
qed simp

section \<open>The bullets of a section\<close>

lemma flush_simps [simp]:
  "bd_in_section (flush st) = bd_in_section st" "bd_fenced (flush st) = bd_fenced st" "bd_current (flush st) = None"
  by (simp_all add: flush_def split: option.split)

lemma flush_flush [simp]: "bd_current st = None \<Longrightarrow> flush st = st"
  by (simp add: flush_def)

lemma body_wrapped:
  assumes "bd_in_section st" and "\<not> bd_fenced st" and "bd_current st = Some c"
    and "list_all (\<lambda>l. str_strip l = l \<and> l \<noteq> [] \<and> newline \<notin> set l \<and> \<not> prefix ''```'' l) ls"
  shows "fold (body_step label) (map (\<lambda>l. ''  '' @ l) ls) st = st\<lparr>bd_current := Some (c @ ls)\<rparr>"
  using assms
proof (induction ls arbitrary: st c)
  case (Cons l ls)
  then have "body_step label (''  '' @ l) st = st\<lparr>bd_current := Some (c @ [l])\<rparr>"
    using indented [of l] by (simp add: body_step_def)
  with Cons show ?case by simp
qed simp

lemma body_bullet:
  assumes "bd_in_section st" and "\<not> bd_fenced st" and "bullet_ok b"
  shows "fold (body_step label) (bullet_lines b) st = (flush st)\<lparr>bd_current := Some (fst b # snd b)\<rparr>"
proof -
  have "body_step label (''- '' @ fst b) st = (flush st)\<lparr>bd_current := Some [fst b]\<rparr>"
    using assms bullet_head by (simp add: body_step_def bullet_ok_def)
  moreover have "fold (body_step label) (map (\<lambda>l. ''  '' @ l) (snd b)) ((flush st)\<lparr>bd_current := Some [fst b]\<rparr>) =
      (flush st)\<lparr>bd_current := Some (fst b # snd b)\<rparr>"
    using body_wrapped [of "(flush st)\<lparr>bd_current := Some [fst b]\<rparr>" "[fst b]" "snd b" label] assms
    by (simp add: bullet_ok_def)
  ultimately show ?thesis by (simp add: bullet_lines_def)
qed

lemma body_bullets:
  assumes "bd_in_section st" and "\<not> bd_fenced st" and "list_all bullet_ok bs"
  shows "flush (fold (body_step label) (concat (map bullet_lines bs)) st) =
    (flush st)\<lparr>bd_entries := bd_entries (flush st) @ map bullet_text bs\<rparr>"
  using assms
proof (induction bs arbitrary: st)
  case (Cons b bs)
  then show ?case
    using body_bullet [of st b label] by (simp add: flush_def [of "_\<lparr>bd_current := Some _\<rparr>"] bullet_text_def)
qed simp

lemma body_outside:
  assumes "\<not> bd_in_section st" and "\<not> bd_fenced st" and "list_all (\<lambda>l. \<not> is_fence l \<and> match_section l = None) ls"
  shows "fold (body_step label) ls st = st"
  using assms by (induction ls) (auto simp: body_step_def)

lemma body_blank: "\<not> bd_fenced st \<Longrightarrow> body_step label [] st = (if bd_in_section st then flush st else st)"
  by (simp add: body_step_def blank_line flush_def split: option.split)

lemma body_entry:
  assumes "entry_ok e" and "\<not> bd_fenced st" and "bd_current st = None"
  shows "fold (body_step label) (entry_lines e) st =
    st\<lparr>bd_entries := bd_entries st @ (if fst (fst e) = label then map bullet_text (snd e) else []),
       bd_in_section := (fst (fst e) = label)\<rparr>"
proof -
  define st1 where "st1 = st\<lparr>bd_in_section := (fst (fst e) = label)\<rparr>"
  obtain h bs where e: "e = (h, bs)" by fastforce
  have h: "heading_ok h" and bs: "list_all bullet_ok bs" using assms(1) by (simp_all add: e entry_ok_def)
  have st1: "\<not> bd_fenced st1" "bd_current st1 = None" using assms(2,3) by (simp_all add: st1_def)
  have "body_step label (heading h) st = st1"
    using assms(2,3) match_heading [OF h] by (simp add: body_step_def st1_def e split: prod.split)
  moreover have "body_step label [] st1 = st1" using st1 by (simp add: body_blank)
  ultimately have "fold (body_step label) (entry_lines e) st =
      body_step label [] (fold (body_step label) (concat (map bullet_lines bs)) st1)"
    by (simp add: e entry_lines_def)
  also have "\<dots> = st1\<lparr>bd_entries := bd_entries st1 @ (if fst h = label then map bullet_text bs else [])\<rparr>"
  proof (cases "fst h = label")
    case True
    then have sec: "bd_in_section st1" by (simp add: st1_def e)
    have "flush (fold (body_step label) (concat (map bullet_lines bs)) st1) =
        st1\<lparr>bd_entries := bd_entries st1 @ map bullet_text bs\<rparr>"
      using body_bullets [OF sec st1(1) bs] st1(2) by simp
    moreover have "bd_in_section (fold (body_step label) (concat (map bullet_lines bs)) st1)"
      "\<not> bd_fenced (fold (body_step label) (concat (map bullet_lines bs)) st1)"
      using calculation sec st1(1) by (metis flush_simps(1,2) body_state.select_convs(3,4) body_state.update_convs(1)
        body_state.surjective)+
    ultimately show ?thesis using True by (simp add: body_blank)
  next
    case False
    then have out: "\<not> bd_in_section st1" by (simp add: st1_def e)
    then show ?thesis
      using False body_outside [OF out st1(1) bullets_skip [OF bs]] st1(1) by (simp add: body_blank)
  qed
  finally show ?thesis by (simp add: st1_def e)
qed

lemma body_document:
  assumes "list_all entry_ok es" and "\<not> bd_fenced st" and "bd_current st = None"
  shows "bd_entries (flush (fold (body_step label) (concat (map entry_lines es)) st)) =
    bd_entries st @ concat (map (\<lambda>e. if fst (fst e) = label then map bullet_text (snd e) else []) es)"
  using assms
proof (induction es arbitrary: st)
  case (Cons e es)
  then show ?case by (simp add: body_entry)
qed simp

section \<open>The document is read back\<close>

definition document :: "changelog_entry list \<Rightarrow> string" where
  "document es = join_lines (concat (map entry_lines es) @ [[]])"

lemma bullet_newline: "bullet_ok b \<Longrightarrow> list_all (\<lambda>l. newline \<notin> set l) (bullet_lines b)"
  by (auto simp: bullet_ok_def bullet_lines_def list_all_iff)

lemma entry_newline:
  assumes "entry_ok e"
  shows "list_all (\<lambda>l. newline \<notin> set l) (entry_lines e)"
proof -
  have "list_all bullet_ok bs \<Longrightarrow> list_all (\<lambda>l. newline \<notin> set l) (concat (map bullet_lines bs))" for bs
    by (induction bs) (simp_all add: bullet_newline)
  then show ?thesis using assms heading_newline by (simp add: entry_ok_def entry_lines_def)
qed

lemma document_lines: "list_all entry_ok es \<Longrightarrow> split_lines (document es) = concat (map entry_lines es) @ [[]]"
  unfolding document_def
  using entry_newline by (intro split_join_lines) (auto simp: list_all_iff)

lemma last_blank: "sections_loop fenced (ls @ [[]]) = sections_loop fenced ls" "flush (body_step label [] st) = flush st"
proof -
  show "sections_loop fenced (ls @ [[]]) = sections_loop fenced ls"
    using blank_line by (induction fenced ls rule: sections_loop.induct) (auto split: option.split)
  show "flush (body_step label [] st) = flush st"
    using body_blank [of st label] by (cases "bd_fenced st") (simp_all add: body_step_def blank_line)
qed

lemma document_read_back:
  assumes "list_all entry_ok es"
  shows "read_sections (document es) = concat (map shipped es)"
    and "read_section_body (document es) label =
      concat (map (\<lambda>e. if fst (fst e) = label then map bullet_text (snd e) else []) es)"
  unfolding read_sections_def read_section_body_def document_lines [OF assms]
  by (simp_all add: last_blank sections_document [OF assms] body_document [OF assms] body_init_def)

section \<open>Fences\<close>

text \<open>A fenced block, whatever is in it, is read past by each reader.\<close>

lemma fenced_skip:
  assumes "is_fence f" and "is_fence g" and "list_all (\<lambda>l. \<not> is_fence l) block"
  shows "sections_loop False (f # block @ g # rest) = sections_loop False rest"
    and "links_loop False (f # block @ g # rest) links = links_loop False rest links"
    and "\<not> bd_fenced st \<Longrightarrow> fold (body_step label) (f # block @ [g]) st = st"
proof -
  have "sections_loop True (block @ g # rest) = sections_loop False rest"
    and "links_loop True (block @ g # rest) links = links_loop False rest links"
    using assms(2,3) by (induction block) simp_all
  then show "sections_loop False (f # block @ g # rest) = sections_loop False rest"
    and "links_loop False (f # block @ g # rest) links = links_loop False rest links"
    using assms(1) by simp_all
  have "fold (body_step label) block (st\<lparr>bd_fenced := True\<rparr>) = st\<lparr>bd_fenced := True\<rparr>"
    using assms(3) by (induction block) (simp_all add: body_step_def)
  then show "\<not> bd_fenced st \<Longrightarrow> fold (body_step label) (f # block @ [g]) st = st"
    using assms(1,2) by (simp add: body_step_def)
qed

end
