(* ===== verification/Os_Path.thy ===== *)
theory Os_Path imports Errors begin

text \<open>
  The two functions of \<open>os.path\<close> the logger and the certificate script use, on POSIX paths: \<open>join\<close> and
  \<open>splitext\<close>.
\<close>

definition SEP :: char where
  "SEP = CHR ''/''"

definition path_join :: "string \<Rightarrow> string \<Rightarrow> string" where
  "path_join a b =
     (if b \<noteq> [] \<and> hd b = SEP then b
      else if a = [] \<or> last a = SEP then a @ b
      else a @ SEP # b)"

text \<open>A path up to its last separator, and the name after it.\<close>

definition base_name :: "string \<Rightarrow> string" where
  "base_name p = rev (takeWhile (\<lambda>c. c \<noteq> SEP) (rev p))"

definition dir_part :: "string \<Rightarrow> string" where
  "dir_part p = rev (dropWhile (\<lambda>c. c \<noteq> SEP) (rev p))"

definition DOT :: char where
  "DOT = CHR ''.''"

text \<open>The extension starts at the name's last dot, unless only dots stand before it.\<close>

definition splitext :: "string \<Rightarrow> string \<times> string" where
  "splitext p =
     (let b = base_name p;
          tail = rev (takeWhile (\<lambda>c. c \<noteq> DOT) (rev b));
          stem = rev (tl (dropWhile (\<lambda>c. c \<noteq> DOT) (rev b)))
      in if DOT \<in> set b \<and> \<not> list_all (\<lambda>c. c = DOT) stem then (dir_part p @ stem, DOT # tail) else (p, []))"

lemma dir_base: "dir_part p @ base_name p = p"
  by (simp add: dir_part_def base_name_def flip: rev_append)

lemma base_no_sep: "SEP \<notin> set (base_name p)"
  by (auto simp: base_name_def dest: set_takeWhileD)

lemma splitext_append: "splitext p = (root, ext) \<Longrightarrow> root @ ext = p"
proof -
  assume s: "splitext p = (root, ext)"
  define b where "b = base_name p"
  show ?thesis
  proof (cases "DOT \<in> set b")
    case True
    then have "dropWhile (\<lambda>c. c \<noteq> DOT) (rev b) \<noteq> []" by (simp add: dropWhile_eq_Nil_conv)
    then obtain rest where "dropWhile (\<lambda>c. c \<noteq> DOT) (rev b) = DOT # rest"
      by (cases "dropWhile (\<lambda>c. c \<noteq> DOT) (rev b)") (use hd_dropWhile [of "\<lambda>c. c \<noteq> DOT" "rev b"] in auto)
    then have "b = rev rest @ DOT # rev (takeWhile (\<lambda>c. c \<noteq> DOT) (rev b))"
      by (metis append.assoc append_Cons append_Nil rev_append rev_rev_ident rev_singleton_conv rev.simps(2)
          takeWhile_dropWhile_id)
    then have "rev (tl (dropWhile (\<lambda>c. c \<noteq> DOT) (rev b))) @ DOT # rev (takeWhile (\<lambda>c. c \<noteq> DOT) (rev b)) = b"
      using \<open>dropWhile (\<lambda>c. c \<noteq> DOT) (rev b) = DOT # rest\<close> by simp
    then show ?thesis
      using s dir_base [of p] by (auto simp: splitext_def Let_def b_def split: if_splits)
  next
    case False
    then show ?thesis using s by (simp add: splitext_def Let_def b_def)
  qed
qed

lemma splitext_ext: "splitext p = (root, ext) \<Longrightarrow> SEP \<notin> set ext \<and> (ext = [] \<or> (\<exists>t. ext = DOT # t \<and> DOT \<notin> set t))"
proof -
  have "SEP \<notin> set (takeWhile Q (rev (base_name p)))" "DOT \<notin> set (takeWhile (\<lambda>c. c \<noteq> DOT) (rev (base_name p)))" for Q
    using base_no_sep [of p] by (metis set_rev set_takeWhileD)+
  then show "splitext p = (root, ext) \<Longrightarrow> SEP \<notin> set ext \<and> (ext = [] \<or> (\<exists>t. ext = DOT # t \<and> DOT \<notin> set t))"
    by (auto simp: splitext_def Let_def SEP_def DOT_def split: if_splits)
qed

text \<open>A name without a dot has no extension.\<close>

lemma splitext_plain: "DOT \<notin> set (base_name p) \<Longrightarrow> splitext p = (p, [])"
  by (simp add: splitext_def Let_def)

end
