(* ===== verification/Logging.thy ===== *)
theory Logging imports Os_Path begin

text \<open>
  \<open>src/pyomb/logger.py\<close>: a logger that starts with one handler, for the standard output, and gets a file
  handler when it is asked to log to a file. A handler is what it writes to, its level and its format;
  opening a file is the operating system's (\<open>open_file\<close>), and so is the name of the running program.
\<close>

datatype handler_target = Stdout | LogFile string

record handler =
  hd_target :: handler_target
  hd_level :: int
  hd_format :: string

record Logger =
  lg_name :: string
  lg_level :: int
  lg_format :: string
  lg_handlers :: "handler list"

definition INFO :: int where
  "INFO = 20"

definition console_handler :: "Logger \<Rightarrow> handler" where
  "console_handler self = \<lparr>hd_target = Stdout, hd_level = INFO, hd_format = lg_format self\<rparr>"

definition add_handler :: "handler \<Rightarrow> Logger \<Rightarrow> Logger" where
  "add_handler h self = self\<lparr>lg_handlers := lg_handlers self @ [h]\<rparr>"

definition logger_init :: "string \<Rightarrow> int \<Rightarrow> Logger" where
  "logger_init name level =
     (let self = \<lparr>lg_name = name, lg_level = level,
                  lg_format = ''%(asctime)s %(levelname)-8s - %(name)s: %(message)s'', lg_handlers = []\<rparr>
      in add_handler (console_handler self) self)"

definition default_log_name :: "string \<Rightarrow> string" where
  "default_log_name argv0 = fst (splitext argv0) @ ''.log''"

definition file_handler :: "(string \<Rightarrow> unit pyres) \<Rightarrow> string \<Rightarrow> string option \<Rightarrow> Logger \<Rightarrow> handler pyres" where
  "file_handler open_file argv0 filename self =
     (let name = (case filename of None \<Rightarrow> default_log_name argv0 | Some f \<Rightarrow> f)
      in bindE (open_file name) (\<lambda>_. Inr \<lparr>hd_target = LogFile name, hd_level = INFO, hd_format = lg_format self\<rparr>))"

definition log_to_file ::
  "(string \<Rightarrow> unit pyres) \<Rightarrow> string \<Rightarrow> string option \<Rightarrow> Logger \<Rightarrow> handler pyres \<times> Logger" where
  "log_to_file open_file argv0 filename self =
     (case file_handler open_file argv0 filename self of
        Inl e \<Rightarrow> (Inl e, self)
      | Inr h \<Rightarrow> (Inr h, add_handler h self))"

text \<open>Only asking for it attaches a file, and every handler writes in the logger's format.\<close>

definition logs_to :: "Logger \<Rightarrow> string set" where
  "logs_to self = {f. \<exists>h\<in>set (lg_handlers self). hd_target h = LogFile f}"

lemma logger_init_files: "logs_to (logger_init name level) = {}"
  by (auto simp: logs_to_def logger_init_def add_handler_def console_handler_def Let_def)

lemma log_to_file_files:
  "logs_to (snd (log_to_file open_file argv0 filename self)) =
     (case fst (log_to_file open_file argv0 filename self) of
        Inl _ \<Rightarrow> logs_to self
      | Inr _ \<Rightarrow> insert (case filename of None \<Rightarrow> default_log_name argv0 | Some f \<Rightarrow> f) (logs_to self))"
  by (auto simp: log_to_file_def file_handler_def add_handler_def logs_to_def Let_def bindE_def split: sum.split)

definition uniform :: "Logger \<Rightarrow> bool" where
  "uniform self = list_all (\<lambda>h. hd_format h = lg_format self \<and> hd_level h = INFO) (lg_handlers self)"

lemma uniform_logger:
  "uniform (logger_init name level)"
  "uniform self \<Longrightarrow> uniform (snd (log_to_file open_file argv0 filename self))"
  by (auto simp: uniform_def logger_init_def log_to_file_def file_handler_def add_handler_def console_handler_def Let_def
      bindE_def split: sum.split)

text \<open>The default name keeps the program's, less its extension: with none, nothing is taken off.\<close>

lemma default_log_name_shape:
  "\<exists>ext. fst (splitext argv0) @ ext = argv0 \<and> default_log_name argv0 = fst (splitext argv0) @ ''.log''"
  using splitext_append [of argv0] by (cases "splitext argv0") (auto simp: default_log_name_def)

lemma default_log_name_plain: "DOT \<notin> set (base_name argv0) \<Longrightarrow> default_log_name argv0 = argv0 @ ''.log''"
  by (simp add: default_log_name_def splitext_plain)

end
