(* ===== verification/Test_Certs.thy ===== *)
theory Test_Certs imports Os_Path Packet_Text begin

text \<open>
  \<open>scripts/gen_test_certs.py\<close>: the commands that mint a throwaway certificate authority and the
  certificates it signs, and the files they are given. A command is its argument vector; whether it
  succeeds is \<open>exits\<close>, what the operating system and \<open>openssl\<close> answer. The state is what the script
  has done: the commands run, in order, the texts written, what it printed, the directories it made, and
  whether its working directory exists. What else the system answers is the record \<open>machine\<close>.
\<close>

record mint =
  mt_commands :: "string list list"
  mt_files :: "string \<rightharpoonup> string"
  mt_workdir :: bool
  mt_printed :: "string list list"
  mt_errors :: "string list"
  mt_dirs :: "string list"

type_synonym 'a minting = "mint \<Rightarrow> 'a pyres \<times> mint"

definition mreturn :: "'a \<Rightarrow> 'a minting" where
  "mreturn x st = (Inr x, st)"

definition mbind :: "'a minting \<Rightarrow> ('a \<Rightarrow> 'b minting) \<Rightarrow> 'b minting" where
  "mbind m f st = (case m st of (Inl e, st') \<Rightarrow> (Inl e, st') | (Inr x, st') \<Rightarrow> f x st')"

fun each_of :: "('a \<Rightarrow> unit minting) \<Rightarrow> 'a list \<Rightarrow> unit minting" where
  "each_of f [] = mreturn ()"
| "each_of f (x # xs) = mbind (f x) (\<lambda>_. each_of f xs)"

definition run_command :: "(string list \<Rightarrow> bool) \<Rightarrow> string list \<Rightarrow> unit minting" where
  "run_command exits command st =
     (let st = st\<lparr>mt_commands := mt_commands st @ [command]\<rparr>
      in (if exits command then Inr () else Inl RuntimeError, st))"

definition write_text :: "string \<Rightarrow> string \<Rightarrow> unit minting" where
  "write_text path text st = (Inr (), st\<lparr>mt_files := (mt_files st)(path \<mapsto> text)\<rparr>)"

definition read_text :: "string \<Rightarrow> string minting" where
  "read_text path st = (case mt_files st path of None \<Rightarrow> Inl OSError | Some text \<Rightarrow> Inr text, st)"

definition print_line :: "string list \<Rightarrow> unit minting" where
  "print_line words st = (Inr (), st\<lparr>mt_printed := mt_printed st @ [words]\<rparr>)"

section \<open>What the script is made of\<close>

definition ROLE_OID :: string where
  "ROLE_OID = ''1.3.6.1.4.1.50316.802.1''"

definition CLIENT_ROLES :: "string list" where
  "CLIENT_ROLES = [''operator'', ''engineer'', ''monitor'']"

definition NL :: string where
  "NL = [CHR 0x0A]"

definition CA_EXT :: string where
  "CA_EXT = NL @ ''basicConstraints = critical, CA:TRUE, pathlen:0'' @ NL @
     ''keyUsage = critical, keyCertSign, cRLSign'' @ NL @ ''subjectKeyIdentifier = hash'' @ NL"

definition SERVER_EXT :: string where
  "SERVER_EXT = NL @ ''basicConstraints = critical, CA:FALSE'' @ NL @
     ''keyUsage = critical, digitalSignature, keyEncipherment'' @ NL @
     ''extendedKeyUsage = critical, serverAuth'' @ NL @ ''subjectAltName = DNS:localhost, IP:127.0.0.1'' @ NL"

definition CLIENT_EXT :: "string \<Rightarrow> string \<Rightarrow> string" where
  "CLIENT_EXT oid role = NL @ ''basicConstraints = critical, CA:FALSE'' @ NL @
     ''keyUsage = critical, digitalSignature, keyEncipherment'' @ NL @
     ''extendedKeyUsage = critical, clientAuth'' @ NL @ oid @ '' = ASN1:UTF8String:'' @ role @ NL"

text \<open>\<open>str.capitalize\<close>, on the lower-case letters of a role.\<close>

definition capitalize :: "string \<Rightarrow> string" where
  "capitalize s = (case s of [] \<Rightarrow> []
     | c # cs \<Rightarrow> (if 97 \<le> (of_char c :: nat) \<and> (of_char c :: nat) \<le> 122 then char_of (of_char c - 32 :: nat) else c) # cs)"

definition ext_config :: "string \<Rightarrow> string \<Rightarrow> string minting" where
  "ext_config path sec =
     mbind (read_text path) (\<lambda>body.
       let config = fst (splitext path) @ ''.cnf''
       in mbind (write_text config (''[req]'' @ NL @ ''distinguished_name=dn'' @ NL @ ''[dn]'' @ NL @ ''['' @ sec @ '']'' @ body))
            (\<lambda>_. mreturn config))"

definition make_ca :: "(string list \<Rightarrow> bool) \<Rightarrow> string \<Rightarrow> int \<Rightarrow> string \<Rightarrow> (string \<times> string) minting" where
  "make_ca exits out days workdir =
     (let key = path_join out ''ca.key''; crt = path_join out ''ca.crt''; ext = path_join workdir ''ca.ext''
      in mbind (write_text ext CA_EXT) (\<lambda>_.
         mbind (run_command exits [''openssl'', ''genrsa'', ''-out'', key, ''2048'']) (\<lambda>_.
         mbind (ext_config ext ''v3_ca'') (\<lambda>config.
         mbind (run_command exits [''openssl'', ''req'', ''-new'', ''-x509'', ''-key'', key, ''-out'', crt, ''-days'', dec_string days,
           ''-sha256'', ''-subj'', ''/CN=pyomb test CA/O=Imbra Ltd'', ''-extensions'', ''v3_ca'', ''-config'', config]) (\<lambda>_.
           mreturn (key, crt))))))"

definition issue ::
  "(string list \<Rightarrow> bool) \<Rightarrow> string \<Rightarrow> string \<Rightarrow> string \<Rightarrow> string \<Rightarrow> string \<Rightarrow> string \<Rightarrow> int \<Rightarrow> string \<Rightarrow>
     (string \<times> string) minting" where
  "issue exits out name subject extension ca_key ca_crt days workdir =
     (let key = path_join out (name @ ''.key''); crt = path_join out (name @ ''.crt'');
          csr = path_join workdir (name @ ''.csr''); ext = path_join workdir (name @ ''.ext'')
      in mbind (write_text ext extension) (\<lambda>_.
         mbind (run_command exits [''openssl'', ''genrsa'', ''-out'', key, ''2048'']) (\<lambda>_.
         mbind (run_command exits [''openssl'', ''req'', ''-new'', ''-key'', key, ''-out'', csr, ''-subj'', subject]) (\<lambda>_.
         mbind (ext_config ext ''ext'') (\<lambda>config.
         mbind (run_command exits [''openssl'', ''x509'', ''-req'', ''-in'', csr, ''-CA'', ca_crt, ''-CAkey'', ca_key,
           ''-CAcreateserial'', ''-out'', crt, ''-days'', dec_string days, ''-sha256'', ''-extfile'', config,
           ''-extensions'', ''ext'']) (\<lambda>_.
           mreturn (key, crt)))))))"

definition issue_client :: "(string list \<Rightarrow> bool) \<Rightarrow> (string \<Rightarrow> string) \<Rightarrow> string \<Rightarrow> string \<Rightarrow> string \<Rightarrow> int \<Rightarrow> string \<Rightarrow> string \<Rightarrow> unit minting" where
  "issue_client exits relpath out ca_key ca_crt days workdir role =
     mbind (issue exits out (''client-'' @ role) (''/CN=modbus client '' @ role @ ''/O=Imbra Ltd'')
       (CLIENT_EXT ROLE_OID (capitalize role)) ca_key ca_crt days workdir) (\<lambda>_.
       print_line [''client       '', relpath (path_join out (''client-'' @ role @ ''.crt'')), ''(role: '' @ capitalize role @ '')''])"

text \<open>The body of \<open>main\<close>'s \<open>try\<close>, and \<open>main\<close>: the \<open>finally\<close> clause takes the working directory away.\<close>

definition mint_chain :: "(string list \<Rightarrow> bool) \<Rightarrow> (string \<Rightarrow> string) \<Rightarrow> string \<Rightarrow> int \<Rightarrow> string \<Rightarrow> unit minting" where
  "mint_chain exits relpath out days workdir =
     mbind (make_ca exits out days workdir) (\<lambda>(ca_key, ca_crt).
     mbind (print_line [''CA           '', relpath ca_crt]) (\<lambda>_.
     mbind (issue exits out ''server'' ''/CN=localhost/O=Imbra Ltd'' SERVER_EXT ca_key ca_crt days workdir) (\<lambda>_.
     mbind (print_line [''server       '', relpath (path_join out ''server.crt''), ''(SAN: localhost, 127.0.0.1)'']) (\<lambda>_.
       each_of (issue_client exits relpath out ca_key ca_crt days workdir) CLIENT_ROLES))))"

text \<open>What \<open>main\<close> asks of the machine: \<open>which\<close>, paths, and making directories.\<close>

record machine =
  mc_openssl :: bool
  mc_exits :: "string list \<Rightarrow> bool"
  mc_abspath :: "string \<Rightarrow> string"
  mc_relpath :: "string \<Rightarrow> string"
  mc_makedirs :: "string \<Rightarrow> unit pyres"
  mc_mkdtemp :: "string pyres"

definition DEFAULT_OUT :: string where
  "DEFAULT_OUT = path_join ''assets'' ''certificates''"

text \<open>\<open>out\<close> and \<open>days\<close> are the options given on the command line, \<open>None\<close> where one is left out.\<close>

definition certs_main :: "machine \<Rightarrow> string option \<Rightarrow> int option \<Rightarrow> int minting" where
  "certs_main mc out days st =
     (let out = (case out of None \<Rightarrow> DEFAULT_OUT | Some out \<Rightarrow> out);
          days = (case days of None \<Rightarrow> 365 | Some days \<Rightarrow> days)
      in if \<not> mc_openssl mc then (Inr 1, st\<lparr>mt_errors := mt_errors st @ [''error: openssl not found on PATH'']\<rparr>)
      else (let out = mc_abspath mc out
      in case mc_makedirs mc out of
           Inl e \<Rightarrow> (Inl e, st)
         | Inr _ \<Rightarrow>
      (let st = st\<lparr>mt_dirs := mt_dirs st @ [out]\<rparr>
      in case mc_mkdtemp mc of
           Inl e \<Rightarrow> (Inl e, st)
         | Inr workdir \<Rightarrow>
      (case mint_chain (mc_exits mc) (mc_relpath mc) out days workdir (st\<lparr>mt_workdir := True\<rparr>) of (r, st') \<Rightarrow>
        (let st' = st'\<lparr>mt_workdir := False\<rparr>
         in case r of
              Inl e \<Rightarrow> (Inl e, st')
            | Inr _ \<Rightarrow> (Inr 0, st'\<lparr>mt_printed := mt_printed st' @ [[],
                [''Valid for '' @ dec_string days @ '' days. These are throwaway test credentials:''],
                [''the keys are unencrypted and the directory is gitignored.''],
                [''Never commit them, and never trust this CA outside a test network.'']]\<rparr>))))))"

section \<open>The plan\<close>

text \<open>The commands the script means to run, and how far it gets: to the first that fails.\<close>

definition ran :: "('c \<Rightarrow> bool) \<Rightarrow> 'c list \<Rightarrow> 'c list" where
  "ran exits plan = takeWhile exits plan @ take 1 (dropWhile exits plan)"

lemma ran_Nil [simp]: "ran exits [] = []"
  by (simp add: ran_def)

lemma ran_Cons [simp]: "ran exits (c # cs) = c # (if exits c then ran exits cs else [])"
  by (simp add: ran_def)

lemma ran_append: "ran exits (p @ q) = (if list_all exits p then p @ ran exits q else ran exits p)"
  by (induction p) simp_all

text \<open>A step that follows a plan runs it that far, and returns where all of it succeeds.\<close>

definition follows :: "(string list \<Rightarrow> bool) \<Rightarrow> string list list \<Rightarrow> 'a minting \<Rightarrow> 'a \<Rightarrow> bool" where
  "follows exits plan m x = (\<forall>st. mt_commands (snd (m st)) = mt_commands st @ ran exits plan \<and>
     fst (m st) = (if list_all exits plan then Inr x else Inl RuntimeError))"

lemma follows_bind:
  assumes "follows exits p m x" and "follows exits q (f x) y"
  shows "follows exits (p @ q) (mbind m f) y"
proof -
  have "mt_commands (snd (mbind m f st)) = mt_commands st @ ran exits (p @ q) \<and>
      fst (mbind m f st) = (if list_all exits (p @ q) then Inr y else Inl RuntimeError)" for st
  proof -
    obtain r st' where m: "m st = (r, st')" by fastforce
    have "mt_commands st' = mt_commands st @ ran exits p" "r = (if list_all exits p then Inr x else Inl RuntimeError)"
      using assms(1) m by (auto simp: follows_def dest: spec [of _ st])
    moreover have "ran exits p = p" if "list_all exits p"
      using that ran_append [of exits p "[]"] by simp
    ultimately show ?thesis
      using assms(2) m by (auto simp: follows_def mbind_def ran_append)
  qed
  then show ?thesis by (simp add: follows_def)
qed

lemma follows_print: "follows exits [] (print_line ws) ()"
  by (simp add: follows_def print_line_def)

lemma follows_each:
  assumes "\<And>x. x \<in> set xs \<Longrightarrow> follows exits (plan x) (f x) ()"
  shows "follows exits (concat (map plan xs)) (each_of f xs) ()"
  using assms
proof (induction xs)
  case (Cons x xs)
  then show ?case by (simp add: follows_bind)
qed (simp add: follows_def mreturn_def)

definition ca_plan :: "string \<Rightarrow> int \<Rightarrow> string \<Rightarrow> string list list" where
  "ca_plan out days workdir =
     [[''openssl'', ''genrsa'', ''-out'', path_join out ''ca.key'', ''2048''],
      [''openssl'', ''req'', ''-new'', ''-x509'', ''-key'', path_join out ''ca.key'', ''-out'', path_join out ''ca.crt'', ''-days'',
       dec_string days, ''-sha256'', ''-subj'', ''/CN=pyomb test CA/O=Imbra Ltd'', ''-extensions'', ''v3_ca'', ''-config'',
       fst (splitext (path_join workdir ''ca.ext'')) @ ''.cnf'']]"

text \<open>A certificate is signed by the authority whose key and certificate \<open>ca_plan\<close> made.\<close>

definition cert_plan :: "string \<Rightarrow> int \<Rightarrow> string \<Rightarrow> string \<Rightarrow> string \<Rightarrow> string list list" where
  "cert_plan out days workdir name subject =
     [[''openssl'', ''genrsa'', ''-out'', path_join out (name @ ''.key''), ''2048''],
      [''openssl'', ''req'', ''-new'', ''-key'', path_join out (name @ ''.key''), ''-out'', path_join workdir (name @ ''.csr''),
       ''-subj'', subject],
      [''openssl'', ''x509'', ''-req'', ''-in'', path_join workdir (name @ ''.csr''), ''-CA'', path_join out ''ca.crt'', ''-CAkey'',
       path_join out ''ca.key'', ''-CAcreateserial'', ''-out'', path_join out (name @ ''.crt''), ''-days'', dec_string days, ''-sha256'',
       ''-extfile'', fst (splitext (path_join workdir (name @ ''.ext''))) @ ''.cnf'', ''-extensions'', ''ext'']]"

definition client_plan :: "string \<Rightarrow> int \<Rightarrow> string \<Rightarrow> string \<Rightarrow> string list list" where
  "client_plan out days workdir role =
     cert_plan out days workdir (''client-'' @ role) (''/CN=modbus client '' @ role @ ''/O=Imbra Ltd'')"

definition chain_plan :: "string \<Rightarrow> int \<Rightarrow> string \<Rightarrow> string list list" where
  "chain_plan out days workdir =
     ca_plan out days workdir @ cert_plan out days workdir ''server'' ''/CN=localhost/O=Imbra Ltd'' @
     concat (map (client_plan out days workdir) CLIENT_ROLES)"

lemmas minting_defs = mbind_def write_text_def run_command_def ext_config_def read_text_def mreturn_def Let_def

lemma follows_ca:
  "follows exits (ca_plan out days workdir) (make_ca exits out days workdir) (path_join out ''ca.key'', path_join out ''ca.crt'')"
  by (simp add: follows_def make_ca_def ca_plan_def minting_defs)

lemma follows_issue:
  "follows exits (cert_plan out days workdir name subject)
     (issue exits out name subject extension (path_join out ''ca.key'') (path_join out ''ca.crt'') days workdir)
     (path_join out (name @ ''.key''), path_join out (name @ ''.crt''))"
  by (simp add: follows_def issue_def cert_plan_def minting_defs)

lemma follows_client:
  "follows exits (client_plan out days workdir role)
     (issue_client exits relpath out (path_join out ''ca.key'') (path_join out ''ca.crt'') days workdir role) ()"
  unfolding issue_client_def client_plan_def
  using follows_bind [OF follows_issue follows_print] by simp

lemma follows_print_bind: "follows exits q (f ()) y \<Longrightarrow> follows exits q (mbind (print_line ws) f) y"
  using follows_bind [OF follows_print] by fastforce

lemma follows_chain: "follows exits (chain_plan out days workdir) (mint_chain exits relpath out days workdir) ()"
proof -
  let ?clients = "concat (map (client_plan out days workdir) CLIENT_ROLES)"
  let ?key = "path_join out ''ca.key''"
  let ?crt = "path_join out ''ca.crt''"
  have each: "follows exits ?clients (each_of (issue_client exits relpath out ?key ?crt days workdir) CLIENT_ROLES) ()"
    by (rule follows_each) (rule follows_client)
  have "follows exits (cert_plan out days workdir ''server'' ''/CN=localhost/O=Imbra Ltd'' @ ?clients)
    (mbind (issue exits out ''server'' ''/CN=localhost/O=Imbra Ltd'' SERVER_EXT ?key ?crt days workdir) (\<lambda>_.
     mbind (print_line [''server       '', relpath (path_join out ''server.crt''), ''(SAN: localhost, 127.0.0.1)'']) (\<lambda>_.
       each_of (issue_client exits relpath out ?key ?crt days workdir) CLIENT_ROLES))) ()"
    by (rule follows_bind [OF follows_issue]) (rule follows_print_bind [OF each])
  note rest = follows_print_bind [OF this, of "[''CA           '', relpath ?crt]"]
  show ?thesis
    unfolding mint_chain_def chain_plan_def by (rule follows_bind [OF follows_ca]) (simp add: rest)
qed

text \<open>
  What \<open>main\<close> does: it runs the plan to the first failure, exits with 0 where there is none, and leaves
  no working directory behind either way.
\<close>

lemma certs_main_outcome:
  assumes "mc_openssl mc" and "mc_makedirs mc (mc_abspath mc out) = Inr ()" and "mc_mkdtemp mc = Inr workdir"
    and "certs_main mc (Some out) (Some days) st = (r, st')"
  defines "plan \<equiv> chain_plan (mc_abspath mc out) days workdir"
  shows "mt_commands st' = mt_commands st @ ran (mc_exits mc) plan"
    and "r = (if list_all (mc_exits mc) plan then Inr 0 else Inl RuntimeError)"
    and "\<not> mt_workdir st'"
proof -
  let ?st = "st\<lparr>mt_dirs := mt_dirs st @ [mc_abspath mc out], mt_workdir := True\<rparr>"
  obtain r1 st1 where m: "mint_chain (mc_exits mc) (mc_relpath mc) (mc_abspath mc out) days workdir ?st = (r1, st1)"
    by fastforce
  have "mt_commands st1 = mt_commands st @ ran (mc_exits mc) plan"
    "r1 = (if list_all (mc_exits mc) plan then Inr () else Inl RuntimeError)"
    using follows_chain [of "mc_exits mc" "mc_abspath mc out" days workdir "mc_relpath mc"] m
    by (auto simp: follows_def plan_def dest: spec [of _ ?st])
  then show "mt_commands st' = mt_commands st @ ran (mc_exits mc) plan"
    and "r = (if list_all (mc_exits mc) plan then Inr 0 else Inl RuntimeError)"
    and "\<not> mt_workdir st'"
    using assms(1-4) m by (auto simp: certs_main_def Let_def split: if_splits)
qed

text \<open>Without \<open>openssl\<close>, or where a directory cannot be made, nothing is run.\<close>

lemma certs_main_refused:
  assumes "\<not> mc_openssl mc \<or> (\<exists>e. mc_makedirs mc (mc_abspath mc out) = Inl e) \<or> (\<exists>e. mc_mkdtemp mc = Inl e)"
    and "certs_main mc (Some out) days st = (r, st')"
  shows "mt_commands st' = mt_commands st" and "r \<noteq> Inr 0" and "mt_workdir st' = mt_workdir st"
  using assms by (auto simp: certs_main_def Let_def split: if_splits sum.splits)

end
