(* ===== verification/Spec2Isabelle.thy ===== *)
theory Spec2Isabelle
  imports Pdu_Sizing Pdu_Typing Rtu_Stream Client_Socket Server_Listener
    Simulation Server_Bounds Rtu_Recovery Adu_Parsers Examples Registry_Store Package Changelog Logging Test_Certs
begin

text \<open>
  A verification development for pyomb, a Modbus library in Python (\<open>src/pyomb\<close>).

  \<^bold>\<open>The program.\<close> A protocol data unit (PDU) is a class per function code and direction; it packs its
  fields with \<open>struct\<close>, reports where they leave the specification, and registers with a parser that
  finds the class from the first byte. An ADU wraps a PDU for one transport: the slave address and a
  CRC-16 on a serial line (RTU), the MBAP header on TCP. The transports cut ADUs out of bytes: the RTU
  splitter and stream size a frame from its own prefix and resynchronise by dropping a byte; the TCP
  stream reads the header's length field, and may fragment what it sends. A client and a server
  simulator sit on the TCP stream; TLS settings decide what both wrap their sockets in.

  \<^bold>\<open>The theories\<close>, each on the ones above it:
  \<^item> \<open>Prelude\<close>: bytes, results with an exception on the left, the interfaces \<open>codec\<close>,
    \<open>sized_codec\<close> and \<open>transparent_codec\<close> that every pair of \<open>serialize\<close> and \<open>deserialize\<close> is an
    instance of. \<open>Errors\<close>: \<open>errors.py\<close>, the exceptions and the \<open>except\<close> clauses as predicates.
    \<open>Py_Struct\<close>: the part of Python's \<open>struct\<close> the code uses (\<open>B\<close>, \<open>H\<close>, both byte orders, repeat counts,
    the errors), with its pack and unpack laws.
  \<^item> \<open>Pdu_Common\<close>: \<open>pdu/common.py\<close>, the base classes. \<open>Pdu_Bits\<close>, \<open>Pdu_Registers\<close>,
    \<open>Pdu_Diagnostics\<close>, \<open>Pdu_Encapsulated\<close>: one definition per method of each function-code class
    (\<open><Class>_cls\<close> the class attributes, \<open>_self\<close> the instance, \<open>_len\<close>, \<open>_violations\<close>,
    \<open>_serialize\<close>, \<open>_deserialize\<close>), and their codec laws. \<open>Pdu_Parser\<close>: dispatch over all classes
    (\<open>dyn_\<close>), the registry and the two parse functions; the interface \<open>pdu_parser\<close> the ADUs rely on.
    \<open>Pdu_Sizing\<close>: \<open>expected_size\<close> refines a rule stated on the layouts. \<open>Pdu_Typing\<close>: what the declared
    layouts make of a PDU's fields, which packets serialize, and what \<open>==\<close> identifies.
  \<^item> \<open>Adu_Rtu\<close>: \<open>adu/rtu.py\<close>; the checksum on integers refines a 16-bit register, whose linearity and
    injectivity give the error detection. \<open>Adu_Tcp\<close>: \<open>adu/tcp.py\<close>.
  \<^item> \<open>Rtu_Framing\<close> and \<open>Rtu_Stream\<close>: \<open>transport/rtu.py\<close>; the splitter is an instance of \<open>resumable\<close>,
    \<open>Rtu_Recovery\<close> shows how soon it finds frames again behind noise. What is shown of frames that were sent
    is shown of those whose PDU announces its size (\<open>sent_sized\<close>); the splitter drops the others (FC43,
    FC8 Return Query Data, the generic PDU), as the code's own tests have it;
    the stream is verified over \<open>byte_port\<close> and \<open>echo_port\<close>. \<open>Byte_Source\<close>, \<open>Tcp_Stream\<close>,
    \<open>Tcp_Capture\<close>: \<open>transport/stream.py\<close>, over \<open>greedy_socket\<close> for what is written and, for what is read,
    \<open>blocking_socket\<close> (a peer that may stay and send nothing more, so that \<open>recv\<close> never returns) and
    \<open>byte_socket\<close> (one that closes behind what it sends). \<open>Tls\<close>: \<open>transport/tls.py\<close>.
  \<^item> \<open>Server_Response\<close> (answering a request), \<open>Server\<close> (the connection table, the loop of the server
    thread, what other threads call) and \<open>Server_Listener\<close> (the constructor, opening the listener, \<open>start\<close>):
    \<open>simulators/server.py\<close>. \<open>Server_Clients\<close>: the same server seen from one connection (\<open>talk_of\<close>), as a
    conversation that no other connection touches; \<open>Server_Bounds\<close>: how much an answer can come to.
    \<open>Client\<close> (requests, and the exchange of both ends) and \<open>Client_Socket\<close>
    (connecting, tuning the socket, letting go of it, over \<open>socket_life\<close>): \<open>simulators/client.py\<close>.
  \<^item> \<open>Packet_Text\<close>: what packets, headers, violations and errors print (\<open>__str__\<close>, \<open>__repr__\<close>), and that
    the text determines them. \<open>Adu_Parsers\<close>: the parser each ADU class keeps (\<open>get_parser\<close>, \<open>set_parser\<close>).
    \<open>Registry_Store\<close>: the registry as a shared dictionary, whose operations refine those of \<open>Pdu_Parser\<close>.
  \<^item> \<open>Package\<close>: the names each \<open>__init__.py\<close> binds, defers and exports, and how one is read. \<open>Os_Path\<close> and
    \<open>Logging\<close>: the paths \<open>logger.py\<close> takes apart, and the handlers a \<open>Logger\<close> holds. \<open>Changelog\<close>:
    \<open>checks/changelog.py\<close>. \<open>Test_Certs\<close>: \<open>scripts/gen_test_certs.py\<close>, as the commands it runs.
  \<^item> \<open>Examples\<close>: the scripts under \<open>examples\<close>, each a run that prints lines or raises. \<open>Simulation\<close>: the
    client and the server as one program. Its \<open>net\<close> is the client's socket, with the server simulator and the
    passes of its thread behind it; it is interpreted as a \<open>frame_source\<close>, a \<open>greedy_socket\<close> and a
    \<open>socket_life\<close>, so the client's lemmas hold over it. The scripts that run both simulators, the client's
    built-in exercise and \<open>run_client\<close> are proved to run to their end there; \<open>run_server\<close> is in
    \<open>Server_Listener\<close>, over any socket.

  \<^bold>\<open>How Python is modelled.\<close> An \<open>int\<close> is an \<open>int\<close>, \<open>bytes\<close> a list of 8-bit words, a raised exception a
  left value of \<open>'a pyres\<close>; a method that changes its object returns it. Field values are integers, as the
  annotations say; what a field of another type would do is not modelled, nor is the text a raise carries.
  The parser's registry is class state in the code and an argument here, but for \<open>Registry_Store\<close>. Code the program does not
  own (a serial port, a socket, OpenSSL) is a record of operations given as an argument; what its
  documentation promises is a \<open>locale\<close>, and each locale is interpreted on a scripted port or connection, or
  on the network of \<open>Simulation\<close>.

  \<^bold>\<open>Termination and bounds.\<close> Every loop but four is a total function with its measure. The loops that end
  only if the environment lets them (\<open>stream_drain\<close>, \<open>stream_receive_loop\<close>, \<open>tcp_receive_pdu_loop\<close>,
  \<open>receiver_loop\<close>) are partial functions, \<open>None\<close> being not returning, and so is a \<open>recv\<close> that blocks for good; that
  they return over a port or socket that keeps its promise is proved (\<open>receive_terminates\<close>, \<open>stream_send_returns\<close>,
  \<open>tcp_receive_refines_spec\<close>, \<open>capture_round_trip\<close>), and so is where the server's reads do not
  (\<open>pass_survives_but_half_frames\<close>). A serial port reads with a time-out, so its reads always return. \<open>server_run\<close> takes the inputs of its passes as a list, so a run is followed
  for as long as there are inputs. \<open>PY_SSIZE_T_MAX\<close> is the largest size \<open>struct\<close> accepts on a 64-bit build.
  Delays and times are whole ticks: only their order and sign reach the code modelled; the server's clock
  ticks in microseconds (\<open>SECOND\<close>). The looks \<open>start\<close> takes are a list too, and the first that decides ends it.

  \<^bold>\<open>What the properties show.\<close> Parsing and framing lose and invent nothing, in both directions, for every
  packaged class and over any chunking of the bytes; behind noise the splitter finds frames that announce their
  size again within the length of the longest one; failures are the errors the callers catch; the
  checksum sees bursts and odd errors; receiving refines a specification on the byte stream and returns;
  what is parsed is well typed, and just the well-typed packets serialize; the server answers every
  conforming request, keeps its table consistent from its constructor on, in either mode, and survives whatever
  its clients send but half a frame from one that stays, which holds its only thread in \<open>recv\<close>. As long as that,
  a failed handshake and a reset peer are kept from it (\<open>well_fed\<close>), it runs until it is stopped, no client can
  tell what the others do, and requests sent ahead are answered in order beside them. No input makes an answer
  long; the client hands over only the answer to its own request. Both together
  answer whole sessions, and the scripts that run them print what they should and leave nothing open. Some
  properties state where the code falls short of what it documents: half a frame hangs the server thread, a failed
  TLS handshake and a peer that is reset before the status line is printed each end it, a partial send loses
  bytes, a negative fragment size hangs a receive, and a relaxation is reported that is not carried.

  \<^bold>\<open>Not modelled\<close>: writing log records, the thread library, interleavings finer than one pass or one
  locked run (in \<open>Simulation\<close> the server passes as soon as a whole frame has come), \<open>argparse\<close>, the bodies
  of abstract methods, which only raise, and PDU classes defined by a caller.
\<close>

section \<open>Concrete inputs\<close>

text \<open>A connection with nothing on it, a client on one, a plain server, and a read of two registers.\<close>

definition idle_conn :: conn where
  "idle_conn = \<lparr>cn_in = [], cn_out = [], cn_room = 4\<rparr>"

definition idle_client :: "conn ModbusClientSimulator" where
  "idle_client = \<lparr>cl_timeout = Some 10, cl_host = ''localhost'', cl_port = 502, cl_unit_id = 1,
     cl_frag_size = 0, cl_frag_delay = 0, cl_next_trans_id = 0, cl_pending_trans_id = None,
     cl_tls = None, cl_crypto = None, cl_sock = Some idle_conn\<rparr>"

definition plain_config :: "conn on_data_config" where
  "plain_config = \<lparr>cfg_handler = None, cfg_delay = 0, cfg_fail = False\<rparr>"

definition read_two :: request_args where
  "read_two = \<lparr>rq_fc = 3, rq_read_address = 0, rq_read_count = 2, rq_write_address = 0, rq_write_count = 1,
     rq_values = Many [0], rq_and_mask = 0xFFFF, rq_or_mask = 0\<rparr>"

lemma read_two_facts:
  "client_pdu read_two = Inr (RegistersPdu (ModbusRequestFC3 0 2))"
  "dyn_serialize (RegistersPdu (ModbusRequestFC3 0 2)) = Inr [3, 0, 0, 0, 2]"
  "dyn_violations (RegistersPdu (ModbusRequestFC3 0 2)) = Inr []"
  by code_simp+

text \<open>A server whose listener, socket 0, has just come up, and a pass in which a first client connects.\<close>

definition new_server :: "(nat, conn) ModbusServerSimulator" where
  "new_server = \<lparr>sv_host = [], sv_port = 502, sv_handling = plain_config, sv_frag_size = 0, sv_frag_delay = 0, sv_connection_limit = 10,
     sv_inactive_timeout = 10, sv_tls = False, sv_process_connections = True, sv_read_list = [0], sv_clients = [],
     sv_peer_names = Map.empty, sv_peercerts = Map.empty, sv_last_activity = Map.empty, sv_last_print = 0,
     sv_new_connection = False, sv_quit = False, sv_started = True, sv_startup_error = None, sv_net = (\<lambda>_. idle_conn), sv_closed = []\<rparr>"

definition first_client :: "nat pass_input" where
  "first_client = \<lparr>in_ready = [0], in_now = 5, in_accepted = Inr (1, (''peer'', 1)), in_wrap = (\<lambda>_. Inl SSLError),
     in_getpeername = (\<lambda>_. Inr (''peer'', 1))\<rparr>"

text \<open>Certificates that load, on a machine whose contexts start out lax; and a client told to check no certificate.\<close>

definition plain_ssl_io :: ssl_io where
  "plain_ssl_io = \<lparr>new_context = (\<lambda>p. Inr \<lparr>ctx_protocol = p, ctx_ciphers = None, ctx_check_hostname = False,
       ctx_verify_mode = CERT_NONE, ctx_options = 0, ctx_minimum_version = MINIMUM_SUPPORTED\<rparr>),
     load_cert_chain = (\<lambda>_ _. Inr ()), load_verify_locations = (\<lambda>_. Inr ()), check_ciphers = (\<lambda>_. Inr ()), OP_ALL = 0\<rparr>"

definition unchecked_tls :: TlsSettings where
  "unchecked_tls = \<lparr>tls_cert = ''cert'', tls_key = ''key'', tls_ca_chain = ''ca'', tls_protocol = UNSET,
     tls_ciphers = UNSET, tls_verify_mode = Chosen CERT_NONE, tls_verify_hostname = UNSET, tls_options = UNSET\<rparr>"

text \<open>A listener that comes up on the port the system picks; a network on which it is up, and a client on that network.\<close>

definition small_scene :: "nat scene" where
  "small_scene = \<lparr>sc_listen = \<lparr>li_sock = 0, li_bind = (\<lambda>_. Inr ()), li_listen = (\<lambda>_. Inr ()), li_port = 50200\<rparr>, sc_now = 0,
     sc_polls = [\<lparr>po_started = True, po_alive = True, po_time = 0\<rparr>], sc_peer = 1, sc_addr = (''peer'', 1), sc_clock = int\<rparr>"

definition new_wire :: "nat net" where
  "new_wire = new_net small_scene new_server"

lemma new_wire_listening: "net_listening new_wire"
  by (simp add: net_listening_def new_wire_def new_net_def new_server_def small_scene_def serves_plainly_def plain_config_def
      net_conn_def conn_inbox_def idle_conn_def)

definition wire_client :: "nat net ModbusClientSimulator" where
  "wire_client = \<lparr>cl_timeout = Some 10, cl_host = ''localhost'', cl_port = 502, cl_unit_id = 1,
     cl_frag_size = 0, cl_frag_delay = 0, cl_next_trans_id = 0, cl_pending_trans_id = None,
     cl_tls = None, cl_crypto = None, cl_sock = Some (net_pass [0] new_wire)\<rparr>"

text \<open>
  A server over connections whose clients stay; one with two clients, each with a read of two registers and
  one more byte on its way, and one whose second client has sent half a header. And two passes at one time: one
  in which the first client alone is readable, one in which both are and a third connects.
\<close>

definition open_line :: "bytes list \<Rightarrow> open_conn" where
  "open_line chunks = \<lparr>oc_conn = idle_conn\<lparr>cn_in := chunks\<rparr>, oc_open = True\<rparr>"

definition line_server :: "(nat, open_conn) ModbusServerSimulator" where
  "line_server = \<lparr>sv_host = [], sv_port = 502, sv_handling = \<lparr>cfg_handler = None, cfg_delay = 0, cfg_fail = False\<rparr>,
     sv_frag_size = 0, sv_frag_delay = 0, sv_connection_limit = 10, sv_inactive_timeout = 10, sv_tls = False,
     sv_process_connections = True, sv_read_list = [0], sv_clients = [], sv_peer_names = Map.empty, sv_peercerts = Map.empty,
     sv_last_activity = Map.empty, sv_last_print = 0, sv_new_connection = False, sv_quit = False, sv_started = True,
     sv_startup_error = None, sv_net = (\<lambda>_. open_line []), sv_closed = []\<rparr>"










section \<open>Properties\<close>

text \<open>
  C1. The client and the server as one program: over a connection whose far end is the running server, every
  session of requests that the factory builds within the specification, sent one after another, comes
  to its end. Each request is answered, with the answer the server makes for that very request; the
  answers carry the client's unit identifier and the identifiers it drew, in order, and the connection
  is left empty and ready for the next session.
\<close>

theorem session_answers:
  fixes w :: "'c net"
  assumes "list_all2 conforms as ps" and "client_ready self" and "cl_sock self = Some w" and "net_idle w"
  shows "\<exists>hs self' w'. ask_all default_registry net_ops fresh as self = Some (Inr (map Some (zip hs (map response_pdu ps))), self') \<and>
    length hs = length ps \<and> map trans_id hs = take_trans_ids (length ps) self \<and> (\<forall>h\<in>set hs. unit_id h = cl_unit_id self) \<and>
    cl_sock self' = Some w' \<and> net_idle w' \<and> net_ends w' = net_ends w \<and> client_ready self'"
  by (rule session_answered [OF assms])

theorem session_answers_witness:
  "\<exists>hs self'. ask_all default_registry net_ops new_wire [read_two, read_two] wire_client =
    Some (Inr (map Some (zip hs [response_pdu (RegistersPdu (ModbusRequestFC3 0 2)), response_pdu (RegistersPdu (ModbusRequestFC3 0 2))])),
      self') \<and> map trans_id hs = [0, 1]"
proof -
  let ?ps = "[RegistersPdu (ModbusRequestFC3 0 2), RegistersPdu (ModbusRequestFC3 0 2)]"
  have "conforms read_two (RegistersPdu (ModbusRequestFC3 0 2))" unfolding conforms_def read_two_facts by simp
  then have asks: "list_all2 conforms [read_two, read_two] ?ps" by simp
  have ready: "client_ready wire_client" and ids: "take_trans_ids (length ?ps) wire_client = [0, 1]" by code_simp+
  have idle: "net_idle (net_pass [0] new_wire)"
    using net_accepts [OF new_wire_listening] by (simp add: new_wire_def new_net_def small_scene_def)
  have "cl_sock wire_client = Some (net_pass [0] new_wire)" by (simp add: wire_client_def)
  from session_answers [OF asks ready this idle, of new_wire] show ?thesis unfolding ids by auto
qed

text \<open>
  C2. A client and a server on the two ends of a connection, over any socket that delivers what is
  written to it: a request the factory can build and the specification allows is sent, the
  server answers the bytes it was sent, and the client waiting for them gets back the answer the
  server made for that very request, under the identifiers of the request.
\<close>

theorem exchange_answers:
  assumes "duplex_socket ops inbox outbox"
    and "client_pdu a = Inr p" and "dyn_serialize p = Inr b" and "length b \<le> 65534" and "dyn_violations p = Inr []"
    and "client_ready self" and "cl_sock self = Some s"
    and "cfg_handler cfg = None" and "0 \<le> cfg_delay cfg" and "\<not> cfg_fail cfg"
  shows "\<exists>s1 m c1 r n. send_request ops fresh self a = (Inr (), awaiting self s1) \<and> outbox s1 = outbox s @ m \<and>
    on_data default_registry ops cfg m c = (Inr (), c1) \<and> outbox c1 = outbox c @ r \<and>
    (\<forall>s2 rest. inbox s2 = r @ rest \<longrightarrow>
      (\<exists>s3. wait_response default_registry ops fresh (awaiting self s2) =
        Some (Inr (Some (response_header (request_header self (int (length b))) n, response_pdu p)),
          (awaiting self s3)\<lparr>cl_pending_trans_id := None\<rparr>) \<and> inbox s3 = rest))"
  by (rule duplex_socket.exchange [OF assms])

theorem exchange_answers_witness:
  "\<exists>s1 m c1. send_request conn_ops idle_conn idle_client read_two = (Inr (), awaiting idle_client s1) \<and>
    cn_out s1 = m \<and> on_data default_registry conn_ops plain_config m idle_conn = (Inr (), c1)"
proof -
  have "client_ready idle_client" "cl_sock idle_client = Some idle_conn" by code_simp+
  from exchange_answers [OF conn_duplex.duplex_socket_axioms read_two_facts(1,2) _ read_two_facts(3) this, of plain_config idle_conn idle_conn]
  show ?thesis by (auto simp: plain_config_def idle_conn_def)
qed

text \<open>
  C3. Parsing undoes serializing for requests: the bytes of any request of a packaged class are
  parsed, by the parser as it is after import, into that request.
\<close>

theorem parse_request_serialized:
  assumes "dyn_type p \<in> set registrations" and "pdu_is_request (dyn_decl (dyn_type p))" and "dyn_serialize p = Inr s"
  shows "parse_request default_registry s = Inr p"
  by (rule request_parser.des_ser [OF registered_known_request [OF assms(1,2)] assms(3)])

theorem parse_request_serialized_witness:
  "parse_request default_registry [16, 0, 1, 0, 2, 4, 0, 10, 1, 2] = Inr (RegistersPdu (ModbusRequestFC16 1 2 4 [10, 258]))"
  by (rule parse_request_serialized) code_simp+







text \<open>
  C7. Frames of PDUs that announce their own size, sent one after another, come out of the splitter one by one,
  in order, whatever chunks they arrive in: each packet is what deserializing its frame gives, no byte is
  dropped and none is left over. Such are the PDUs of all packaged classes, registered for the side that is
  read, whose count field says what they hold, but for FC43, the FC8 sub-functions without a fixed size
  (Return Query Data among them) and the generic PDU: the splitter cannot size those and drops them.
\<close>

theorem splitter_finds_sent_frames:
  assumes "list_all2 (sent_sized reg side) selves fs" and "concat (d # ds) = concat fs"
  shows "\<exists>ps. list_all2 (\<lambda>p f. ModbusRtuPacket_deserialize f True = Inr p) ps fs \<and>
    splitter_push_all reg (splitter_init side) (d # ds) = (ps, splitter_init side)"
proof -
  have "splitter_push_all reg (splitter_init side) (d # ds) = splitter_push reg (splitter_init side) (concat fs)"
    using assms(2) splitter_push_all_concat by metis
  then show ?thesis
    using splitter_drain_sent [OF assms(1), of 0]
    by (auto simp: splitter_push_def splitter_extend_def splitter_init_def)
qed

theorem splitter_finds_sent_frames_witness:
  "\<exists>ps. list_all2 (\<lambda>p f. ModbusRtuPacket_deserialize f True = Inr p) ps [[17, 7, 76, 34]] \<and>
    splitter_push_all default_registry (splitter_init REQUEST) [[17, 7], [76, 34]] = (ps, splitter_init REQUEST)"
proof -
  have "sent_sized default_registry REQUEST (ModbusRtuRequest 17 (DiagnosticsPdu ModbusRequestFC7)) [17, 7, 76, 34]"
    by code_simp
  then show ?thesis
    by (intro splitter_finds_sent_frames [where selves = "[ModbusRtuRequest 17 (DiagnosticsPdu ModbusRequestFC7)]"])
      simp_all
qed

text \<open>
  C8. The splitter finds its way back. Behind any bytes that no frame starts in (noise, a frame broken off in the
  middle, or one it cannot size, such as an FC8 Return Query Data) and whatever length those bytes announce,
  a run of frames of PDUs that announce their own size, the condition of the property before, is delivered
  whole once it comes to 268 bytes, the longest frame there is; what is dropped is the noise, byte for byte,
  and nothing more.
\<close>

theorem splitter_recovers:
  assumes "list_all2 (sent_sized reg side) selves fs" and "LARGEST_ANNOUNCED_FRAME \<le> length (concat fs)"
    and "holds_no_frame reg side noise (concat fs)" and "concat (d # ds) = noise @ concat fs"
  shows "\<exists>ps. list_all2 (\<lambda>p f. ModbusRtuPacket_deserialize f True = Inr p) ps fs \<and>
    splitter_push_all reg (splitter_init side) (d # ds) =
      (ps, \<lparr>sp_side = side, sp_buffer = [], sp_resyncs = length noise\<rparr>)"
  using assms by (rule splitter_recovers_in_time)

theorem splitter_recovers_witness:
  "\<exists>ps. list_all2 (\<lambda>p f. ModbusRtuPacket_deserialize f True = Inr p) ps (replicate 67 [17, 7, 76, 34]) \<and>
    splitter_push_all default_registry (splitter_init REQUEST)
      [[17, 8, 0, 0, 165, 55, 216, 29], concat (replicate 67 [17, 7, 76, 34])] =
      (ps, \<lparr>sp_side = REQUEST, sp_buffer = [], sp_resyncs = length [17, 8, 0, 0, 165, 55, 216, 29 :: byte]\<rparr>)"
proof (rule splitter_recovers)
  have "sent_sized default_registry REQUEST (ModbusRtuRequest 17 (DiagnosticsPdu ModbusRequestFC7)) [17, 7, 76, 34]"
    by code_simp
  then show "list_all2 (sent_sized default_registry REQUEST)
      (replicate 67 (ModbusRtuRequest 17 (DiagnosticsPdu ModbusRequestFC7))) (replicate 67 [17, 7, 76, 34])"
    by (simp add: list_all2_conv_all_nth)
  show "LARGEST_ANNOUNCED_FRAME \<le> length (concat (replicate 67 [17, 7, 76, 34 :: byte]))"
    by (simp add: LARGEST_ANNOUNCED_FRAME_def length_concat sum_list_replicate)
  show "holds_no_frame default_registry REQUEST [17, 8, 0, 0, 165, 55, 216, 29] (concat (replicate 67 [17, 7, 76, 34]))"
    unfolding holds_no_frame_def by code_simp
qed (simp only: concat.simps append_Nil2)

text \<open>
  C9. Nothing is lost or made up in parsing a request: whatever parses, under any registry its own
  operations can build, serializes to the bytes it came from. Two different byte strings never
  parse to one request.
\<close>

theorem parse_request_reproduces:
  assumes "registry_ok reg" and "parse_request reg s = Inr q"
  shows "dyn_serialize q = Inr s"
  using assms by (rule parse_request_exact)

theorem parse_request_reproduces_witness:
  "dyn_serialize (BitsPdu (ModbusRequestFC15 19 10 2 [205, 1])) = Inr [15, 0, 19, 0, 10, 2, 205, 1]"
  by (rule parse_request_reproduces [OF registry_ok_default]) code_simp

text \<open>
  C10. \<open>examples/run_the_simulators.py\<close>, from start to end: wherever the listener comes up, the script prints
  the port, the header and the ten coils that the server answers in two bytes, ends without an
  exception, and leaves the server thread down and the listener and both ends of the connection closed.
\<close>

theorem simulators_run_end_to_end:
  assumes "scene_ok sc"
  shows "\<exists>w. run_the_simulators io sc = Some (([''server listening on port '' @ dec_string (li_port (sc_listen sc)),
      ''HEADER: (Trans-ID: 0, Prot-ID: 0, Length: 5, Unit-ID: 1)'', ''PDU: (FC: 01, Data: (2, 255, 255))''], Inr ()), Some w) \<and>
    shut_down sc w"
  by (rule run_the_simulators_runs [OF assms])

theorem simulators_run_end_to_end_witness:
  "\<exists>w. run_the_simulators plain_ssl_io small_scene = Some (([''server listening on port 50200'',
      ''HEADER: (Trans-ID: 0, Prot-ID: 0, Length: 5, Unit-ID: 1)'', ''PDU: (FC: 01, Data: (2, 255, 255))''], Inr ()), Some w) \<and>
    shut_down small_scene w"
proof -
  have ok: "scene_ok small_scene"
    and line: "''server listening on port '' @ dec_string (li_port (sc_listen small_scene)) = ''server listening on port 50200''"
    by (simp_all add: scene_ok_def small_scene_def printing)
  show ?thesis by (rule simulators_run_end_to_end [OF ok, of plain_ssl_io, unfolded line])
qed

text \<open>
  C11. Over any serial port that returns the bytes of the line in order, a frame the peer sent, part of
  which may already be buffered, is what \<open>receive\<close> returns, whole; and not a byte behind it is
  taken off the line. This is the receive that knows the length from the frame itself.
\<close>

theorem receive_sent_frame:
  assumes "byte_port ops coming" and "sent_sized reg (st_side st) self (u @ v)" and "st_buffer st = u"
    and "coming (st_port st) = v @ rest"
  shows "\<exists>p'. stream_receive reg ops st = Some (Inr (u @ v), st\<lparr>st_noise := 0, st_port := p', st_buffer := []\<rparr>) \<and>
    coming p' = rest"
  using byte_port.receive_loop_sent [OF assms(1), of reg "st\<lparr>st_noise := 0\<rparr>" self u v rest] assms(2-4)
  by (simp add: stream_receive_def)

theorem receive_sent_frame_witness:
  "\<exists>p'. stream_receive default_registry script_ops (stream_init [[17, 7], [76, 34, 99]] REQUEST False) =
      Some (Inr [17, 7, 76, 34], (stream_init [[17, 7], [76, 34, 99]] REQUEST False)\<lparr>st_noise := 0, st_port := p', st_buffer := []\<rparr>) \<and>
    script_coming p' = [99]"
proof -
  have "sent_sized default_registry REQUEST (ModbusRtuRequest 17 (DiagnosticsPdu ModbusRequestFC7)) [17, 7, 76, 34]"
    by code_simp
  then show ?thesis
    using receive_sent_frame [OF script.byte_port_axioms,
        of default_registry "stream_init [[17, 7], [76, 34, 99]] REQUEST False"
           "ModbusRtuRequest 17 (DiagnosticsPdu ModbusRequestFC7)" "[]" "[17, 7, 76, 34]" "[99]"]
    by (simp add: stream_init_def script_coming_def)
qed

text \<open>
  C12. Over any connected socket \<open>receive\<close> implements its contract, a function of the bytes the peer
  sends before it closes: nothing, a header cut short, a length field that counts less than the
  unit identifier, a PDU cut short, or one whole message with the rest left to be read. The sizes
  the bytes arrive in, and the fragment size they are asked for in, do not show. So it returns.
\<close>

theorem tcp_receive_refines_spec:
  assumes "byte_socket ops inbox" and "0 \<le> ts_frag_size st" and "ts_fragmenter st = ModbusFragmenter"
  shows "\<exists>s'. tcp_receive ops st = Some (fst (receive_spec (inbox (ts_sock st))), st\<lparr>ts_sock := s'\<rparr>) \<and>
    inbox s' = snd (receive_spec (inbox (ts_sock st)))"
  using byte_socket.receive_refines [OF assms(1,2)] assms(3) by simp

theorem tcp_receive_refines_spec_witness:
  "\<exists>s'. tcp_receive conn_ops (response_stream (idle_conn\<lparr>cn_in := [[0, 1, 0, 0, 0], [2, 1, 7, 9]]\<rparr>)) =
      Some (Inr [0, 1, 0, 0, 0, 2, 1, 7], response_stream s') \<and> conn_inbox s' = [9]"
proof -
  have "receive_spec [0, 1, 0, 0, 0, 2, 1, 7, 9] = (Inr [0, 1, 0, 0, 0, 2, 1, 7], [9])" by code_simp
  then show ?thesis
    using tcp_receive_refines_spec [OF conn.byte_socket_axioms,
        of "response_stream (idle_conn\<lparr>cn_in := [[0, 1, 0, 0, 0], [2, 1, 7, 9]]\<rparr>)"]
    by (simp add: conn_inbox_def)
qed

text \<open>
  C13. An RTU request of a packaged class survives the wire, with or without checksum verification: what
  comes back is the request that was serialized, carrying the checksum \<open>serialize\<close> stored in it.
\<close>

theorem rtu_request_round_trip:
  assumes "dyn_type (rtu_pdu self) \<in> set registrations" and "pdu_is_request (dyn_decl (dyn_type (rtu_pdu self)))"
    and "ModbusRtuRequest_serialize self = (Inr s, self')"
  shows "ModbusRtuRequest_deserialize (parse_request default_registry) s verify = Inr self'"
  by (rule request_parser.rtu_des_ser [OF assms(3) registered_known_request [OF assms(1,2)]])

theorem rtu_request_round_trip_witness:
  "ModbusRtuRequest_deserialize (parse_request default_registry) [17, 7, 76, 34] True =
    Inr \<lparr>slave_id = 17, rtu_pdu = DiagnosticsPdu ModbusRequestFC7, crc = 8780\<rparr>"
  by (rule rtu_request_round_trip [where self = "ModbusRtuRequest 17 (DiagnosticsPdu ModbusRequestFC7)"]) code_simp+

text \<open>
  C14. From the constructor on, in either mode \<open>start\<close> can set, whatever clients connect, send or drop, and whatever
  other threads ask of the server in between, its table stays consistent, and the mode is kept. Where the
  thread processes the connections, the listener heads the read list, the connections behind it are those
  with a time of last activity, each once, and no record is kept of a connection that is gone. Where a
  caller takes them with \<open>accept\<close>, the listener is read alone, no activity is recorded, and every connection
  that waits to be taken, each once, has its peer's name; the names of those taken are kept.
\<close>

theorem server_table_consistent:
  assumes "server_init io net host port delay frag_size frag_delay limit inactive_timeout tls = Inr (self, warnings)"
    and "server_start launched t polls process_connections timeout self = (r, self1)"
    and "server_open_listener inp self1 = (Inr (Some srv), self2)"
    and "(server_step reg ops srv)\<^sup>*\<^sup>*
      (self2\<lparr>sv_last_activity := Map.empty, sv_last_print := now, sv_started := True\<rparr>) self3"
  shows "server_ok srv self3 \<and> sv_process_connections self3 = process_connections"
  using server_reachable_ok [OF assms(4) server_opens(1) [OF assms(1-3)]] server_reachable_mode [OF assms(4)]
    server_opens(4) [OF assms(1-3)] by simp

theorem server_table_consistent_witness:
  "\<exists>self. server_accept id (server_record 1 (''peer'', 1) 5 (new_server\<lparr>sv_process_connections := False\<rparr>)) =
      (Inr (Some 1, Some (''peer'', 1)), self) \<and> server_ok 0 self \<and> \<not> sv_process_connections self"
proof -
  let ?new = "new_server\<lparr>sv_read_list := [], sv_started := False\<rparr>" and ?mode = "sv_process_connections_update (\<lambda>_. False)"
  let ?poll = "\<lparr>po_started = True, po_alive = True, po_time = 0\<rparr>"
  have init: "server_init plain_ssl_io (\<lambda>_. idle_conn) [] 502 0 0 0 10 10 None = Inr (?new, [])"
    by (simp add: server_init_def simulator_port_def new_server_def plain_config_def)
  have start: "server_start (Inr ()) 0 [?poll] False STARTUP_TIMEOUT ?new = (Some (Inr ()), ?mode ?new)"
    by (simp add: server_start_def new_server_def)
  have opens: "server_open_listener \<lparr>li_sock = 0, li_bind = (\<lambda>_. Inr ()), li_listen = (\<lambda>_. Inr ()), li_port = 502\<rparr> (?mode ?new) =
      (Inr (Some 0), ?mode (new_server\<lparr>sv_started := False\<rparr>))"
    by (simp add: server_open_listener_def new_server_def Let_def)
  have up: "?mode (new_server\<lparr>sv_started := False\<rparr>)\<lparr>sv_last_activity := Map.empty, sv_last_print := 0, sv_started := True\<rparr> = ?mode new_server"
    by (simp add: new_server_def)
  let ?one = "server_record 1 (''peer'', 1) 5 (?mode new_server)"
  have "server_pass default_registry conn_ops 0 first_client (?mode new_server) = Some (Inr (), ?one)"
    by (simp add: server_pass_def first_client_def new_server_def server_accept_connection_def server_secure_def server_record_def
        server_sweep_inactive_def server_sweep_one_def server_print_status_def)
  then have taken: "server_step default_registry conn_ops 0 (?mode new_server) ?one"
    by (rule server_step.pass [rotated 2]) (simp_all add: input_ok_def fresh_accepted_def fresh_socket_def first_client_def new_server_def)
  obtain self where accept: "server_accept id ?one = (Inr (Some 1, Some (''peer'', 1)), self)"
    by (simp add: server_accept_def new_server_def server_record_def)
  have "(server_step default_registry conn_ops 0)\<^sup>*\<^sup>* (?mode new_server) self"
    by (rule rtranclp_trans [OF r_into_rtranclp r_into_rtranclp], rule taken, rule server_step.accept [OF accept])
  then show ?thesis using server_table_consistent [OF init start opens, of _ _ 0, unfolded up] accept by blast
qed

text \<open>
  C15. The client's built-in exercise passes against the built-in server: for every address, and every count
  of registers that all its requests allow, \<open>test\<close> connects, sends its whole list of requests and gets to each
  the answer the server makes for it, under the identifier of that request; it raises nothing and lets go of the
  connection. \<open>test\<close> drops the answers; \<open>ask_all\<close> is the same calls of \<open>request\<close> with their results kept.
\<close>

theorem client_exercise_passes:
  fixes w :: "'c net"
  assumes "net_listening w" and "cl_port self = sv_port (nt_server w)" and "cl_tls self = None"
    and "client_ready self" and "cl_sock self = Some w" and "\<forall>t. cl_timeout self = Some t \<longrightarrow> 0 \<le> t"
    and "0 \<le> addr" and "addr \<le> 0xFFFF" and "1 \<le> count" and "count \<le> 0x79"
  shows "\<exists>self1 hs self2 self'. client_connect net_os fresh None None self = (Inr (), self1) \<and>
    ask_all default_registry net_ops fresh (test_requests addr count) self1 =
      Some (Inr (map Some (zip hs (map response_pdu (test_pdus addr count)))), self2) \<and>
    length hs = length (test_pdus addr count) \<and> map trans_id hs = take_trans_ids (length hs) self1 \<and>
    request_all default_registry net_ops fresh (test_requests addr count) self1 = Some (Inr (), self2) \<and>
    client_test default_registry net_ops net_os fresh addr count self = Some (Inr (), self') \<and> cl_sock self' = None"
  by (rule client_test_runs [OF assms])

theorem client_exercise_passes_witness:
  "\<exists>self1 hs self2 self'. ask_all default_registry net_ops new_wire (test_requests 0 16) self1 =
      Some (Inr (map Some (zip hs (map response_pdu (test_pdus 0 16)))), self2) \<and> length hs = length (test_pdus 0 16) \<and>
    client_test default_registry net_ops net_os new_wire 0 16 (wire_client\<lparr>cl_sock := Some new_wire\<rparr>) =
      Some (Inr (), self') \<and> cl_sock self' = None"
proof -
  have ready: "client_ready (wire_client\<lparr>cl_sock := Some new_wire\<rparr>)" by code_simp
  have "cl_port (wire_client\<lparr>cl_sock := Some new_wire\<rparr>) = sv_port (nt_server new_wire)"
    "cl_tls (wire_client\<lparr>cl_sock := Some new_wire\<rparr>) = None" "cl_sock (wire_client\<lparr>cl_sock := Some new_wire\<rparr>) = Some new_wire"
    "\<forall>t. cl_timeout (wire_client\<lparr>cl_sock := Some new_wire\<rparr>) = Some t \<longrightarrow> 0 \<le> t"
    by (simp_all add: wire_client_def new_wire_def new_net_def new_server_def)
  from client_exercise_passes [OF new_wire_listening this(1,2) ready this(3,4), of 0 16 new_wire] show ?thesis by auto
qed

text \<open>
  C16. A whole life of the server, from the console entry point: a listener that comes up serves through any
  number of passes, whatever its clients connect, send or drop; when the key is pressed the thread ends by
  itself, \<open>run_server\<close> returns, and the listener and every connection are closed. The passes are those the
  server survives: \<open>accept\<close>, the handshakes and \<open>getpeername\<close> answer, and no readable connection is stalled on half
  a frame of a client that stays, which would hold the thread in \<open>recv\<close> for good.
\<close>

theorem server_runs_until_stopped:
  assumes "blocking_socket ops inbox hung_up"
    and "server_init io net [] 502 0 0 0 50 (60 * SECOND) None = Inr (self0, warnings)"
    and "li_bind li ([], 502) = Inr ()" and "li_listen li 50 = Inr ()"
    and "start_wait polls (now + STARTUP_TIMEOUT) = Some (Inr ())"
    and "well_fed default_registry ops inbox hung_up (li_sock li) (inps @ [final])
      (thread_started li now (self0\<lparr>sv_process_connections := True, sv_startup_error := None\<rparr>))"
  shows "\<exists>self. run_server io net ops (Inr ()) polls li now inps final = Some (Inr (), Some self) \<and> server_down (li_sock li) self"
  by (rule blocking_socket.run_server_ends [OF assms])

theorem server_runs_until_stopped_witness:
  "\<exists>self. run_server plain_ssl_io (\<lambda>_. open_line []) oc_ops (Inr ()) (sc_polls small_scene) (sc_listen small_scene) 0
     [first_client] (first_client\<lparr>in_ready := [], in_accepted := Inr (2, (''peer'', 2))\<rparr>) = Some (Inr (), Some self) \<and> server_down 0 self"
proof -
  let ?up = "line_server\<lparr>sv_port := 50200, sv_connection_limit := 50, sv_inactive_timeout := 60 * SECOND\<rparr>"
  let ?final = "first_client\<lparr>in_ready := [], in_accepted := Inr (2, (''peer'', 2))\<rparr>"
  obtain self0 where init: "server_init plain_ssl_io (\<lambda>_. open_line []) [] 502 0 0 0 50 (60 * SECOND) None = Inr (self0, [])"
    and up: "thread_started (sc_listen small_scene) 0 (self0\<lparr>sv_process_connections := True, sv_startup_error := None\<rparr>) = ?up"
    by (simp add: server_init_def simulator_port_def thread_started_def server_open_listener_def small_scene_def line_server_def Let_def)
  have "\<exists>self1. server_pass default_registry oc_ops 0 first_client ?up = Some (Inr (), self1) \<and> fresh_socket self1 2 \<and>
      \<not> sv_tls self1"
    by (simp add: server_pass_def first_client_def line_server_def server_accept_connection_def server_secure_def server_record_def
        server_sweep_inactive_def server_sweep_one_def server_print_status_def server_get_peers_def fresh_socket_def SECOND_def
        res_simps Let_def)
  then have "well_fed default_registry oc_ops oc_inbox oc_hung_up 0 [first_client, ?final] ?up"
    by (auto simp: input_ok_def accept_returns_def handshakes_ok_def fresh_accepted_def peers_answer_def fresh_socket_def
        first_client_def line_server_def split: option.splits sum.splits)
  then have fed: "well_fed default_registry oc_ops oc_inbox oc_hung_up (li_sock (sc_listen small_scene)) ([first_client] @ [?final])
      (thread_started (sc_listen small_scene) 0 (self0\<lparr>sv_process_connections := True, sv_startup_error := None\<rparr>))"
    unfolding up by (simp add: small_scene_def)
  show ?thesis
    using server_runs_until_stopped [OF oc.blocking_socket_axioms init _ _ _ fed]
    by (simp add: small_scene_def STARTUP_TIMEOUT_def SECOND_def)
qed

text \<open>
  C17. How the bytes are cut up before they are pushed makes no difference: pushing chunk after chunk
  yields the frames, the buffer and the count of resynchronisations that one push of all of them
  yields.
\<close>

theorem splitter_ignores_chunking:
  assumes "concat (d # ds) = concat (e # es)"
  shows "splitter_push_all reg sp (d # ds) = splitter_push_all reg sp (e # es)"
  using assms by (simp only: splitter_push_all_concat)

theorem splitter_ignores_chunking_witness:
  "splitter_push_all default_registry (splitter_init REQUEST) [[17], [7, 76], [34]] =
   splitter_push_all default_registry (splitter_init REQUEST) [[17, 7, 76, 34]]"
  by (rule splitter_ignores_chunking) simp

text \<open>
  C18. Whatever is pushed, no byte goes missing unnoticed: what was buffered and what came in are, in
  order, the frames of the packets returned (each with a right checksum and serializing to just
  those bytes), single bytes dropped between them, as many as \<open>resyncs\<close> rose by, and the buffer
  that is left.
\<close>

theorem splitter_accounts_for_bytes:
  assumes "splitter_push reg sp data = (ps, sp')"
  shows "\<exists>n. sp_resyncs sp' = sp_resyncs sp + n \<and> sp_side sp' = sp_side sp \<and>
    cuts_into (sp_buffer sp @ data) ps n (sp_buffer sp')"
  using splitter_drain_cut [of reg "splitter_extend sp data" ps sp'] assms
  by (simp add: splitter_push_def)

theorem splitter_accounts_for_bytes_witness:
  "\<exists>n. sp_resyncs (snd (splitter_push default_registry (splitter_init REQUEST) [0, 17, 7, 76, 34])) = 0 + n \<and>
    cuts_into [0, 17, 7, 76, 34] (fst (splitter_push default_registry (splitter_init REQUEST) [0, 17, 7, 76, 34])) n
      (sp_buffer (snd (splitter_push default_registry (splitter_init REQUEST) [0, 17, 7, 76, 34])))"
  using splitter_accounts_for_bytes [of default_registry "splitter_init REQUEST" "[0, 17, 7, 76, 34]", OF surjective_pairing]
  by (auto simp: splitter_init_def)

text \<open>
  C19. A splitter never holds back more than a frame: whatever is pushed into it, in whatever state it is, what
  stays in its buffer afterwards is shorter than the longest frame a PDU can announce.
\<close>

theorem splitter_buffer_bounded:
  "splitter_pending (snd (splitter_push reg sp data)) < LARGEST_ANNOUNCED_FRAME"
  by (rule splitter_push_holds)

text \<open>
  C20. No bytes make the server write much: over any socket that takes what it is given, whatever the server is
  handed, a request or not, within the specification or beyond it, it writes at most 264 bytes, or no more
  than it was sent. What a data handler of the caller's writes comes on top: none is set here.
\<close>

theorem answers_stay_small:
  assumes "greedy_socket ops outbox" and "cfg_handler cfg = None"
  shows "\<exists>m. outbox (snd (on_data default_registry ops cfg data conn)) = outbox conn @ m \<and>
    length m \<le> max 264 (length data)"
  using greedy_socket.on_data_bounded [OF assms, of data conn] by (simp add: HEADER_SIZE_def)

theorem answers_stay_small_witness:
  "length (cn_out (snd (on_data default_registry conn_ops plain_config [0, 7, 0, 0, 0, 6, 1, 1, 0, 0, 7, 248] idle_conn))) \<le> 264"
  using answers_stay_small [OF conn_out.greedy_socket_axioms, of plain_config "[0, 7, 0, 0, 0, 6, 1, 1, 0, 0, 7, 248]" idle_conn]
  by (auto simp: plain_config_def idle_conn_def)

text \<open>
  C21. What \<open>ModbusTcpSender.run_once\<close> puts on the wire, \<open>ModbusTcpReceiver.run_once\<close> at the other end
  captures: one packet for each message sent, in order, serializing to just that message. The
  sender may cut its messages into fragments of any size, and the receiver read in any other.
\<close>

theorem capture_round_trip:
  assumes "greedy_socket ops outbox" and "byte_socket rops inbox"
    and "sender_messages packets = Inr ms" and "0 \<le> n" and "0 \<le> delay" and "0 \<le> k"
    and "inbox peer = concat ms"
  shows "(\<exists>sender'. sender_run_once ops (sender_init sock packets n delay burst) = (Inr (), sender') \<and>
      outbox (ts_sock (sd_stream sender')) = outbox sock @ concat ms) \<and>
    (\<exists>qs receiver'. receiver_run_once rops None (receiver_init peer k) = Some (Inr qs, receiver') \<and>
      rc_packets receiver' = qs \<and> list_all2 (\<lambda>q m. ModbusTcpPacket_serialize q = Inr m) qs ms)"
proof
  define st where "st = \<lparr>ts_sock = sock, ts_fragmenter = ModbusFragmenter, ts_frag_delay = delay, ts_frag_size = n,
    ts_burst = burst\<rparr>"
  obtain s' packets' where "sender_loop ops st packets = (Inr (), st\<lparr>ts_sock := s'\<rparr>, packets')"
    and "outbox s' = outbox sock @ concat ms"
    using greedy_socket.sender_loop_sends [OF assms(1,3), of st] assms(4,5) by (auto simp: st_def)
  then show "\<exists>sender'. sender_run_once ops (sender_init sock packets n delay burst) = (Inr (), sender') \<and>
      outbox (ts_sock (sd_stream sender')) = outbox sock @ concat ms"
    by (simp add: sender_run_once_def sender_init_def st_def Let_def)
  obtain s'' qs where "receiver_loop rops None 0 (receiver_init peer k) = Some (Inr (), (receiver_init peer k)\<lparr>
      rc_stream := (rc_stream (receiver_init peer k))\<lparr>ts_sock := s''\<rparr>, rc_packets := qs\<rparr>)"
    and "list_all2 (\<lambda>q m. ModbusTcpPacket_serialize q = Inr m) qs ms"
    using byte_socket.receiver_loop_captures [OF assms(2,3), of "receiver_init peer k" 0] assms(6,7)
    by (auto simp: receiver_init_def)
  then show "\<exists>qs receiver'. receiver_run_once rops None (receiver_init peer k) = Some (Inr qs, receiver') \<and>
      rc_packets receiver' = qs \<and> list_all2 (\<lambda>q m. ModbusTcpPacket_serialize q = Inr m) qs ms"
    by (simp add: receiver_run_once_def receiver_init_def)
qed

theorem capture_round_trip_witness:
  "\<exists>qs receiver'. receiver_run_once conn_ops None (receiver_init (idle_conn\<lparr>cn_in := [[0, 1, 0], [0, 0, 2, 1, 7]]\<rparr>) 0) =
      Some (Inr qs, receiver') \<and> list_all2 (\<lambda>q m. ModbusTcpPacket_serialize q = Inr m) qs [[0, 1, 0, 0, 0, 2, 1, 7]]"
proof -
  have "sender_messages [\<lparr>tcp_header = \<lparr>trans_id = 1, prot_id = 0, hdr_length = 0, unit_id = 1\<rparr>,
      tcp_pdu = DiagnosticsPdu ModbusRequestFC7\<rparr>] = Inr [[0, 1, 0, 0, 0, 2, 1, 7]]"
    by code_simp
  from capture_round_trip [OF conn_out.greedy_socket_axioms conn.byte_socket_axioms this, of 3 1 0
      "idle_conn\<lparr>cn_in := [[0, 1, 0], [0, 0, 2, 1, 7]]\<rparr>" idle_conn False]
  show ?thesis by (simp add: conn_inbox_def) blast
qed

text \<open>
  C22. The checksum sees every corruption confined to two neighbouring bytes: of two frames that differ
  only there, at most one passes \<open>validate_crc\<close>.
\<close>

theorem crc_detects_burst:
  assumes "validate_crc (pre @ x @ post) = Inr c" and "validate_crc (pre @ y @ post) = Inr d"
    and "length x = length y" and "length x \<le> 2"
  shows "x = y"
  using crc_valid_burst [OF _ _ assms(3,4)] assms(1,2) validate_crc_valid by blast

theorem crc_detects_burst_witness:
  "validate_crc [17, 7, 76, 34] = Inr 8780 \<and> ([17, 7] :: bytes) = [17, 7]"
proof -
  have v: "validate_crc [17, 7, 76, 34] = Inr 8780" by code_simp
  with crc_detects_burst [of "[]" "[17, 7]" "[76, 34]" 8780 "[17, 7]" 8780] show ?thesis by simp
qed

text \<open>
  C23. Responses to requests the client has given up on do not reach the caller: up to eight of them are
  dropped on the way to the one that carries the pending identifier, which is returned, and the
  bytes behind it are left to be read.
\<close>

theorem late_responses_are_dropped:
  assumes "frame_source ops inbox" and "cl_pending_trans_id self = Some t" and "cl_sock self = Some s"
    and "list_all2 (\<lambda>m r. ModbusTcpResponse_deserialize (parse_response reg) m = Inr r \<and> trans_id (tcp_header r) \<noteq> t) ms rs"
    and "length ms \<le> MAX_STALE_RESPONSES"
    and "ModbusTcpResponse_deserialize (parse_response reg) m = Inr r" and "trans_id (tcp_header r) = t"
    and "inbox s = concat ms @ m @ rest"
  shows "\<exists>s'. wait_response reg ops fresh self =
      Some (Inr (Some (tcp_header r, tcp_pdu r)), self\<lparr>cl_pending_trans_id := None, cl_sock := Some s'\<rparr>) \<and>
    inbox s' = rest"
  by (rule frame_source.wait_response_finds [OF assms])

theorem late_responses_are_dropped_witness:
  "\<exists>self'. wait_response default_registry conn_ops idle_conn
      (idle_client\<lparr>cl_pending_trans_id := Some 1,
        cl_sock := Some (idle_conn\<lparr>cn_in := [[0, 0, 0, 0, 0, 3, 1, 7, 8], [0, 1, 0, 0, 0, 3, 1, 7, 9]]\<rparr>)\<rparr>) =
    Some (Inr (Some (\<lparr>trans_id = 1, prot_id = 0, hdr_length = 3, unit_id = 1\<rparr>, DiagnosticsPdu (ModbusResponseFC7 9))), self')"
proof -
  have late: "ModbusTcpResponse_deserialize (parse_response default_registry) [0, 0, 0, 0, 0, 3, 1, 7, 8] =
      Inr \<lparr>tcp_header = \<lparr>trans_id = 0, prot_id = 0, hdr_length = 3, unit_id = 1\<rparr>, tcp_pdu = DiagnosticsPdu (ModbusResponseFC7 8)\<rparr>"
    and good: "ModbusTcpResponse_deserialize (parse_response default_registry) [0, 1, 0, 0, 0, 3, 1, 7, 9] =
      Inr \<lparr>tcp_header = \<lparr>trans_id = 1, prot_id = 0, hdr_length = 3, unit_id = 1\<rparr>, tcp_pdu = DiagnosticsPdu (ModbusResponseFC7 9)\<rparr>"
    by code_simp+
  have "list_all2 (\<lambda>m r. ModbusTcpResponse_deserialize (parse_response default_registry) m = Inr r \<and>
      trans_id (tcp_header r) \<noteq> 1) [[0, 0, 0, 0, 0, 3, 1, 7, 8]]
      [\<lparr>tcp_header = \<lparr>trans_id = 0, prot_id = 0, hdr_length = 3, unit_id = 1\<rparr>, tcp_pdu = DiagnosticsPdu (ModbusResponseFC7 8)\<rparr>]"
    using late by simp
  from late_responses_are_dropped [OF conn.frame_source_axioms _ _ this _ good, of
      "idle_client\<lparr>cl_pending_trans_id := Some 1,
        cl_sock := Some (idle_conn\<lparr>cn_in := [[0, 0, 0, 0, 0, 3, 1, 7, 8], [0, 1, 0, 0, 0, 3, 1, 7, 9]]\<rparr>)\<rparr>"
      "idle_conn\<lparr>cn_in := [[0, 0, 0, 0, 0, 3, 1, 7, 8], [0, 1, 0, 0, 0, 3, 1, 7, 9]]\<rparr>" "[]" idle_conn]
  show ?thesis by (auto simp: conn_inbox_def MAX_STALE_RESPONSES_def)
qed

text \<open>
  C24. Transaction identifiers count up modulo 65536 from the next one, so no two of 65536 requests in a
  row carry the same one, and each fits its two bytes.
\<close>

theorem trans_ids_do_not_repeat:
  assumes "trans_id_ok self" and "int n \<le> TRANS_ID_MODULO"
  shows "take_trans_ids n self = map (\<lambda>i. (cl_next_trans_id self + int i) mod TRANS_ID_MODULO) [0..<n] \<and>
    distinct (take_trans_ids n self)"
  using take_trans_ids_eq [OF assms(1)] take_trans_ids_distinct [OF assms] by simp

theorem trans_ids_do_not_repeat_witness:
  "take_trans_ids 3 (idle_client\<lparr>cl_next_trans_id := 65534\<rparr>) = [65534, 65535, 0] \<and> distinct [65534, 65535, 0::int]"
  using trans_ids_do_not_repeat [of "idle_client\<lparr>cl_next_trans_id := 65534\<rparr>" 3]
  by (simp add: trans_id_ok_def TRANS_ID_MODULO_def upt_rec)

text \<open>
  C25. A request whose header is sound and whose PDU cannot be read is not met with silence: the peer is
  sent exception code 3 for the function code it used, under its own identifiers.
\<close>

theorem server_reports_unparsable:
  assumes "greedy_socket ops outbox" and "framed_header data = Some h"
    and "parse_request reg (drop HEADER_SIZE data) = Inl e"
    and "length data \<noteq> HEADER_SIZE" and "uint (data ! HEADER_SIZE) < 0x80"
  shows "\<exists>s' m. on_data reg ops cfg data conn = (Inr (), s') \<and> outbox s' = outbox conn @ m \<and>
    ModbusTcpResponse_deserialize (parse_response reg) m = Inr \<lparr>tcp_header = response_header h 2,
      tcp_pdu = CommonPdu (ModbusError (uint (data ! HEADER_SIZE)) OMB_EXCEPTION_ILLEGAL_DATA_VALUE)\<rparr>"
  by (rule greedy_socket.on_data_unparsable [OF assms])

theorem server_reports_unparsable_witness:
  "\<exists>s' m. on_data default_registry conn_ops plain_config [0, 5, 0, 0, 0, 3, 1, 3, 0] idle_conn = (Inr (), s') \<and>
    cn_out s' = m \<and> ModbusTcpResponse_deserialize (parse_response default_registry) m =
      Inr \<lparr>tcp_header = response_header \<lparr>trans_id = 5, prot_id = 0, hdr_length = 3, unit_id = 1\<rparr> 2,
           tcp_pdu = CommonPdu (ModbusError 3 3)\<rparr>"
proof -
  have facts: "framed_header [0, 5, 0, 0, 0, 3, 1, 3, 0] = Some \<lparr>trans_id = 5, prot_id = 0, hdr_length = 3, unit_id = 1\<rparr>"
    "parse_request default_registry (drop HEADER_SIZE [0, 5, 0, 0, 0, 3, 1, 3, 0]) = Inl ModbusPacketError"
    by code_simp+
  then show ?thesis
    using server_reports_unparsable [OF conn_out.greedy_socket_axioms facts, of plain_config idle_conn]
    by (simp add: HEADER_SIZE_def exception_codes idle_conn_def)
qed

text \<open>
  C26. Whatever the parser builds, from any bytes and under any registry, is well typed: the function code and
  each field fits the integer type its class declares for it, and so does every value behind them.
\<close>

theorem parsed_packets_are_typed:
  assumes "parse_request reg s = Inr p \<or> parse_response reg s = Inr p"
  shows "dyn_typed p"
  using assms by (auto simp: parse_request_def parse_response_def res_simps Let_def dest: dyn_deserialize_typed split: if_splits)

theorem parsed_packets_are_typed_witness:
  "dyn_typed (BitsPdu (ModbusRequestFC15 0xFFFF 9 2 [255, 1])) \<and> \<not> dyn_typed (BitsPdu (ModbusRequestFC15 0x10000 9 2 [255, 1]))"
proof
  have "parse_request default_registry [15, 255, 255, 0, 9, 2, 255, 1] = Inr (BitsPdu (ModbusRequestFC15 0xFFFF 9 2 [255, 1]))"
    by code_simp
  then show "dyn_typed (BitsPdu (ModbusRequestFC15 0xFFFF 9 2 [255, 1]))"
    by (rule parsed_packets_are_typed [OF disjI1])
qed code_simp

text \<open>
  C27. \<open>serialize\<close> succeeds on exactly the packets that are well typed, whose count field, where the format is
  taken from it, is the number of values held, and that fit the address space; on every other packet, of
  any class, it raises.
\<close>

theorem serializes_exactly_the_typed:
  "(\<exists>s. dyn_serialize p = Inr s) \<longleftrightarrow> dyn_typed p \<and> count_agrees p \<and> wire_size p \<le> PY_SSIZE_T_MAX"
  by (rule dyn_serializes)

text \<open>
  C28. The text of a packet loses nothing: two TCP packets of one PDU class that print the same are the same
  packet, header field by header field and value by value, whatever the values are.
\<close>

theorem text_determines_packet:
  assumes "tcp_str kind p = Inr t" and "tcp_str kind q = Inr t" and "dyn_type (tcp_pdu p) = dyn_type (tcp_pdu q)"
  shows "p = q"
  by (rule tcp_str_determines [OF assms])

theorem text_determines_packet_witness:
  "tcp_str ''TCP'' \<lparr>tcp_header = \<lparr>trans_id = 1, prot_id = 0, hdr_length = 3, unit_id = 1\<rparr>, tcp_pdu = DiagnosticsPdu (ModbusResponseFC7 8)\<rparr> \<noteq>
   tcp_str ''TCP'' \<lparr>tcp_header = \<lparr>trans_id = 1, prot_id = 0, hdr_length = 3, unit_id = 1\<rparr>, tcp_pdu = DiagnosticsPdu (ModbusResponseFC7 9)\<rparr>"
  (is "tcp_str _ ?p \<noteq> tcp_str _ ?q")
proof
  obtain t where t: "tcp_str ''TCP'' ?p = Inr t" by (simp add: tcp_str_def dyn_str_shown)
  moreover assume "tcp_str ''TCP'' ?p = tcp_str ''TCP'' ?q"
  ultimately have "?p = ?q" by (intro text_determines_packet [of "''TCP''" ?p t ?q]) simp_all
  then show False by simp
qed

text \<open>
  C29. \<open>==\<close> on packets is identity, with one exception: for the five functions that answer with an echo (write
  one coil, write one register, mask write, diagnostics, encapsulated transport) a request equals the
  response with the same fields, since the comparison looks at attributes and not at classes.
\<close>

theorem packets_equal_iff: "pdu_eq (dyn_self p) (dyn_self q) \<longleftrightarrow> p = q \<or> echo_twin p = Some q"
  by (rule dyn_eq)

text \<open>
  C30. A client that fails the TLS handshake stops the server: its connection is put on the read list although
  \<open>wrap_socket\<close> has let go of its socket, and the next pass raises on it, which ends the thread.
\<close>

theorem failed_handshake_stops_server:
  assumes "server_ok srv self" and "server_live self" and "sv_tls self" and "sv_process_connections self"
    and "int (length (sv_conns self)) < sv_connection_limit self" and "0 \<le> sv_inactive_timeout self"
    and "in_ready inp = [srv]" and "in_accepted inp = Inr (c, addr)" and "in_wrap inp c = Inl SSLError"
    and "fresh_socket self c" and "\<not> sv_quit self"
  shows "\<exists>e self'. server_run reg ops srv ((inp, \<lambda>s. s) # (inp', meanwhile) # inps) self = Some (Inl e, self')"
  by (rule failed_handshake [OF assms])

theorem failed_handshake_stops_server_witness:
  "\<exists>e self'. server_run default_registry conn_ops 0 [(first_client, \<lambda>s. s), (first_client, \<lambda>s. s)]
     (new_server\<lparr>sv_tls := True\<rparr>) = Some (Inl e, self')"
  by (rule failed_handshake_stops_server [where c = 1 and addr = "(''peer'', 1)"])
    (auto simp: server_ok_def server_live_def fresh_socket_def new_server_def first_client_def)

text \<open>
  C31. So does a peer that is gone when the status line is printed: \<open>getpeername\<close> raises on its socket, and
  nothing between there and the thread catches it.
\<close>

theorem reset_peer_stops_server:
  assumes "server_ok srv self" and "server_live self" and "\<not> sv_quit self" and "sv_process_connections self"
    and "in_ready inp = []" and "sv_last_print self + SECOND < in_now inp"
    and "c \<in> set (sv_conns self)" and "\<not> silent self (in_now inp) c"
    and "in_getpeername inp c = Inl OSError" and "\<And>d e. in_getpeername inp d = Inl e \<Longrightarrow> e = OSError"
  shows "\<exists>self'. server_run reg ops srv ((inp, meanwhile) # inps) self = Some (Inl OSError, self')"
  by (rule reset_peer [OF assms])

theorem reset_peer_stops_server_witness:
  "\<exists>self'. server_run default_registry conn_ops 0
     [(first_client\<lparr>in_ready := [], in_now := SECOND + 1, in_getpeername := \<lambda>_. Inl OSError\<rparr>, \<lambda>s. s)]
     (server_record 1 (''peer'', 1) SECOND new_server) = Some (Inl OSError, self')"
  by (rule reset_peer_stops_server [where c = 1])
    (auto simp: server_ok_def server_live_def silent_def new_server_def first_client_def SECOND_def server_record_def)

text \<open>
  C32. However the goodbye goes, \<open>disconnect\<close> lets go of the socket: it is closed and the client holds none.
  It raises nothing but what \<open>unwrap\<close> may raise beside an \<open>OSError\<close>, and that it does let out: on a TLS
  socket that never completed its handshake, the \<open>ValueError\<close> of the \<open>ssl\<close> module.
\<close>

theorem client_lets_go:
  assumes "socket_life os closed" and "cl_sock self = Some s"
  shows "\<exists>r s'. client_disconnect os self = (r, self\<lparr>cl_sock := None\<rparr>, Some s') \<and> closed s' \<and>
    (r \<noteq> Inr () \<longrightarrow> os_is_ssl os s \<and> (\<exists>e. r = Inl e \<and> fst (os_unwrap os s) = Inl e \<and> \<not> is_OSError e))"
  by (rule socket_life.disconnect_raises [OF assms])

theorem client_lets_go_witness:
  "\<exists>s'. client_disconnect life_os \<lparr>cl_timeout = Some 10, cl_host = ''localhost'', cl_port = 802, cl_unit_id = 1,
       cl_frag_size = 0, cl_frag_delay = 0, cl_next_trans_id = 0, cl_pending_trans_id = None, cl_tls = Some unchecked_tls,
       cl_crypto = None, cl_sock = Some ((new_sock False)\<lparr>ls_ssl := True\<rparr>)\<rparr> =
     (Inl ValueError, \<lparr>cl_timeout = Some 10, cl_host = ''localhost'', cl_port = 802, cl_unit_id = 1,
       cl_frag_size = 0, cl_frag_delay = 0, cl_next_trans_id = 0, cl_pending_trans_id = None, cl_tls = Some unchecked_tls,
       cl_crypto = None, cl_sock = None\<rparr>, Some s') \<and> ls_closed s'"
  (is "\<exists>s'. client_disconnect life_os ?self = _ \<and> _")
proof -
  obtain r s' where d: "client_disconnect life_os ?self = (r, ?self\<lparr>cl_sock := None\<rparr>, Some s')" and "ls_closed s'"
    using client_lets_go [OF life.socket_life_axioms, of ?self "(new_sock False)\<lparr>ls_ssl := True\<rparr>"] by auto
  moreover have "fst (client_disconnect life_os ?self) = Inl ValueError"
    by (simp add: client_disconnect_def say_goodbye_def ignore_OSError_def life_os_def new_sock_def is_OSError_def)
  ultimately show ?thesis by simp
qed

text \<open>
  C33. Over any port at all, one that loses, repeats or makes up bytes included, what the RTU stream's
  \<open>receive\<close> returns is a frame: its checksum is right and it deserializes.
\<close>

theorem receive_returns_frames:
  assumes "stream_receive reg ops st = Some (Inr f, st')"
  shows "(\<exists>c. validate_crc f = Inr c) \<and> (\<exists>p. ModbusRtuPacket_deserialize f True = Inr p)"
proof -
  have "is_frame f" using assms unfolding stream_receive_def by (rule stream_receive_loop_frame)
  then show ?thesis using is_frame_iff [of f] validate_crc_valid [of f] by (simp add: is_frame_def)
qed

theorem receive_returns_frames_witness:
  "\<exists>f st'. stream_receive default_registry script_ops (stream_init [[17, 7, 76, 34]] REQUEST False) = Some (Inr f, st') \<and>
    (\<exists>c. validate_crc f = Inr c)"
proof -
  have "sent_sized default_registry REQUEST (ModbusRtuRequest 17 (DiagnosticsPdu ModbusRequestFC7)) [17, 7, 76, 34]"
    by code_simp
  then obtain st' where r: "stream_receive default_registry script_ops (stream_init [[17, 7, 76, 34]] REQUEST False) =
      Some (Inr [17, 7, 76, 34], st')"
    using script.receive_loop_sent [of default_registry "stream_init [[17, 7, 76, 34]] REQUEST False"
        "ModbusRtuRequest 17 (DiagnosticsPdu ModbusRequestFC7)" "[]" "[17, 7, 76, 34]" "[]"]
    by (auto simp: stream_receive_def stream_init_def script_coming_def)
  from receive_returns_frames [OF r] r show ?thesis by blast
qed

text \<open>
  C34. Over a port that returns the bytes of the line and then goes quiet, \<open>receive\<close> returns, whatever
  the bytes are and whatever was buffered: with a frame, or with an error.
\<close>

theorem receive_terminates:
  assumes "byte_port ops coming"
  shows "stream_receive reg ops st \<noteq> None"
  using byte_port.receive_loop_returns [OF assms, of reg "st\<lparr>st_noise := 0\<rparr>"] by (auto simp: stream_receive_def)

theorem receive_terminates_witness:
  "stream_receive default_registry script_ops (stream_init [[1, 43, 0, 0, 7, 7], [9]] RESPONSE False) \<noteq> None"
  by (rule receive_terminates [OF script.byte_port_axioms])

text \<open>
  C35. The checksum, computed on unbounded integers, is the sixteen-bit register of the specification:
  shifting right and adding the generator modulo two, one byte after another from \<open>0xFFFF\<close>. So
  it always fits the two bytes it is packed into.
\<close>

theorem crc_register_equivalence:
  "calc_crc16 data = uint (reg_run 0xFFFF data) \<and> 0 \<le> calc_crc16 data \<and> calc_crc16 data < 65536"
  using calc_crc16_reg calc_crc16_bounds by simp

text \<open>
  C36. \<open>send\<close> does not look at how many bytes the socket took: over one that takes no more than it has
  room for, as \<open>socket.send\<close> is documented to, the rest of the message is lost and the call returns
  as if it had been sent.
\<close>

theorem partial_send_truncates:
  assumes "ts_frag_size st = 0" and "0 \<le> ts_frag_delay st" and "ts_fragmenter st = ModbusFragmenter"
  shows "fst (tcp_send partial_ops st m) = Inr () \<and>
    cn_out (ts_sock (snd (tcp_send partial_ops st m))) = cn_out (ts_sock st) @ take (cn_room (ts_sock st)) m"
  using assms
  by (simp add: tcp_send_def tcp_send_body_def partial_ops_def conn_ops_def ModbusFragmenter_def
      fragmenter_fragment_def sleep_def)

theorem partial_send_truncates_witness:
  "fst (tcp_send partial_ops (response_stream idle_conn) [0, 1, 0, 0, 0, 2, 1, 7]) = Inr () \<and>
   cn_out (ts_sock (snd (tcp_send partial_ops (response_stream idle_conn) [0, 1, 0, 0, 0, 2, 1, 7]))) = [0, 1, 0, 0]"
  using partial_send_truncates [of "response_stream idle_conn" "[0, 1, 0, 0, 0, 2, 1, 7]"]
  by (simp add: idle_conn_def)

text \<open>
  C37. A negative fragment size, which \<open>send\<close> refuses, makes \<open>receive\<close> loop for ever over any socket as soon as a
  header that announces a PDU has come, whatever comes behind it: each turn asks for fewer than no bytes and
  has as many still to come as before.
\<close>

theorem receive_hangs_on_negative_size:
  assumes "frame_source ops inbox" and "ts_frag_size st < 0"
    and "7 \<le> length (inbox (ts_sock st))" and "1 < announced (inbox (ts_sock st))"
  shows "tcp_receive ops st = None"
  by (rule receive_hangs [OF assms])

theorem receive_hangs_on_negative_size_witness:
  "tcp_receive conn_ops ((response_stream (idle_conn\<lparr>cn_in := [[0, 1, 0, 0], [0, 2, 1, 7]]\<rparr>))\<lparr>ts_frag_size := - 1\<rparr>) = None"
  by (rule receive_hangs_on_negative_size [OF conn.frame_source_axioms])
    (simp_all add: conn_inbox_def announced_def)

text \<open>
  C38. The report of relaxations matches the context that is built, for ciphers and host names, on either side.
  A peer policy is reported just where the context carries it, with one exception: where host names are
  checked and the caller asked for \<open>CERT_NONE\<close>, that policy is reported although the context requires a
  certificate all the same. No setting brings the protocol below its floor.
\<close>

theorem relaxations_exact_but_one:
  assumes "tls_context io self role = Inr c" and "ssl_io_ok io"
  shows "(\<forall>s. CustomCiphers s \<in> set (relaxations self role) \<longleftrightarrow> ctx_ciphers c = Some s) \<and>
    (HostnameCheckingOff \<in> set (relaxations self role) \<longleftrightarrow>
      rd_verify_hostname (ROLE_DEFAULTS role) \<and> \<not> ctx_check_hostname c) \<and>
    (\<forall>m. PeerPolicy m \<in> set (relaxations self role) \<longleftrightarrow> m \<noteq> CERT_REQUIRED \<and> ctx_verify_mode c = m \<or>
      m = CERT_NONE \<and> ctx_check_hostname c \<and> resolved (tls_verify_mode self) CERT_REQUIRED = CERT_NONE) \<and>
    (ctx_check_hostname c \<and> resolved (tls_verify_mode self) CERT_REQUIRED = CERT_NONE \<longrightarrow> ctx_verify_mode c = CERT_REQUIRED) \<and>
    TLSv1_2 \<le> ctx_minimum_version c"
proof -
  note verify = tls_context_Inr(4) [OF assms]
  have policy: "PeerPolicy m \<in> set (relaxations self role) \<longleftrightarrow> m \<noteq> CERT_REQUIRED \<and> ctx_verify_mode c = m \<or>
      m = CERT_NONE \<and> ctx_check_hostname c \<and> resolved (tls_verify_mode self) CERT_REQUIRED = CERT_NONE" for m
    unfolding relaxations_exact(3) [OF assms] verify by (cases "resolved (tls_verify_mode self) CERT_REQUIRED") auto
  show ?thesis
    using relaxations_exact(1,2) [OF assms] policy verify tls_context_floor [OF assms] by (intro conjI allI) simp_all
qed

theorem relaxations_exact_but_one_witness:
  "\<exists>c. tls_context plain_ssl_io unchecked_tls CLIENT = Inr c \<and> relaxations unchecked_tls CLIENT = [PeerPolicy CERT_NONE] \<and>
    ctx_verify_mode c = CERT_REQUIRED \<and> TLSv1_2 \<le> ctx_minimum_version c"
proof -
  obtain c where c: "tls_context plain_ssl_io unchecked_tls CLIENT = Inr c" and checked: "ctx_check_hostname c"
    and r: "relaxations unchecked_tls CLIENT = [PeerPolicy CERT_NONE]"
    by (simp add: tls_context_def relaxations_def plain_ssl_io_def unchecked_tls_def Let_def set_verify_mode_def
        set_check_hostname_def set_minimum_version_def)
  have "ssl_io_ok plain_ssl_io" by (simp add: ssl_io_ok_def plain_ssl_io_def)
  note exact = relaxations_exact_but_one [OF c this]
  have "resolved (tls_verify_mode unchecked_tls) CERT_REQUIRED = CERT_NONE" by (simp add: unchecked_tls_def)
  with exact checked have "ctx_verify_mode c = CERT_REQUIRED" and "TLSv1_2 \<le> ctx_minimum_version c" by simp_all
  with c r show ?thesis by blast
qed

text \<open>
  C39. The certificate script stops at the first command that fails: what it ran is the plan, authority before
  server before clients, cut right behind that command; it returns 0 exactly when every command of
  the plan succeeds and raises otherwise, and either way its working directory is gone.
\<close>

theorem certificates_all_or_nothing:
  assumes "mc_openssl mc" and "mc_makedirs mc (mc_abspath mc out) = Inr ()" and "mc_mkdtemp mc = Inr workdir"
    and "certs_main mc (Some out) (Some days) st = (r, st')"
  shows "mt_commands st' = mt_commands st @ ran (mc_exits mc) (chain_plan (mc_abspath mc out) days workdir) \<and>
    r = (if list_all (mc_exits mc) (chain_plan (mc_abspath mc out) days workdir) then Inr 0 else Inl RuntimeError) \<and>
    \<not> mt_workdir st'"
  using certs_main_outcome [OF assms] by blast

theorem certificates_all_or_nothing_witness:
  "\<exists>st'. certs_main (\<lparr>mc_openssl = True, mc_exits = (\<lambda>c. c ! 1 \<noteq> ''req''), mc_abspath = id, mc_relpath = id,
        mc_makedirs = (\<lambda>_. Inr ()), mc_mkdtemp = Inr ''tmp''\<rparr>) (Some ''out'') (Some 30)
      \<lparr>mt_commands = [], mt_files = Map.empty, mt_workdir = False, mt_printed = [], mt_errors = [], mt_dirs = []\<rparr> =
      (Inl RuntimeError, st') \<and>
    length (mt_commands st') = 2 \<and> \<not> mt_workdir st'"
  (is "\<exists>st'. certs_main ?mc _ _ ?st = _ \<and> _")
proof -
  obtain r st' where run: "certs_main ?mc (Some ''out'') (Some 30) ?st = (r, st')" by fastforce
  have "\<not> list_all (\<lambda>c. c ! 1 \<noteq> ''req'') (chain_plan ''out'' 30 ''tmp'')"
    "length (ran (\<lambda>c. c ! 1 \<noteq> ''req'') (chain_plan ''out'' 30 ''tmp'')) = 2"
    by code_simp+
  with certificates_all_or_nothing [OF _ _ _ run, of "''tmp''"] run show ?thesis by auto
qed

text \<open>
  C40. The changelog reader reads back what was written: from a document of any well-formed releases, with
  bullets wrapped over any number of lines, it returns exactly the released sections in order, and for
  any version exactly the bullets written under it, each joined to one line.
\<close>

theorem changelog_read_back:
  assumes "list_all entry_ok es"
  shows "read_sections (document es) = concat (map shipped es) \<and>
    read_section_body (document es) label =
      concat (map (\<lambda>e. if fst (fst e) = label then map bullet_text (snd e) else []) es)"
  using document_read_back [OF assms] by blast

theorem changelog_read_back_witness:
  "read_sections (document [((''Unreleased'', None), []), ((''1.0'', Some ''2024''), [(''one'', [''two'']), (''three'', [])])]) =
     [(''1.0'', Some ''2024'')] \<and>
   read_section_body (document [((''Unreleased'', None), []), ((''1.0'', Some ''2024''), [(''one'', [''two'']), (''three'', [])])]) ''1.0'' =
     [''one two'', ''three'']"
proof -
  have "list_all entry_ok [((''Unreleased'', None), []), ((''1.0'', Some ''2024''), [(''one'', [''two'']), (''three'', [])])]"
    by code_simp
  from changelog_read_back [OF this, of "''1.0''"] show ?thesis
    by (simp add: shipped_def UNRELEASED_def bullet_text_def)
qed

section \<open>Further facts\<close>

text \<open>
  Registering files a class under its own identifier, where it is found, in place of whatever was
  there, and touches no other; unregistering makes the identifier answer with the generic class
  again, and is a \<open>KeyError\<close> exactly when nothing is registered; a cleared registry answers with the
  generic class throughout. So every class stays filed under its own identifier.
\<close>

lemma registry_operations:
  assumes "registry_ok reg"
  shows "registry_ok (registry_register reg t) \<and> registry_get (registry_register reg t) (PDU_ID (dyn_decl t)) = t \<and>
    (\<forall>k. k \<noteq> PDU_ID (dyn_decl t) \<longrightarrow> registry_get (registry_register reg t) k = registry_get reg k) \<and>
    (\<forall>reg'. registry_unregister reg t = Inr reg' \<longrightarrow>
       registry_ok reg' \<and> registry_get reg' (PDU_ID (dyn_decl t)) = ModbusPdu_type) \<and>
    (registry_unregister reg t = Inl KeyError \<longleftrightarrow> reg (PDU_ID (dyn_decl t)) = None) \<and>
    registry_ok (registry_clear reg) \<and> registry_get (registry_clear reg) k = ModbusPdu_type"
  using registry_ok_register [OF assms, of t] registry_ok_unregister [OF assms, of t] registry_ok_clear [of reg]
  by (auto simp: registry_get_def registry_register_apply registry_unregister_def registry_clear_def split: option.splits)

text \<open>
  What a PDU serializes to is as long as \<open>len\<close> says, which is what the header's length field is
  computed from, and opens with its function code, the error mask added for an exception response.
\<close>

lemma serialized_length_and_code:
  assumes "dyn_serialize p = Inr s"
  shows "dyn_len p = Inr (int (length s)) \<and> s \<noteq> [] \<and> uint (hd s) = wire_fc p"
  using dyn_ser_len [OF assms] dyn_serialize_hd [OF assms] by simp

text \<open>
  A client is never handed the reading of another request: over any socket at all, a response that
  is returned carries the pending identifier when a request is pending, and then none is.
\<close>

lemma accepted_response_matches:
  assumes "wait_response reg ops fresh self = Some (Inr (Some (h, p)), self')"
  shows "cl_pending_trans_id self' = None \<and> (\<forall>t. cl_pending_trans_id self = Some t \<longrightarrow> trans_id h = t)"
  by (rule wait_response_accepts [OF assms])

text \<open>
  The generic RTU packet is transparent: it accepts just the byte strings with a right checksum (of
  a length Python can hold), and gives each of them back unchanged.
\<close>

lemma rtu_packet_transparent:
  assumes "int (length s) \<le> PY_SSIZE_T_MAX"
  shows "((\<exists>self. ModbusRtuPacket_deserialize s True = Inr self) \<longleftrightarrow> (\<exists>c. validate_crc s = Inr c)) \<and>
    (\<forall>self. ModbusRtuPacket_deserialize s True = Inr self \<longrightarrow> ModbusRtuPacket_serialize self = (Inr s, self))"
  using rtu_packet_ser_des [of s] rtu_packet_total [of s] assms validate_crc_valid [of s] by auto

text \<open>
  \<open>validate\<close> is silent exactly when every field that has limits is within them and no part of the
  packet has a finding of its own.
\<close>

lemma validate_checks_limits:
  "packet_validate (packet_violations cls attr parts) = Inr () \<longleftrightarrow>
     (\<forall>(field, low, high)\<in>set (LIMITS cls). \<exists>v. attr field = Inr v \<and> low \<le> v \<and> v \<le> high) \<and>
     (\<forall>p\<in>set parts. p = Inr [])"
  unfolding packet_violations_none [symmetric]
  by (cases "packet_violations cls attr parts") (auto simp: packet_validate_def)

text \<open>
  A parsed response serializes to the bytes it came from, exception responses included, where its
  byte count is the number of values it holds: for the two bit-read responses \<open>serialize\<close> takes the
  number of values from the count, so a peer's wrong count is not reproduced.
\<close>

lemma parse_response_reproduces:
  assumes "registry_ok reg" and "parse_response reg s = Inr q" and "count_agrees q"
  shows "dyn_serialize q = Inr s"
  using assms by (rule parse_response_exact)

text \<open>
  Fragmenting and assembling a message gives it back; a positive fragment size puts the header in a
  fragment of its own and cuts the PDU into non-empty pieces of at most that size; a negative one
  is refused.
\<close>

lemma fragments_reassemble:
  "(0 \<le> n \<longrightarrow> (\<exists>fs. fragmenter_fragment message n = Inr fs \<and> fragmenter_assemble fs = message \<and>
      (0 < n \<longrightarrow> hd fs = take HEADER_SIZE message \<and> (\<forall>f\<in>set (tl fs). f \<noteq> [] \<and> int (length f) \<le> n)))) \<and>
   (n < 0 \<longrightarrow> fragmenter_fragment message n = Inl ModbusPacketError)"
proof (intro conjI impI)
  assume "0 \<le> n"
  then obtain fs where fs: "fragmenter_fragment message n = Inr fs" using fragment_total by blast
  have "hd fs = take HEADER_SIZE message \<and> (\<forall>f\<in>set (tl fs). f \<noteq> [] \<and> int (length f) \<le> n)" if "0 < n"
  proof -
    have "fs = take HEADER_SIZE message # frag_chunks (nat n) (drop HEADER_SIZE message)"
      using fs that by (simp add: fragmenter_fragment_def)
    moreover have "f \<noteq> [] \<and> int (length f) \<le> n" if "f \<in> set (frag_chunks (nat n) (drop HEADER_SIZE message))" for f
      using frag_chunks_sizes [OF that] \<open>0 < n\<close> by linarith
    ultimately show ?thesis by simp
  qed
  then show "\<exists>fs. fragmenter_fragment message n = Inr fs \<and> fragmenter_assemble fs = message \<and>
      (0 < n \<longrightarrow> hd fs = take HEADER_SIZE message \<and> (\<forall>f\<in>set (tl fs). f \<noteq> [] \<and> int (length f) \<le> n))"
    using fs fragment_assemble [OF fs] by blast
qed (simp add: fragmenter_fragment_def)

text \<open>
  A reset of a server that processes its connections breaks its shutdown: the thread trips over the
  first connection \<open>reset\<close> has closed, which is still on its read list, and ends with an \<open>OSError\<close>
  before it closes the listener.
\<close>

lemma reset_leaves_listener_open:
  assumes "server_ok srv self" and "server_live self" and "sv_process_connections self"
    and "c \<in> set (sv_clients self)" and "\<not> dead c"
  shows "\<exists>self'. server_run reg ops srv inps (server_reset dead self) = Some (Inl OSError, self') \<and>
    srv \<notin> set (sv_closed self')"
  using server_reset_trips [of srv self c dead reg ops inps] assms by blast

text \<open>
  A Modbus/TCP request of a packaged class, whose header counts its PDU, survives the wire.
\<close>

lemma tcp_request_round_trip:
  assumes "ModbusTcpRequest_serialize self = Inr s" and "length_agrees self"
    and "dyn_type (tcp_pdu self) \<in> set registrations" and "pdu_is_request (dyn_decl (dyn_type (tcp_pdu self)))"
  shows "ModbusTcpRequest_deserialize (parse_request default_registry) s = Inr self"
  by (rule request_parser.tcp_request_des_ser [OF assms(1,2) registered_known_request [OF assms(3,4)]])

text \<open>
  Deserializing a request tells its failures apart: where the frame's boundary is in doubt, or the
  frame holds no PDU at all, a packet error; where only the PDU cannot be read, an error that
  carries the header to answer under and the function code; and a request otherwise.
\<close>

lemma tcp_request_errors_classified:
  "ModbusTcpRequest_deserialize (parse_request reg) s = (case framed_header s of
     None \<Rightarrow> Inl ModbusPacketError
   | Some h \<Rightarrow> (case parse_request reg (drop HEADER_SIZE s) of
       Inr p \<Rightarrow> Inr \<lparr>tcp_header = h, tcp_pdu = p\<rparr>
     | Inl e \<Rightarrow> if length s = HEADER_SIZE then Inl ModbusPacketError
               else Inl (ModbusPduParseError h (uint (s ! HEADER_SIZE)))))"
  by (rule request_parser.tcp_request_deserialize_eq)

text \<open>
  Serving one connection leaves every other alone: what is on its wire, its place in the read list,
  its name, its time of last activity, and whether it is closed.
\<close>

lemma serving_is_isolated:
  assumes "server_serve reg ops conn now self = Some (r, self')" and "c \<noteq> conn"
  shows "sv_net self' c = sv_net self c \<and> (c \<in> set (sv_read_list self') \<longleftrightarrow> c \<in> set (sv_read_list self)) \<and>
    sv_peer_names self' c = sv_peer_names self c \<and> sv_last_activity self' c = sv_last_activity self c \<and>
    (c \<in> set (sv_closed self') \<longleftrightarrow> c \<in> set (sv_closed self))"
  by (rule server_serve_others [OF assms])

text \<open>
  The inactivity sweep is exact: it keeps, in order, the connections heard from within the timeout
  and closes just the others, though it edits the list it walks.
\<close>

lemma sweep_closes_the_silent:
  assumes "server_ok srv self"
  shows "sv_read_list (server_sweep_inactive srv now self) = srv # filter (\<lambda>c. \<not> silent self now c) (sv_conns self) \<and>
    sv_closed (server_sweep_inactive srv now self) = rev (filter (silent self now) (sv_conns self)) @ sv_closed self"
  by (rule server_sweep_exact [OF assms])

text \<open>
  On a transceiver that hears itself, a stream told of the echo takes its own frame back off the
  line and nothing else, so the peer's answer is what is received next.
\<close>

lemma send_takes_back_its_echo:
  assumes "echo_port ops coming" and "st_echo st"
  shows "\<exists>p'. stream_send ops st m = Some (Inr (), st\<lparr>st_port := p'\<rparr>) \<and> coming p' = coming (st_port st)"
  by (rule echo_port.send_echo [OF assms])

text \<open>
  A receiver can size a PDU before it has all of it: behind the bytes of a PDU whose count field
  tells the truth, whatever follows them, \<open>expected_size\<close> answers the length \<open>serialize\<close> gave it;
  and once it has answered, more bytes never change the answer.
\<close>

lemma expected_size_of_serialized:
  assumes "dyn_serialize p = Inr s" and "sizable p"
  shows "dyn_expected_size (dyn_type p) (s @ u) = Inr (Some (int (length s))) \<and>
    (\<forall>t v n. s = t @ v \<longrightarrow> dyn_expected_size (dyn_type p) t = Inr (Some n) \<longrightarrow> n = int (length s))"
proof (intro conjI allI impI)
  show "dyn_expected_size (dyn_type p) (s @ u) = Inr (Some (int (length s)))"
    by (rule expected_size_serialized [OF assms])
  fix t v n
  assume "s = t @ v" and "dyn_expected_size (dyn_type p) t = Inr (Some n)"
  then show "n = int (length s)"
    using expected_size_Some_append [of "dyn_type p" t n "v @ u"] expected_size_serialized [OF assms, of u] by simp
qed

text \<open>
  Parsing never fails in a way its callers do not expect: on any bytes at all, under any registry,
  the parse functions return a PDU or raise a packet error, and serializing any PDU at all raises
  nothing else either.
\<close>

lemma parsing_raises_packet_errors:
  "raises_only is_ModbusPacketError (parse_request reg s) \<and> raises_only is_ModbusPacketError (parse_response reg s) \<and>
   raises_only is_ModbusPacketError (dyn_serialize p)"
  by (simp add: parse_request_raises parse_response_raises dyn_serialize_raises)

text \<open>
  \<open>start\<close> comes back by its deadline, and with the right news: the first look at which the listener is
  up, the thread is gone or the time is over decides, whatever was seen before and whatever would be
  seen after, and it reports success exactly when the listener was up.
\<close>

lemma start_reports_startup:
  assumes "\<forall>p\<in>set ps. undecided (now + timeout) p" and "\<not> undecided (now + timeout) q"
  shows "\<exists>self'. server_start (Inr ()) now (ps @ q # qs) process timeout self =
      (Some (if po_started q then Inr () else Inl ModbusNetworkError), self') \<and> sv_process_connections self' = process \<and>
    (now + timeout \<le> po_time r \<longrightarrow> \<not> undecided (now + timeout) r)"
  using start_wait_decides [OF assms] by (simp add: server_start_def undecided_def)

text \<open>
  The checksum sees every corruption that flips an odd number of bits: a frame that passes
  \<open>validate_crc\<close> holds an even number of one bits.
\<close>

lemma crc_detects_odd_errors:
  assumes "validate_crc s = Inr c"
  shows "\<not> odd_bits_of s"
  using assms crc_valid_parity [of s] validate_crc_valid by blast

text \<open>
  Parsing undoes serializing for responses, exception responses among them.
\<close>

lemma parse_response_serialized:
  assumes "dyn_type p \<in> set registrations \<and> \<not> pdu_is_request (dyn_decl (dyn_type p)) \<or>
      (\<exists>fc exc_code. 0 \<le> fc \<and> p = CommonPdu (ModbusError fc exc_code))"
    and "dyn_serialize p = Inr s"
  shows "parse_response default_registry s = Inr p"
proof -
  have "known_response default_registry p"
    using assms(1) registered_known_response [of p]
    by (auto simp: known_response_def ERROR_MASK_def)
  then show ?thesis using assms(2) by (rule response_parser.des_ser)
qed

text \<open>
  Saving the registry works by copying it and only so: whatever is registered, unregistered, cleared or
  swapped in afterwards, setting a copy again brings the registry back as it was, as long as no caller
  was handed the copy.
\<close>

lemma registry_copy_restores:
  assumes "fresh \<noteq> parser_get_registry st" and "SetRegistry fresh \<notin> set calls"
  shows "current (parser_set_registry fresh (parser_calls calls (copy_dict (parser_get_registry st) fresh st))) = current st"
  by (rule copy_restores [OF assms])

text \<open>
  A server answers every conforming request, once: the one message it writes decodes, with the
  parser a client uses, as the response made for that request, behind a header that echoes the
  transaction, protocol and unit identifiers.
\<close>

lemma server_answers_request:
  assumes "greedy_socket ops outbox" and "framed_header data = Some h"
    and "parse_request default_registry (drop HEADER_SIZE data) = Inr q" and "answerable q"
    and "cfg_handler cfg = None" and "0 \<le> cfg_delay cfg" and "\<not> cfg_fail cfg"
  shows "\<exists>s' m n. on_data default_registry ops cfg data conn = (Inr (), s') \<and> outbox s' = outbox conn @ m \<and>
    ModbusTcpResponse_deserialize (parse_response default_registry) m =
      Inr \<lparr>tcp_header = response_header h n, tcp_pdu = response_pdu q\<rparr>"
  by (rule greedy_socket.on_data_answers [OF assms])

end
